theory Spec2Isabelle
  imports Complex_Main
begin

unbundle bit_operations_syntax

section \<open>Data model\<close>

text \<open>
  The distance kernels of KRL (\<^verbatim>\<open>L2distance_simd.cpp\<close>, \<^verbatim>\<open>IPdistance_simd.cpp\<close>).

  \<^item> A \<^verbatim>\<open>float\<close> is a \<open>real\<close>, and its arithmetic is read in two ways. In the
    definitions of the kernels as such the operations are exact: a kernel is the sum
    it computes, which is what decides which slot receives which distance. In the
    section on rounded arithmetic the same kernels are written with a rounding after
    every operation, \<open>round_f32\<close> being the rounding of binary32; there the order of
    the additions matters.
  \<^item> A \<^verbatim>\<open>const float *\<close> that is only read is the array it points to, \<open>p j\<close> being
    \<^verbatim>\<open>p[j]\<close>; \<^verbatim>\<open>p + k\<close> is \<open>ptr_add p k\<close>. A pointer argument that may be
    \<^verbatim>\<open>nullptr\<close> is an \<open>option\<close>, \<open>None\<close> being the null pointer.
  \<^item> The output memory is a store of cells addressed by naturals; a \<^verbatim>\<open>float *dis\<close>
    is an address in it. Next to each cell the store counts how many times a kernel
    call (or the bounded copy of the remainder path) has written the cell.
  \<^item> A \<^verbatim>\<open>size_t\<close> is a \<open>nat\<close>. The entry points that take \<open>d\<close> and \<open>ny\<close>
    bound them by 65535 and \<open>2^30\<close> before any arithmetic, so nothing wraps there. The
    handle entry points bound nothing, and there the wrap-around modulo \<open>2^64\<close> of the
    validation products, of the remaining capacity and of the byte counts is written out.
\<close>

type_synonym fptr = "nat \<Rightarrow> real"

definition ptr_add :: "fptr \<Rightarrow> nat \<Rightarrow> fptr" where
  "ptr_add p k = (\<lambda>j. p (k + j))"

text \<open>Status codes of \<^verbatim>\<open>platform_macros.h\<close>.\<close>

definition SUCCESS :: int where "SUCCESS = 0"
definition INVALPOINTER :: int where "INVALPOINTER = - 1"
definition INVALPARAM :: int where "INVALPARAM = - 3"
definition UNSAFEMEM :: int where "UNSAFEMEM = - 5"

text \<open>The 64-bit \<^verbatim>\<open>size_t\<close>: \<open>size_t n\<close> is \<open>n\<close> as the machine holds it.\<close>

definition size_t :: "nat \<Rightarrow> nat" where
  "size_t n = n mod 2 ^ 64"

subsection \<open>Output memory\<close>

record outbuf =
  cells :: "nat \<Rightarrow> real"
  hits :: "nat \<Rightarrow> nat"

text \<open>
  \<open>store_block buf dis w vals\<close>: one kernel call writes its \<open>w\<close> results
  \<^verbatim>\<open>dis[0] .. dis[w-1]\<close>, \<open>vals k\<close> being the final value of \<^verbatim>\<open>dis[k]\<close>.
\<close>

definition store_block :: "outbuf \<Rightarrow> nat \<Rightarrow> nat \<Rightarrow> (nat \<Rightarrow> real) \<Rightarrow> outbuf" where
  "store_block buf dis w vals =
     buf\<lparr>cells := (\<lambda>j. if dis \<le> j \<and> j < dis + w then vals (j - dis) else cells buf j),
         hits := (\<lambda>j. if dis \<le> j \<and> j < dis + w then hits buf j + 1 else hits buf j)\<rparr>"

subsection \<open>NEON registers and intrinsics\<close>

text \<open>
  The arithmetic of the intrinsics below, and of every kernel built from them up to the
  handle entry points, is exact. Their counterparts with a rounding after every
  operation carry the suffix \<open>_rnd\<close> and stand in the section on rounded arithmetic.
\<close>

datatype float32x4_t = F4 real real real real

definition vld1q_f32 :: "fptr \<Rightarrow> float32x4_t" where
  "vld1q_f32 p = F4 (p 0) (p 1) (p 2) (p 3)"

definition vdupq_n_f32 :: "real \<Rightarrow> float32x4_t" where
  "vdupq_n_f32 v = F4 v v v v"

fun vsubq_f32 :: "float32x4_t \<Rightarrow> float32x4_t \<Rightarrow> float32x4_t" where
  "vsubq_f32 (F4 a0 a1 a2 a3) (F4 b0 b1 b2 b3) = F4 (a0 - b0) (a1 - b1) (a2 - b2) (a3 - b3)"

fun vaddq_f32 :: "float32x4_t \<Rightarrow> float32x4_t \<Rightarrow> float32x4_t" where
  "vaddq_f32 (F4 a0 a1 a2 a3) (F4 b0 b1 b2 b3) = F4 (a0 + b0) (a1 + b1) (a2 + b2) (a3 + b3)"

fun vmulq_f32 :: "float32x4_t \<Rightarrow> float32x4_t \<Rightarrow> float32x4_t" where
  "vmulq_f32 (F4 a0 a1 a2 a3) (F4 b0 b1 b2 b3) = F4 (a0 * b0) (a1 * b1) (a2 * b2) (a3 * b3)"

text \<open>\<^verbatim>\<open>vmlaq_f32(a, b, c)\<close> is \<open>a + b * c\<close> in every lane.\<close>

fun vmlaq_f32 :: "float32x4_t \<Rightarrow> float32x4_t \<Rightarrow> float32x4_t \<Rightarrow> float32x4_t" where
  "vmlaq_f32 (F4 a0 a1 a2 a3) (F4 b0 b1 b2 b3) (F4 c0 c1 c2 c3) =
     F4 (a0 + b0 * c0) (a1 + b1 * c1) (a2 + b2 * c2) (a3 + b3 * c3)"

text \<open>\<^verbatim>\<open>vaddvq_f32\<close>: the sum across the four lanes.\<close>

fun vaddvq_f32 :: "float32x4_t \<Rightarrow> real" where
  "vaddvq_f32 (F4 a0 a1 a2 a3) = a0 + a1 + a2 + a3"

text \<open>Lane \<open>j\<close> of a register, as \<^verbatim>\<open>vst1q_f32\<close> lays it out in memory.\<close>

fun lane :: "float32x4_t \<Rightarrow> nat \<Rightarrow> real" where
  "lane (F4 a0 a1 a2 a3) j = (if j = 0 then a0 else if j = 1 then a1 else if j = 2 then a2 else a3)"

subsection \<open>Counting loops\<close>

text \<open>
  \<^verbatim>\<open>for (; i <= hi; i += st) s = body(i, s);\<close> returning the final \<open>i\<close> and \<open>s\<close>.
  Every use has a positive constant step.
\<close>

function loop_le :: "nat \<Rightarrow> nat \<Rightarrow> nat \<Rightarrow> (nat \<Rightarrow> 'a \<Rightarrow> 'a) \<Rightarrow> 'a \<Rightarrow> nat \<times> 'a" where
  "loop_le i hi st body s =
     (if i \<le> hi \<and> 0 < st then loop_le (i + st) hi st body (body i s) else (i, s))"
  by pat_completeness auto
termination
  by (relation "measure (\<lambda>(i, hi, st, body, s). Suc hi - i)") auto

text \<open>\<^verbatim>\<open>for (; i < hi; i += st) s = body(i, s);\<close>\<close>

function loop_lt :: "nat \<Rightarrow> nat \<Rightarrow> nat \<Rightarrow> (nat \<Rightarrow> 'a \<Rightarrow> 'a) \<Rightarrow> 'a \<Rightarrow> nat \<times> 'a" where
  "loop_lt i hi st body s =
     (if i < hi \<and> 0 < st then loop_lt (i + st) hi st body (body i s) else (i, s))"
  by pat_completeness auto
termination
  by (relation "measure (\<lambda>(i, hi, st, body, s). hi - i)") auto

text \<open>\<^verbatim>\<open>for (; i + w <= n; i += w) s = body(i, s);\<close>\<close>

function loop_fit :: "nat \<Rightarrow> nat \<Rightarrow> nat \<Rightarrow> (nat \<Rightarrow> 'a \<Rightarrow> 'a) \<Rightarrow> 'a \<Rightarrow> nat \<times> 'a" where
  "loop_fit i n w body s =
     (if i + w \<le> n \<and> 0 < w then loop_fit (i + w) n w body (body i s) else (i, s))"
  by pat_completeness auto
termination
  by (relation "measure (\<lambda>(i, n, w, body, s). n - i)") auto

text \<open>The loop equations are unfolded on request only.\<close>

declare loop_le.simps [simp del] loop_lt.simps [simp del] loop_fit.simps [simp del]

section \<open>Register steps\<close>

text \<open>
  The statement groups that the kernels repeat. On the four floats at offset \<open>i\<close>:
  \<^verbatim>\<open>q = vsubq_f32(vld1q_f32(x + i), vld1q_f32(y + i)); acc = vmulq_f32(q, q)\<close> starts an
  accumulator and \<^verbatim>\<open>acc = vmlaq_f32(acc, q, q)\<close> continues it. The kernels for one
  and two vectors subtract the base from the query (\<open>xy\<close>), the wider ones the query
  from the base (\<open>yx\<close>).
\<close>

definition l2_mul_xy :: "fptr \<Rightarrow> fptr \<Rightarrow> nat \<Rightarrow> float32x4_t" where
  "l2_mul_xy x y i =
     (let q = vsubq_f32 (vld1q_f32 (ptr_add x i)) (vld1q_f32 (ptr_add y i)) in vmulq_f32 q q)"

definition l2_mla_xy :: "fptr \<Rightarrow> fptr \<Rightarrow> nat \<Rightarrow> float32x4_t \<Rightarrow> float32x4_t" where
  "l2_mla_xy x y i acc =
     (let q = vsubq_f32 (vld1q_f32 (ptr_add x i)) (vld1q_f32 (ptr_add y i)) in vmlaq_f32 acc q q)"

definition l2_mul_yx :: "fptr \<Rightarrow> fptr \<Rightarrow> nat \<Rightarrow> float32x4_t" where
  "l2_mul_yx x y i =
     (let b = vsubq_f32 (vld1q_f32 (ptr_add y i)) (vld1q_f32 (ptr_add x i)) in vmulq_f32 b b)"

definition l2_mla_yx :: "fptr \<Rightarrow> fptr \<Rightarrow> nat \<Rightarrow> float32x4_t \<Rightarrow> float32x4_t" where
  "l2_mla_yx x y i acc =
     (let b = vsubq_f32 (vld1q_f32 (ptr_add y i)) (vld1q_f32 (ptr_add x i)) in vmlaq_f32 acc b b)"

text \<open>
  For the inner product: \<^verbatim>\<open>vmulq_f32(x, y)\<close> and \<^verbatim>\<open>vmlaq_f32(acc, x, y)\<close> in the
  kernels for one and two vectors, \<^verbatim>\<open>vmulq_f32(base, query)\<close> and
  \<^verbatim>\<open>vmlaq_f32(acc, base, query)\<close> in the wider ones.
\<close>

definition ip_mul_xy :: "fptr \<Rightarrow> fptr \<Rightarrow> nat \<Rightarrow> float32x4_t" where
  "ip_mul_xy x y i = vmulq_f32 (vld1q_f32 (ptr_add x i)) (vld1q_f32 (ptr_add y i))"

definition ip_mla_xy :: "fptr \<Rightarrow> fptr \<Rightarrow> nat \<Rightarrow> float32x4_t \<Rightarrow> float32x4_t" where
  "ip_mla_xy x y i acc = vmlaq_f32 acc (vld1q_f32 (ptr_add x i)) (vld1q_f32 (ptr_add y i))"

definition ip_mul_yx :: "fptr \<Rightarrow> fptr \<Rightarrow> nat \<Rightarrow> float32x4_t" where
  "ip_mul_yx x y i = vmulq_f32 (vld1q_f32 (ptr_add y i)) (vld1q_f32 (ptr_add x i))"

definition ip_mla_yx :: "fptr \<Rightarrow> fptr \<Rightarrow> nat \<Rightarrow> float32x4_t \<Rightarrow> float32x4_t" where
  "ip_mla_yx x y i acc = vmlaq_f32 acc (vld1q_f32 (ptr_add y i)) (vld1q_f32 (ptr_add x i))"

text \<open>
  The scalar loops over the last \<^verbatim>\<open>d - i\<close> dimensions,
  \<^verbatim>\<open>for (; i < d; i++) { const float tmp = x[i] - y[i]; res += tmp * tmp; }\<close>
  and its inner-product twin.
\<close>

definition l2_scalar_loop :: "fptr \<Rightarrow> fptr \<Rightarrow> nat \<Rightarrow> nat \<Rightarrow> real \<Rightarrow> real" where
  "l2_scalar_loop x y i d res =
     snd (loop_lt i d 1 (\<lambda>i res. let tmp = x i - y i in res + tmp * tmp) res)"

definition ip_scalar_loop :: "fptr \<Rightarrow> fptr \<Rightarrow> nat \<Rightarrow> nat \<Rightarrow> real \<Rightarrow> real" where
  "ip_scalar_loop x y i d res =
     snd (loop_lt i d 1 (\<lambda>i res. let tmp = x i * y i in res + tmp) res)"

section \<open>Single-pair kernels\<close>

text \<open>
  The computation of \<^verbatim>\<open>krl_L2sqr\<close> after its validation: the value it stores in
  \<^verbatim>\<open>*dis\<close>. The registers \<^verbatim>\<open>d8_0 .. d8_3\<close> are the state of the first loop; the
  second loop continues \<^verbatim>\<open>d8_0\<close> alone, the scalar loop finishes on \<^verbatim>\<open>res\<close>.
\<close>

definition krl_L2sqr_res :: "fptr \<Rightarrow> fptr \<Rightarrow> nat \<Rightarrow> real" where
  "krl_L2sqr_res x y d =
    (let (i, res) =
       (if d \<ge> 16 then
          let d8_0 = l2_mul_xy x y 0;
              d8_1 = l2_mul_xy x y 4;
              d8_2 = l2_mul_xy x y 8;
              d8_3 = l2_mul_xy x y 12;
              (i, d8_0, d8_1, d8_2, d8_3) =
                loop_le 16 (d - 16) 16
                  (\<lambda>i (d8_0, d8_1, d8_2, d8_3).
                     (l2_mla_xy x y i d8_0, l2_mla_xy x y (i + 4) d8_1,
                      l2_mla_xy x y (i + 8) d8_2, l2_mla_xy x y (i + 12) d8_3))
                  (d8_0, d8_1, d8_2, d8_3);
              (i, d8_0) = loop_le i (d - 4) 4 (l2_mla_xy x y) d8_0;
              d8_0 = vaddq_f32 d8_0 d8_1;
              d8_2 = vaddq_f32 d8_2 d8_3;
              d8_0 = vaddq_f32 d8_0 d8_2
          in (i, vaddvq_f32 d8_0)
        else if d \<ge> 4 then
          let d8_0 = l2_mul_xy x y 0;
              (i, d8_0) = loop_le 4 (d - 4) 4 (l2_mla_xy x y) d8_0
          in (i, vaddvq_f32 d8_0)
        else (0, 0))
     in l2_scalar_loop x y i d res)"

text \<open>
  \<^verbatim>\<open>int krl_L2sqr(const float *x, const float *y, size_t d, float *dis, size_t dis_size)\<close>:
  the status and the output memory after the call.
\<close>

definition krl_L2sqr ::
  "fptr option \<Rightarrow> fptr option \<Rightarrow> nat \<Rightarrow> nat option \<Rightarrow> nat \<Rightarrow> outbuf \<Rightarrow> int \<times> outbuf" where
  "krl_L2sqr x y d dis dis_size buf =
    (if d < 1 \<or> d > 65535 then (INVALPARAM, buf)
     else if x = None \<or> y = None \<or> dis = None \<or> dis_size < 1 then (INVALPOINTER, buf)
     else (SUCCESS, store_block buf (the dis) 1 (\<lambda>k. krl_L2sqr_res (the x) (the y) d)))"

definition krl_ipdis_res :: "fptr \<Rightarrow> fptr \<Rightarrow> nat \<Rightarrow> real" where
  "krl_ipdis_res x y d =
    (let (i, res) =
       (if d \<ge> 16 then
          let d8_0 = ip_mul_xy x y 0;
              d8_1 = ip_mul_xy x y 4;
              d8_2 = ip_mul_xy x y 8;
              d8_3 = ip_mul_xy x y 12;
              (i, d8_0, d8_1, d8_2, d8_3) =
                loop_le 16 (d - 16) 16
                  (\<lambda>i (d8_0, d8_1, d8_2, d8_3).
                     (ip_mla_xy x y i d8_0, ip_mla_xy x y (i + 4) d8_1,
                      ip_mla_xy x y (i + 8) d8_2, ip_mla_xy x y (i + 12) d8_3))
                  (d8_0, d8_1, d8_2, d8_3);
              d8_0 = vaddq_f32 d8_0 d8_1;
              d8_2 = vaddq_f32 d8_2 d8_3;
              d8_0 = vaddq_f32 d8_0 d8_2
          in (i, vaddvq_f32 d8_0)
        else (0, 0))
     in ip_scalar_loop x y i d res)"

definition krl_ipdis ::
  "fptr option \<Rightarrow> fptr option \<Rightarrow> nat \<Rightarrow> nat option \<Rightarrow> nat \<Rightarrow> outbuf \<Rightarrow> int \<times> outbuf" where
  "krl_ipdis x y d dis dis_size buf =
    (if d < 1 \<or> d > 65535 then (INVALPARAM, buf)
     else if x = None \<or> y = None \<or> dis = None \<or> dis_size < 1 then (INVALPOINTER, buf)
     else (SUCCESS, store_block buf (the dis) 1 (\<lambda>k. krl_ipdis_res (the x) (the y) d)))"

section \<open>Kernels for several base vectors\<close>

text \<open>
  A kernel for \<open>W\<close> base vectors keeps one accumulator register per vector,
  \<^verbatim>\<open>neon_res1 .. neon_resW\<close>, and repeats every statement \<open>W\<close> times, once per
  vector. The register file is a function from the index \<open>k\<close> of the vector to the
  register, and the \<open>W\<close> copies of a statement are one statement about all \<open>k\<close>. The
  base vectors are \<open>ys k\<close>: \<^verbatim>\<open>y[k]\<close> for a kernel that takes an array of pointers,
  \<^verbatim>\<open>y + k * d\<close> for one that takes a contiguous block. Only the registers \<open>k < W\<close>
  exist in the source and only their sums are stored.
\<close>

type_synonym regs = "nat \<Rightarrow> float32x4_t"

definition l2_regs_mul :: "fptr \<Rightarrow> (nat \<Rightarrow> fptr) \<Rightarrow> nat \<Rightarrow> regs" where
  "l2_regs_mul x ys i = (\<lambda>k. l2_mul_yx x (ys k) i)"

definition l2_regs_mla :: "fptr \<Rightarrow> (nat \<Rightarrow> fptr) \<Rightarrow> nat \<Rightarrow> regs \<Rightarrow> regs" where
  "l2_regs_mla x ys i res = (\<lambda>k. l2_mla_yx x (ys k) i (res k))"

definition ip_regs_mul :: "fptr \<Rightarrow> (nat \<Rightarrow> fptr) \<Rightarrow> nat \<Rightarrow> regs" where
  "ip_regs_mul x ys i = (\<lambda>k. ip_mul_yx x (ys k) i)"

definition ip_regs_mla :: "fptr \<Rightarrow> (nat \<Rightarrow> fptr) \<Rightarrow> nat \<Rightarrow> regs \<Rightarrow> regs" where
  "ip_regs_mla x ys i res = (\<lambda>k. ip_mla_yx x (ys k) i (res k))"

text \<open>
  The scalar remainder of the wide kernels:
  \<^verbatim>\<open>if (i < d) { d_k = q_k * q_k; for (i++; i < d; ++i) d_k += q_k * q_k; dis[k] += d_k; }\<close>
  with \<^verbatim>\<open>q_k = x[i] - *(y[k] + i)\<close>, and \<^verbatim>\<open>d_k = x[i] * *(y[k] + i)\<close> for the inner
  product.
\<close>

definition l2_regs_tail :: "fptr \<Rightarrow> (nat \<Rightarrow> fptr) \<Rightarrow> nat \<Rightarrow> nat \<Rightarrow> (nat \<Rightarrow> real) \<Rightarrow> (nat \<Rightarrow> real)" where
  "l2_regs_tail x ys i d dis =
     (if i < d then
        let dd = (\<lambda>k. let q = x i - ys k i in q * q);
            (i, dd) = loop_lt (i + 1) d 1 (\<lambda>i dd. (\<lambda>k. let q = x i - ys k i in dd k + q * q)) dd
        in (\<lambda>k. dis k + dd k)
      else dis)"

definition ip_regs_tail :: "fptr \<Rightarrow> (nat \<Rightarrow> fptr) \<Rightarrow> nat \<Rightarrow> nat \<Rightarrow> (nat \<Rightarrow> real) \<Rightarrow> (nat \<Rightarrow> real)" where
  "ip_regs_tail x ys i d dis =
     (if i < d then
        let dd = (\<lambda>k. x i * ys k i);
            (i, dd) = loop_lt (i + 1) d 1 (\<lambda>i dd. (\<lambda>k. dd k + x i * ys k i)) dd
        in (\<lambda>k. dis k + dd k)
      else dis)"

text \<open>
  The body shared by \<^verbatim>\<open>krl_L2sqr_batch4\<close>, \<^verbatim>\<open>krl_L2sqr_batch8\<close>,
  \<^verbatim>\<open>krl_L2sqr_batch16\<close>, \<^verbatim>\<open>krl_L2sqr_batch24\<close> and \<^verbatim>\<open>krl_L2sqr_idx_batch4\<close>
  (\<^verbatim>\<open>single_round = 4\<close>): the value of \<^verbatim>\<open>dis[k]\<close> on return.
\<close>

definition L2sqr_regs_single :: "fptr \<Rightarrow> (nat \<Rightarrow> fptr) \<Rightarrow> nat \<Rightarrow> (nat \<Rightarrow> real)" where
  "L2sqr_regs_single x ys d =
    (let (i, dis) =
       (if d \<ge> 4 then
          let neon_res = l2_regs_mul x ys 0;
              (i, neon_res) = loop_le 4 (d - 4) 4 (l2_regs_mla x ys) neon_res
          in (i, (\<lambda>k. vaddvq_f32 (neon_res k)))
        else (0, (\<lambda>k. 0)))
     in l2_regs_tail x ys i d dis)"

text \<open>
  The body shared by \<^verbatim>\<open>krl_L2sqr_idx_prefetch_batch8\<close> and
  \<^verbatim>\<open>krl_L2sqr_idx_prefetch_batch16\<close> (\<^verbatim>\<open>multi_round = 16\<close>). The prefetches
  have no effect on the result and are left out.
\<close>

definition L2sqr_regs_prefetch :: "fptr \<Rightarrow> (nat \<Rightarrow> fptr) \<Rightarrow> nat \<Rightarrow> (nat \<Rightarrow> real)" where
  "L2sqr_regs_prefetch x ys d =
    (let (i, dis) =
       (if d \<ge> 16 then
          let neon_res = (\<lambda>k. vdupq_n_f32 0);
              (i, neon_res) =
                loop_lt 0 (d - 16) 16
                  (\<lambda>i neon_res. snd (loop_lt 0 16 4 (\<lambda>j. l2_regs_mla x ys (i + j)) neon_res))
                  neon_res;
              (i, neon_res) = loop_le i (d - 4) 4 (l2_regs_mla x ys) neon_res
          in (i, (\<lambda>k. vaddvq_f32 (neon_res k)))
        else if d \<ge> 4 then
          let neon_res = l2_regs_mul x ys 0;
              (i, neon_res) = loop_le 4 (d - 4) 4 (l2_regs_mla x ys) neon_res
          in (i, (\<lambda>k. vaddvq_f32 (neon_res k)))
        else (0, (\<lambda>k. 0)))
     in l2_regs_tail x ys i d dis)"

text \<open>The body of \<^verbatim>\<open>krl_L2sqr_idx_prefetch_batch24\<close>.\<close>

definition L2sqr_regs_prefetch24 :: "fptr \<Rightarrow> (nat \<Rightarrow> fptr) \<Rightarrow> nat \<Rightarrow> (nat \<Rightarrow> real)" where
  "L2sqr_regs_prefetch24 x ys d =
    (let (i, dis) =
       (if d \<ge> 16 then
          let neon_res = l2_regs_mul x ys 0;
              (i, neon_res) = loop_lt 4 16 4 (l2_regs_mla x ys) neon_res;
              (i, neon_res) =
                loop_lt i (d - 16) 16
                  (\<lambda>i neon_res. snd (loop_lt i (i + 16) 4 (l2_regs_mla x ys) neon_res))
                  neon_res;
              (i, neon_res) = loop_le i (d - 4) 4 (l2_regs_mla x ys) neon_res
          in (i, (\<lambda>k. vaddvq_f32 (neon_res k)))
        else if d \<ge> 4 then
          let neon_res = l2_regs_mul x ys 0;
              (i, neon_res) = loop_le 4 (d - 4) 4 (l2_regs_mla x ys) neon_res
          in (i, (\<lambda>k. vaddvq_f32 (neon_res k)))
        else (0, (\<lambda>k. 0)))
     in l2_regs_tail x ys i d dis)"

text \<open>
  \<^verbatim>\<open>krl_L2sqr_idx_batch2(x, y0, y1, d, dis)\<close>: the pair \<^verbatim>\<open>(dis[0], dis[1])\<close> on
  return. In the branch \<^verbatim>\<open>d >= 4\<close> the loop reloads \<^verbatim>\<open>x\<close>, \<^verbatim>\<open>y0\<close> and \<^verbatim>\<open>y1\<close> at
  offset 0, as the source does.
\<close>

definition L2sqr_idx_batch2_res :: "fptr \<Rightarrow> fptr \<Rightarrow> fptr \<Rightarrow> nat \<Rightarrow> real \<times> real" where
  "L2sqr_idx_batch2_res x y0 y1 d =
    (let (i, dis0, dis1) =
       (if d \<ge> 8 then
          let d0_0 = l2_mul_xy x y0 0;
              d0_1 = l2_mul_xy x y0 4;
              d1_0 = l2_mul_xy x y1 0;
              d1_1 = l2_mul_xy x y1 4;
              (i, d0_0, d0_1, d1_0, d1_1) =
                loop_le 8 (d - 8) 8
                  (\<lambda>i (d0_0, d0_1, d1_0, d1_1).
                     (l2_mla_xy x y0 i d0_0, l2_mla_xy x y0 (i + 4) d0_1,
                      l2_mla_xy x y1 i d1_0, l2_mla_xy x y1 (i + 4) d1_1))
                  (d0_0, d0_1, d1_0, d1_1);
              (i, d0_0, d1_0) =
                loop_le i (d - 4) 4
                  (\<lambda>i (d0_0, d1_0). (l2_mla_xy x y0 i d0_0, l2_mla_xy x y1 i d1_0))
                  (d0_0, d1_0);
              d0_0 = vaddq_f32 d0_0 d0_1;
              d1_0 = vaddq_f32 d1_0 d1_1
          in (i, vaddvq_f32 d0_0, vaddvq_f32 d1_0)
        else if d \<ge> 4 then
          let d8_0 = l2_mul_xy x y0 0;
              d8_1 = l2_mul_xy x y1 0;
              (i, d8_0, d8_1) =
                loop_le 4 (d - 4) 4
                  (\<lambda>i (d8_0, d8_1). (l2_mla_xy x y0 0 d8_0, l2_mla_xy x y1 0 d8_1))
                  (d8_0, d8_1)
          in (i, vaddvq_f32 d8_0, vaddvq_f32 d8_1)
        else (0, 0, 0))
     in snd (loop_lt i d 1
               (\<lambda>i (dis0, dis1).
                  let tmp0 = x i - y0 i; tmp1 = x i - y1 i
                  in (dis0 + tmp0 * tmp0, dis1 + tmp1 * tmp1))
               (dis0, dis1)))"

text \<open>\<^verbatim>\<open>krl_L2sqr_batch2(x, y, d, dis)\<close> (\<^verbatim>\<open>single_round = 8\<close>), the two vectors at
  \<^verbatim>\<open>y\<close> and \<^verbatim>\<open>y + d\<close>.\<close>

definition L2sqr_batch2_res :: "fptr \<Rightarrow> fptr \<Rightarrow> nat \<Rightarrow> real \<times> real" where
  "L2sqr_batch2_res x y d =
    (let (i, dis0, dis1) =
       (if d \<ge> 8 then
          let d0_0 = l2_mul_xy x y 0;
              d0_1 = l2_mul_xy x y 4;
              d1_0 = l2_mul_xy x (ptr_add y d) 0;
              d1_1 = l2_mul_xy x (ptr_add y d) 4;
              (i, d0_0, d0_1, d1_0, d1_1) =
                loop_le 8 (d - 8) 8
                  (\<lambda>i (d0_0, d0_1, d1_0, d1_1).
                     (l2_mla_xy x y i d0_0, l2_mla_xy x y (i + 4) d0_1,
                      l2_mla_xy x (ptr_add y d) i d1_0, l2_mla_xy x (ptr_add y d) (i + 4) d1_1))
                  (d0_0, d0_1, d1_0, d1_1);
              d0_0 = vaddq_f32 d0_0 d0_1;
              d1_0 = vaddq_f32 d1_0 d1_1
          in (i, vaddvq_f32 d0_0, vaddvq_f32 d1_0)
        else (0, 0, 0))
     in snd (loop_lt i d 1
               (\<lambda>i (dis0, dis1).
                  let tmp0 = x i - y i; tmp1 = x i - y (d + i)
                  in (dis0 + tmp0 * tmp0, dis1 + tmp1 * tmp1))
               (dis0, dis1)))"

text \<open>
  The body shared by \<^verbatim>\<open>krl_inner_product_batch4\<close>, \<^verbatim>\<open>krl_inner_product_batch8\<close>,
  \<^verbatim>\<open>krl_inner_product_batch16\<close>, \<^verbatim>\<open>krl_inner_product_idx_batch4\<close> and
  \<^verbatim>\<open>krl_inner_product_idx_batch8\<close>.
\<close>

definition ip_regs_single :: "fptr \<Rightarrow> (nat \<Rightarrow> fptr) \<Rightarrow> nat \<Rightarrow> (nat \<Rightarrow> real)" where
  "ip_regs_single x ys d =
    (let (i, dis) =
       (if d \<ge> 4 then
          let neon_res = ip_regs_mul x ys 0;
              (i, neon_res) = loop_le 4 (d - 4) 4 (ip_regs_mla x ys) neon_res
          in (i, (\<lambda>k. vaddvq_f32 (neon_res k)))
        else (0, (\<lambda>k. 0)))
     in ip_regs_tail x ys i d dis)"

text \<open>The body of \<^verbatim>\<open>krl_inner_product_idx_prefetch_batch16\<close> (\<^verbatim>\<open>multi_round = 32\<close>).\<close>

definition ip_regs_prefetch16 :: "fptr \<Rightarrow> (nat \<Rightarrow> fptr) \<Rightarrow> nat \<Rightarrow> (nat \<Rightarrow> real)" where
  "ip_regs_prefetch16 x ys d =
    (let (i, dis) =
       (if d \<ge> 32 then
          let neon_res = ip_regs_mul x ys 0;
              (i, neon_res) = loop_lt 4 32 4 (ip_regs_mla x ys) neon_res;
              (i, neon_res) =
                loop_lt i (d - 32) 32
                  (\<lambda>i neon_res. snd (loop_lt 0 32 4 (\<lambda>j. ip_regs_mla x ys (i + j)) neon_res))
                  neon_res;
              (i, neon_res) = loop_le i (d - 4) 4 (ip_regs_mla x ys) neon_res
          in (i, (\<lambda>k. vaddvq_f32 (neon_res k)))
        else if d \<ge> 4 then
          let neon_res = ip_regs_mul x ys 0;
              (i, neon_res) = loop_le 4 (d - 4) 4 (ip_regs_mla x ys) neon_res
          in (i, (\<lambda>k. vaddvq_f32 (neon_res k)))
        else (0, (\<lambda>k. 0)))
     in ip_regs_tail x ys i d dis)"

text \<open>
  \<^verbatim>\<open>krl_inner_product_idx_batch2(x, y0, y1, d, dis)\<close> (\<^verbatim>\<open>single_round = 8\<close>);
  \<^verbatim>\<open>krl_inner_product_batch2(x, y, d, dis)\<close> is the same text with \<^verbatim>\<open>y\<close> and
  \<^verbatim>\<open>y + d\<close> for \<^verbatim>\<open>y0\<close> and \<^verbatim>\<open>y1\<close>.
\<close>

definition ip_idx_batch2_res :: "fptr \<Rightarrow> fptr \<Rightarrow> fptr \<Rightarrow> nat \<Rightarrow> real \<times> real" where
  "ip_idx_batch2_res x y0 y1 d =
    (let (i, dis0, dis1) =
       (if d \<ge> 8 then
          let d0_0 = ip_mul_xy x y0 0;
              d0_1 = ip_mul_xy x y0 4;
              d1_0 = ip_mul_xy x y1 0;
              d1_1 = ip_mul_xy x y1 4;
              (i, d0_0, d0_1, d1_0, d1_1) =
                loop_le 8 (d - 8) 8
                  (\<lambda>i (d0_0, d0_1, d1_0, d1_1).
                     (ip_mla_xy x y0 i d0_0, ip_mla_xy x y0 (i + 4) d0_1,
                      ip_mla_xy x y1 i d1_0, ip_mla_xy x y1 (i + 4) d1_1))
                  (d0_0, d0_1, d1_0, d1_1);
              d0_0 = vaddq_f32 d0_0 d0_1;
              d1_0 = vaddq_f32 d1_0 d1_1
          in (i, vaddvq_f32 d0_0, vaddvq_f32 d1_0)
        else (0, 0, 0))
     in snd (loop_lt i d 1
               (\<lambda>i (dis0, dis1).
                  let tmp0 = x i * y0 i; tmp1 = x i * y1 i
                  in (dis0 + tmp0, dis1 + tmp1))
               (dis0, dis1)))"

definition ip_batch2_res :: "fptr \<Rightarrow> fptr \<Rightarrow> nat \<Rightarrow> real \<times> real" where
  "ip_batch2_res x y d = ip_idx_batch2_res x y (ptr_add y d) d"

text \<open>The value of \<^verbatim>\<open>dis[k]\<close> for a kernel of two vectors.\<close>

definition pair_vals :: "real \<times> real \<Rightarrow> (nat \<Rightarrow> real)" where
  "pair_vals p = (\<lambda>k. if k = 0 then fst p else snd p)"

subsection \<open>The kernels as writers of the output memory\<close>

text \<open>
  \<^verbatim>\<open>static void kernel(const float *x, const float *y, size_t d, float *dis)\<close>: each
  call writes \<^verbatim>\<open>dis[0] .. dis[W-1]\<close>. The parameter order is that of the source.
\<close>

definition krl_L2sqr_idx_batch2 :: "fptr \<Rightarrow> fptr \<Rightarrow> fptr \<Rightarrow> nat \<Rightarrow> nat \<Rightarrow> outbuf \<Rightarrow> outbuf" where
  "krl_L2sqr_idx_batch2 x y0 y1 d dis buf = store_block buf dis 2 (pair_vals (L2sqr_idx_batch2_res x y0 y1 d))"

definition krl_L2sqr_idx_batch4 :: "fptr \<Rightarrow> (nat \<Rightarrow> fptr) \<Rightarrow> nat \<Rightarrow> nat \<Rightarrow> outbuf \<Rightarrow> outbuf" where
  "krl_L2sqr_idx_batch4 x y d dis buf = store_block buf dis 4 (L2sqr_regs_single x y d)"

definition krl_L2sqr_idx_prefetch_batch8 :: "fptr \<Rightarrow> (nat \<Rightarrow> fptr) \<Rightarrow> nat \<Rightarrow> nat \<Rightarrow> outbuf \<Rightarrow> outbuf" where
  "krl_L2sqr_idx_prefetch_batch8 x y d dis buf = store_block buf dis 8 (L2sqr_regs_prefetch x y d)"

definition krl_L2sqr_idx_prefetch_batch16 :: "fptr \<Rightarrow> (nat \<Rightarrow> fptr) \<Rightarrow> nat \<Rightarrow> nat \<Rightarrow> outbuf \<Rightarrow> outbuf" where
  "krl_L2sqr_idx_prefetch_batch16 x y d dis buf = store_block buf dis 16 (L2sqr_regs_prefetch x y d)"

definition krl_L2sqr_idx_prefetch_batch24 :: "fptr \<Rightarrow> (nat \<Rightarrow> fptr) \<Rightarrow> nat \<Rightarrow> nat \<Rightarrow> outbuf \<Rightarrow> outbuf" where
  "krl_L2sqr_idx_prefetch_batch24 x y d dis buf = store_block buf dis 24 (L2sqr_regs_prefetch24 x y d)"

definition krl_L2sqr_batch2 :: "fptr \<Rightarrow> fptr \<Rightarrow> nat \<Rightarrow> nat \<Rightarrow> outbuf \<Rightarrow> outbuf" where
  "krl_L2sqr_batch2 x y d dis buf = store_block buf dis 2 (pair_vals (L2sqr_batch2_res x y d))"

definition krl_L2sqr_batch4 :: "fptr \<Rightarrow> fptr \<Rightarrow> nat \<Rightarrow> nat \<Rightarrow> outbuf \<Rightarrow> outbuf" where
  "krl_L2sqr_batch4 x y d dis buf = store_block buf dis 4 (L2sqr_regs_single x (\<lambda>k. ptr_add y (k * d)) d)"

definition krl_L2sqr_batch8 :: "fptr \<Rightarrow> fptr \<Rightarrow> nat \<Rightarrow> nat \<Rightarrow> outbuf \<Rightarrow> outbuf" where
  "krl_L2sqr_batch8 x y d dis buf = store_block buf dis 8 (L2sqr_regs_single x (\<lambda>k. ptr_add y (k * d)) d)"

definition krl_L2sqr_batch16 :: "fptr \<Rightarrow> fptr \<Rightarrow> nat \<Rightarrow> nat \<Rightarrow> outbuf \<Rightarrow> outbuf" where
  "krl_L2sqr_batch16 x y d dis buf = store_block buf dis 16 (L2sqr_regs_single x (\<lambda>k. ptr_add y (k * d)) d)"

definition krl_L2sqr_batch24 :: "fptr \<Rightarrow> fptr \<Rightarrow> nat \<Rightarrow> nat \<Rightarrow> outbuf \<Rightarrow> outbuf" where
  "krl_L2sqr_batch24 x y d dis buf = store_block buf dis 24 (L2sqr_regs_single x (\<lambda>k. ptr_add y (k * d)) d)"

definition krl_inner_product_batch2 :: "fptr \<Rightarrow> fptr \<Rightarrow> nat \<Rightarrow> nat \<Rightarrow> outbuf \<Rightarrow> outbuf" where
  "krl_inner_product_batch2 x y d dis buf = store_block buf dis 2 (pair_vals (ip_batch2_res x y d))"

definition krl_inner_product_batch4 :: "fptr \<Rightarrow> fptr \<Rightarrow> nat \<Rightarrow> nat \<Rightarrow> outbuf \<Rightarrow> outbuf" where
  "krl_inner_product_batch4 x y d dis buf = store_block buf dis 4 (ip_regs_single x (\<lambda>k. ptr_add y (k * d)) d)"

definition krl_inner_product_batch8 :: "fptr \<Rightarrow> fptr \<Rightarrow> nat \<Rightarrow> nat \<Rightarrow> outbuf \<Rightarrow> outbuf" where
  "krl_inner_product_batch8 x y d dis buf = store_block buf dis 8 (ip_regs_single x (\<lambda>k. ptr_add y (k * d)) d)"

definition krl_inner_product_batch16 :: "fptr \<Rightarrow> fptr \<Rightarrow> nat \<Rightarrow> nat \<Rightarrow> outbuf \<Rightarrow> outbuf" where
  "krl_inner_product_batch16 x y d dis buf = store_block buf dis 16 (ip_regs_single x (\<lambda>k. ptr_add y (k * d)) d)"

definition krl_inner_product_idx_batch2 :: "fptr \<Rightarrow> fptr \<Rightarrow> fptr \<Rightarrow> nat \<Rightarrow> nat \<Rightarrow> outbuf \<Rightarrow> outbuf" where
  "krl_inner_product_idx_batch2 x y0 y1 d dis buf = store_block buf dis 2 (pair_vals (ip_idx_batch2_res x y0 y1 d))"

definition krl_inner_product_idx_batch4 :: "fptr \<Rightarrow> (nat \<Rightarrow> fptr) \<Rightarrow> nat \<Rightarrow> nat \<Rightarrow> outbuf \<Rightarrow> outbuf" where
  "krl_inner_product_idx_batch4 x y d dis buf = store_block buf dis 4 (ip_regs_single x y d)"

definition krl_inner_product_idx_batch8 :: "fptr \<Rightarrow> (nat \<Rightarrow> fptr) \<Rightarrow> nat \<Rightarrow> nat \<Rightarrow> outbuf \<Rightarrow> outbuf" where
  "krl_inner_product_idx_batch8 x y d dis buf = store_block buf dis 8 (ip_regs_single x y d)"

definition krl_inner_product_idx_prefetch_batch16 :: "fptr \<Rightarrow> (nat \<Rightarrow> fptr) \<Rightarrow> nat \<Rightarrow> nat \<Rightarrow> outbuf \<Rightarrow> outbuf" where
  "krl_inner_product_idx_prefetch_batch16 x y d dis buf = store_block buf dis 16 (ip_regs_prefetch16 x y d)"

section \<open>Dense and by-index entry points\<close>

text \<open>
  \<^verbatim>\<open>int krl_L2sqr_ny(float *dis, const float *x, const float *y, size_t ny, size_t d,
  size_t dis_size)\<close>. The loop variable \<open>i\<close> and the output memory are threaded through
  the chunked loop and the four conditional steps. The status of the final
  \<^verbatim>\<open>krl_L2sqr\<close> call is discarded, as in the source.
\<close>

definition krl_L2sqr_ny ::
  "nat option \<Rightarrow> fptr option \<Rightarrow> fptr option \<Rightarrow> nat \<Rightarrow> nat \<Rightarrow> nat \<Rightarrow> outbuf \<Rightarrow> int \<times> outbuf" where
  "krl_L2sqr_ny dis x y ny d dis_size buf =
    (if d < 1 \<or> d > 65535 \<or> ny < 1 \<or> ny > 2 ^ 30 then (INVALPARAM, buf)
     else if x = None \<or> y = None \<or> dis = None \<or> dis_size < ny then (INVALPOINTER, buf)
     else
       let (i, buf) =
             loop_fit 0 ny 24
               (\<lambda>i buf. krl_L2sqr_batch24 (the x) (ptr_add (the y) (i * d)) d (the dis + i) buf) buf;
           (i, buf) =
             (if i + 16 \<le> ny then
                (i + 16, krl_L2sqr_batch16 (the x) (ptr_add (the y) (i * d)) d (the dis + i) buf)
              else if i + 8 \<le> ny then
                (i + 8, krl_L2sqr_batch8 (the x) (ptr_add (the y) (i * d)) d (the dis + i) buf)
              else (i, buf));
           (i, buf) =
             (if ny AND 4 \<noteq> 0 then
                (i + 4, krl_L2sqr_batch4 (the x) (ptr_add (the y) (i * d)) d (the dis + i) buf)
              else (i, buf));
           buf =
             (if ny AND 2 \<noteq> 0 then
                krl_L2sqr_batch2 (the x) (ptr_add (the y) (i * d)) d (the dis + i) buf
              else buf);
           buf =
             (if ny AND 1 \<noteq> 0 then
                snd (krl_L2sqr x (Some (ptr_add (the y) ((ny - 1) * d))) d (Some (the dis + (ny - 1))) 1 buf)
              else buf)
       in (SUCCESS, buf))"

text \<open>\<^verbatim>\<open>krl_inner_product_ny\<close>: chunks of 16, then the bits 8, 4, 2, 1 of \<open>ny\<close>.\<close>

definition krl_inner_product_ny ::
  "nat option \<Rightarrow> fptr option \<Rightarrow> fptr option \<Rightarrow> nat \<Rightarrow> nat \<Rightarrow> nat \<Rightarrow> outbuf \<Rightarrow> int \<times> outbuf" where
  "krl_inner_product_ny dis x y ny d dis_size buf =
    (if d < 1 \<or> d > 65535 \<or> ny < 1 \<or> ny > 2 ^ 30 then (INVALPARAM, buf)
     else if x = None \<or> y = None \<or> dis = None \<or> dis_size < ny then (INVALPOINTER, buf)
     else
       let (i, buf) =
             loop_fit 0 ny 16
               (\<lambda>i buf. krl_inner_product_batch16 (the x) (ptr_add (the y) (i * d)) d (the dis + i) buf) buf;
           (i, buf) =
             (if ny AND 8 \<noteq> 0 then
                (i + 8, krl_inner_product_batch8 (the x) (ptr_add (the y) (i * d)) d (the dis + i) buf)
              else (i, buf));
           (i, buf) =
             (if ny AND 4 \<noteq> 0 then
                (i + 4, krl_inner_product_batch4 (the x) (ptr_add (the y) (i * d)) d (the dis + i) buf)
              else (i, buf));
           buf =
             (if ny AND 2 \<noteq> 0 then
                krl_inner_product_batch2 (the x) (ptr_add (the y) (i * d)) d (the dis + i) buf
              else buf);
           buf =
             (if ny AND 1 \<noteq> 0 then
                snd (krl_ipdis x (Some (ptr_add (the y) ((ny - 1) * d))) d (Some (the dis + (ny - 1))) 1 buf)
              else buf)
       in (SUCCESS, buf))"

text \<open>
  The by-index entry points read the base vectors through an index array of
  \<^verbatim>\<open>int64_t\<close>. The base array is addressed by integers relative to \<^verbatim>\<open>y\<close>, so that
  \<^verbatim>\<open>y + ids[i] * d\<close> is defined for every index, and \<open>idx_ptr y n d\<close> is the pointer
  \<^verbatim>\<open>y + n * d\<close>.
  The indices are not checked against any bound, as in the source. \<open>listy_at y ids d i\<close>
  is the pointer array \<^verbatim>\<open>listy\<close> as filled for the chunk that starts at \<open>i\<close>:
  \<^verbatim>\<open>listy[k] = y + *(ids + i + k) * d\<close>.
\<close>

definition idx_ptr :: "(int \<Rightarrow> real) \<Rightarrow> int \<Rightarrow> nat \<Rightarrow> fptr" where
  "idx_ptr y n d = (\<lambda>j. y (n * int d + int j))"

definition listy_at :: "(int \<Rightarrow> real) \<Rightarrow> (nat \<Rightarrow> int) \<Rightarrow> nat \<Rightarrow> nat \<Rightarrow> (nat \<Rightarrow> fptr)" where
  "listy_at y ids d i = (\<lambda>k. idx_ptr y (ids (i + k)) d)"

definition krl_L2sqr_by_idx ::
  "nat option \<Rightarrow> fptr option \<Rightarrow> (int \<Rightarrow> real) option \<Rightarrow> (nat \<Rightarrow> int) option \<Rightarrow> nat \<Rightarrow> nat \<Rightarrow> nat
     \<Rightarrow> outbuf \<Rightarrow> int \<times> outbuf" where
  "krl_L2sqr_by_idx dis x y ids d ny dis_size buf =
    (if d < 1 \<or> d > 65535 \<or> ny < 1 \<or> ny > 2 ^ 30 then (INVALPARAM, buf)
     else if x = None \<or> y = None \<or> ids = None \<or> dis = None \<or> dis_size < ny then (INVALPOINTER, buf)
     else
       let (i, buf) =
             loop_fit 0 ny 24
               (\<lambda>i buf. krl_L2sqr_idx_prefetch_batch24 (the x) (listy_at (the y) (the ids) d i) d (the dis + i) buf)
               buf;
           (i, buf) =
             (if i + 16 \<le> ny then
                (i + 16, krl_L2sqr_idx_prefetch_batch16 (the x) (listy_at (the y) (the ids) d i) d (the dis + i) buf)
              else if i + 8 \<le> ny then
                (i + 8, krl_L2sqr_idx_prefetch_batch8 (the x) (listy_at (the y) (the ids) d i) d (the dis + i) buf)
              else (i, buf));
           (i, buf) =
             (if ny AND 4 \<noteq> 0 then
                (i + 4, krl_L2sqr_idx_batch4 (the x) (listy_at (the y) (the ids) d i) d (the dis + i) buf)
              else (i, buf));
           (i, buf) =
             (if ny AND 2 \<noteq> 0 then
                let y0 = idx_ptr (the y) (the ids i) d;
                    y1 = idx_ptr (the y) (the ids (i + 1)) d
                in (i + 2, krl_L2sqr_idx_batch2 (the x) y0 y1 d (the dis + i) buf)
              else (i, buf));
           buf =
             (if ny AND 1 \<noteq> 0 then
                snd (krl_L2sqr x (Some (idx_ptr (the y) (the ids i) d)) d (Some (the dis + i)) 1 buf)
              else buf)
       in (SUCCESS, buf))"

definition krl_inner_product_by_idx ::
  "nat option \<Rightarrow> fptr option \<Rightarrow> (int \<Rightarrow> real) option \<Rightarrow> (nat \<Rightarrow> int) option \<Rightarrow> nat \<Rightarrow> nat \<Rightarrow> nat
     \<Rightarrow> outbuf \<Rightarrow> int \<times> outbuf" where
  "krl_inner_product_by_idx dis x y ids d ny dis_size buf =
    (if d < 1 \<or> d > 65535 \<or> ny < 1 \<or> ny > 2 ^ 30 then (INVALPARAM, buf)
     else if x = None \<or> y = None \<or> ids = None \<or> dis = None \<or> dis_size < ny then (INVALPOINTER, buf)
     else
       let (i, buf) =
             loop_fit 0 ny 16
               (\<lambda>i buf. krl_inner_product_idx_prefetch_batch16 (the x) (listy_at (the y) (the ids) d i) d (the dis + i) buf)
               buf;
           (i, buf) =
             (if ny AND 8 \<noteq> 0 then
                (i + 8, krl_inner_product_idx_batch8 (the x) (listy_at (the y) (the ids) d i) d (the dis + i) buf)
              else (i, buf));
           (i, buf) =
             (if ny AND 4 \<noteq> 0 then
                (i + 4, krl_inner_product_idx_batch4 (the x) (listy_at (the y) (the ids) d i) d (the dis + i) buf)
              else (i, buf));
           (i, buf) =
             (if ny AND 2 \<noteq> 0 then
                let y0 = idx_ptr (the y) (the ids i) d;
                    y1 = idx_ptr (the y) (the ids (i + 1)) d
                in (i + 2, krl_inner_product_idx_batch2 (the x) y0 y1 d (the dis + i) buf)
              else (i, buf));
           buf =
             (if ny AND 1 \<noteq> 0 then
                snd (krl_ipdis x (Some (idx_ptr (the y) (the ids i) d)) d (Some (the dis + i)) 1 buf)
              else buf)
       in (SUCCESS, buf))"

section \<open>Transposed-block kernels\<close>

text \<open>
  A transposed kernel for a block of \<open>B\<close> vectors reads, for dimension \<open>i\<close>, the \<open>B\<close>
  floats at \<^verbatim>\<open>y + B * i\<close> into \<open>B / 4\<close> registers, register \<open>r\<close> holding the lanes
  \<open>4r .. 4r+3\<close>, and broadcasts \<^verbatim>\<open>x[i]\<close>. It stores the registers with
  \<^verbatim>\<open>vst1q_f32(dis + 4 * r, neon_res[r])\<close>, so that the float \<open>j\<close> of its output is
  lane \<open>j mod 4\<close> of register \<open>j div 4\<close>. The result of a kernel is the function from
  \<open>j\<close> to that float; the caller says where the \<open>B\<close> floats go (the output memory or
  the scratch buffer).
\<close>

definition regs_floats :: "regs \<Rightarrow> (nat \<Rightarrow> real)" where
  "regs_floats neon_res = (\<lambda>j. lane (neon_res (j div 4)) (j mod 4))"

text \<open>\<^verbatim>\<open>krl_L2sqr_continuous_transpose_large_kernel\<close> (\<open>B = 64\<close>).\<close>

definition krl_L2sqr_continuous_transpose_large_kernel :: "fptr \<Rightarrow> fptr \<Rightarrow> nat \<Rightarrow> (nat \<Rightarrow> real)" where
  "krl_L2sqr_continuous_transpose_large_kernel x y d =
    (let single_query = vdupq_n_f32 (x 0);
         neon_res = (\<lambda>r. let neon_base = vsubq_f32 (vld1q_f32 (ptr_add y (4 * r))) single_query
                         in vmulq_f32 neon_base neon_base);
         (i, neon_res) =
           loop_lt 1 d 1
             (\<lambda>i neon_res.
                let single_query = vdupq_n_f32 (x i)
                in (\<lambda>r. let neon_base = vsubq_f32 (vld1q_f32 (ptr_add y (64 * i + 4 * r))) single_query
                        in vmlaq_f32 (neon_res r) neon_base neon_base))
             neon_res
     in regs_floats neon_res)"

text \<open>
  The body shared by \<^verbatim>\<open>krl_L2sqr_continuous_transpose_medium_kernel\<close> (\<open>B = 32\<close>) and
  \<^verbatim>\<open>krl_L2sqr_continuous_transpose_mini_kernel\<close> (\<open>B = 16\<close>). These two load the
  next dimension before they accumulate the current one: the loop carries
  \<^verbatim>\<open>single_query\<close>, \<^verbatim>\<open>neon_base\<close> and \<^verbatim>\<open>neon_res\<close>, and the difference of the last
  dimension is accumulated after the loop. Any \<open>d\<close> other than 1 takes the second
  branch, which reads \<^verbatim>\<open>x[1]\<close> and \<^verbatim>\<open>y + B\<close>.
\<close>

definition L2sqr_transpose_pipelined :: "nat \<Rightarrow> fptr \<Rightarrow> fptr \<Rightarrow> nat \<Rightarrow> (nat \<Rightarrow> real)" where
  "L2sqr_transpose_pipelined B x y d =
    (let single_query = vdupq_n_f32 (x 0);
         neon_base = (\<lambda>r. vld1q_f32 (ptr_add y (4 * r)));
         neon_diff = (\<lambda>r. vsubq_f32 (neon_base r) single_query);
         neon_res =
           (if d = 1 then (\<lambda>r. vmulq_f32 (neon_diff r) (neon_diff r))
            else
              let single_query = vdupq_n_f32 (x 1);
                  neon_base = (\<lambda>r. vld1q_f32 (ptr_add y (B + 4 * r)));
                  neon_res = (\<lambda>r. vmulq_f32 (neon_diff r) (neon_diff r));
                  (i, single_query, neon_base, neon_res) =
                    loop_lt 2 d 1
                      (\<lambda>i (single_query, neon_base, neon_res).
                         let neon_diff = (\<lambda>r. vsubq_f32 (neon_base r) single_query);
                             single_query = vdupq_n_f32 (x i);
                             neon_base = (\<lambda>r. vld1q_f32 (ptr_add y (B * i + 4 * r)));
                             neon_res = (\<lambda>r. vmlaq_f32 (neon_res r) (neon_diff r) (neon_diff r))
                         in (single_query, neon_base, neon_res))
                      (single_query, neon_base, neon_res);
                  neon_diff = (\<lambda>r. vsubq_f32 (neon_base r) single_query)
              in (\<lambda>r. vmlaq_f32 (neon_res r) (neon_diff r) (neon_diff r)))
     in regs_floats neon_res)"

definition krl_L2sqr_continuous_transpose_medium_kernel :: "fptr \<Rightarrow> fptr \<Rightarrow> nat \<Rightarrow> (nat \<Rightarrow> real)" where
  "krl_L2sqr_continuous_transpose_medium_kernel x y d = L2sqr_transpose_pipelined 32 x y d"

definition krl_L2sqr_continuous_transpose_mini_kernel :: "fptr \<Rightarrow> fptr \<Rightarrow> nat \<Rightarrow> (nat \<Rightarrow> real)" where
  "krl_L2sqr_continuous_transpose_mini_kernel x y d = L2sqr_transpose_pipelined 16 x y d"

text \<open>
  The body shared by the three inner-product kernels
  \<^verbatim>\<open>krl_inner_product_continuous_transpose_{large,medium,mini}_kernel\<close>
  (\<open>B = 64, 32, 16\<close>).
\<close>

definition ip_transpose :: "nat \<Rightarrow> fptr \<Rightarrow> fptr \<Rightarrow> nat \<Rightarrow> (nat \<Rightarrow> real)" where
  "ip_transpose B x y d =
    (let single_query = vdupq_n_f32 (x 0);
         neon_res = (\<lambda>r. vmulq_f32 (vld1q_f32 (ptr_add y (4 * r))) single_query);
         (i, neon_res) =
           loop_lt 1 d 1
             (\<lambda>i neon_res.
                let single_query = vdupq_n_f32 (x i)
                in (\<lambda>r. vmlaq_f32 (neon_res r) (vld1q_f32 (ptr_add y (B * i + 4 * r))) single_query))
             neon_res
     in regs_floats neon_res)"

definition krl_inner_product_continuous_transpose_large_kernel :: "fptr \<Rightarrow> fptr \<Rightarrow> nat \<Rightarrow> (nat \<Rightarrow> real)" where
  "krl_inner_product_continuous_transpose_large_kernel x y d = ip_transpose 64 x y d"

definition krl_inner_product_continuous_transpose_medium_kernel :: "fptr \<Rightarrow> fptr \<Rightarrow> nat \<Rightarrow> (nat \<Rightarrow> real)" where
  "krl_inner_product_continuous_transpose_medium_kernel x y d = ip_transpose 32 x y d"

definition krl_inner_product_continuous_transpose_mini_kernel :: "fptr \<Rightarrow> fptr \<Rightarrow> nat \<Rightarrow> (nat \<Rightarrow> real)" where
  "krl_inner_product_continuous_transpose_mini_kernel x y d = ip_transpose 16 x y d"

section \<open>Handle entry points\<close>

text \<open>
  The fields of \<^verbatim>\<open>KRLDistanceHandle\<close> that the distance functions read. The
  quantisation fields and the byte counts are not read by them.
\<close>

record KRLDistanceHandle =
  kdh_metric_type :: int
  kdh_data_bits :: nat
  kdh_M :: nat
  kdh_blocksize :: nat
  kdh_d :: nat
  kdh_ny :: nat
  kdh_ceil_ny :: nat
  kdh_transposed_codes :: fptr

definition sizeof_float :: nat where
  "sizeof_float = 4"

text \<open>
  \<^verbatim>\<open>SafeMemory::CheckAndMemcpy(dest, destBufferSize, src, srcBufferSize)\<close>, the sizes in
  bytes; the copy of \<^verbatim>\<open>srcBufferSize\<close> bytes writes \<^verbatim>\<open>srcBufferSize / sizeof(float)\<close>
  floats.
\<close>

definition CheckAndMemcpy ::
  "outbuf \<Rightarrow> nat option \<Rightarrow> nat \<Rightarrow> (nat \<Rightarrow> real) option \<Rightarrow> nat \<Rightarrow> int \<times> outbuf" where
  "CheckAndMemcpy buf dest destBufferSize src srcBufferSize =
    (if srcBufferSize > destBufferSize then (- 1, buf)
     else if dest = None \<or> src = None then (- 1, buf)
     else (0, store_block buf (the dest) (srcBufferSize div sizeof_float) (the src)))"

text \<open>
  One iteration of the loop over the queries when \<^verbatim>\<open>left\<close> is not zero, up to the
  point where the pointers are advanced: the full blocks, the extra block into
  \<^verbatim>\<open>distance_tmp_buffer\<close>, the capacity check and the bounded copy. The subtraction
  \<^verbatim>\<open>dis_size - (m * ny + i)\<close> and the two byte counts are \<^verbatim>\<open>size_t\<close> arithmetic.
  The result is the status (\<open>SUCCESS\<close> to go on with the next query) and the memory.
\<close>

definition handle_query_left ::
  "nat \<Rightarrow> (fptr \<Rightarrow> fptr \<Rightarrow> nat \<Rightarrow> (nat \<Rightarrow> real)) \<Rightarrow> nat \<Rightarrow> nat \<Rightarrow> nat \<Rightarrow> nat \<Rightarrow> nat
     \<Rightarrow> nat \<Rightarrow> fptr \<Rightarrow> fptr \<Rightarrow> outbuf \<Rightarrow> int \<times> outbuf" where
  "handle_query_left B kern ny dimn left dis_size m dis x y buf =
    (let (i, buf) =
           loop_fit 0 ny B (\<lambda>i buf. store_block buf (dis + i) B (kern x (ptr_add y (i * dimn)) dimn)) buf;
         distance_tmp_buffer = kern x (ptr_add y (i * dimn)) dimn;
         remaining_dis_size = size_t (dis_size + 2 ^ 64 - size_t (m * ny + i))
     in if remaining_dis_size < left then (UNSAFEMEM, buf)
        else
          (case CheckAndMemcpy buf (Some (dis + i)) (size_t (remaining_dis_size * sizeof_float))
                  (Some distance_tmp_buffer) (size_t (left * sizeof_float)) of
             (ret, buf) \<Rightarrow> if ret \<noteq> 0 then (UNSAFEMEM, buf) else (SUCCESS, buf)))"

text \<open>
  \<^verbatim>\<open>for (size_t m = 0; m < M; m++)\<close> of the remainder path, with its two early
  returns; \<^verbatim>\<open>dis += ny; x += dim; y += ceil_ny * dim\<close> after each query.
\<close>

function handle_left_loop ::
  "nat \<Rightarrow> (fptr \<Rightarrow> fptr \<Rightarrow> nat \<Rightarrow> (nat \<Rightarrow> real)) \<Rightarrow> KRLDistanceHandle \<Rightarrow> nat \<Rightarrow> nat \<Rightarrow> nat
     \<Rightarrow> nat \<Rightarrow> fptr \<Rightarrow> fptr \<Rightarrow> outbuf \<Rightarrow> int \<times> outbuf" where
  "handle_left_loop B kern kdh left dis_size m dis x y buf =
    (if m < kdh_M kdh then
       (case handle_query_left B kern (kdh_ny kdh) (kdh_d kdh) left dis_size m dis x y buf of
          (ret, buf') \<Rightarrow>
            if ret \<noteq> SUCCESS then (ret, buf')
            else handle_left_loop B kern kdh left dis_size (m + 1) (dis + kdh_ny kdh)
                   (ptr_add x (kdh_d kdh)) (ptr_add y (kdh_ceil_ny kdh * kdh_d kdh)) buf')
     else (SUCCESS, buf))"
  by pat_completeness auto
termination
  by (relation "measure (\<lambda>(B, kern, kdh, left, dis_size, m, dis, x, y, buf). kdh_M kdh - m)") auto

declare handle_left_loop.simps [simp del]

text \<open>The loop over the queries when \<^verbatim>\<open>left\<close> is zero: full blocks only.\<close>

definition handle_full_loop ::
  "nat \<Rightarrow> (fptr \<Rightarrow> fptr \<Rightarrow> nat \<Rightarrow> (nat \<Rightarrow> real)) \<Rightarrow> KRLDistanceHandle \<Rightarrow> nat \<Rightarrow> fptr \<Rightarrow> fptr
     \<Rightarrow> outbuf \<Rightarrow> outbuf" where
  "handle_full_loop B kern kdh dis x y buf =
    (case snd (loop_lt 0 (kdh_M kdh) 1
                 (\<lambda>m (dis, x, y, buf).
                    (dis + kdh_ny kdh, ptr_add x (kdh_d kdh), ptr_add y (kdh_ceil_ny kdh * kdh_d kdh),
                     snd (loop_lt 0 (kdh_ny kdh) B
                            (\<lambda>i buf. store_block buf (dis + i) B
                                        (kern x (ptr_add y (i * kdh_d kdh)) (kdh_d kdh)))
                            buf)))
                 (dis, x, y, buf)) of
       (dis, x, y, buf) \<Rightarrow> buf)"

text \<open>One \<^verbatim>\<open>case\<close> of the switch on the block size.\<close>

definition handle_case ::
  "nat \<Rightarrow> (fptr \<Rightarrow> fptr \<Rightarrow> nat \<Rightarrow> (nat \<Rightarrow> real)) \<Rightarrow> KRLDistanceHandle \<Rightarrow> nat \<Rightarrow> nat \<Rightarrow> nat
     \<Rightarrow> fptr \<Rightarrow> fptr \<Rightarrow> outbuf \<Rightarrow> int \<times> outbuf" where
  "handle_case B kern kdh left dis_size dis x y buf =
    (if left \<noteq> 0 then handle_left_loop B kern kdh left dis_size 0 dis x y buf
     else (SUCCESS, handle_full_loop B kern kdh dis x y buf))"

text \<open>
  \<^verbatim>\<open>krl_L2sqr_ny_with_handle\<close> and \<^verbatim>\<open>krl_inner_product_ny_with_handle\<close> are the same
  text up to the three kernels they call. The products of the validation are
  \<^verbatim>\<open>size_t\<close> products; \<^verbatim>\<open>blocksize - 1\<close> is a \<^verbatim>\<open>size_t\<close> subtraction. The switch has
  the cases 16, 32 and 64 and no default: any other block size leaves it at once and
  reaches \<^verbatim>\<open>return SUCCESS\<close>.
\<close>

definition ny_with_handle ::
  "(fptr \<Rightarrow> fptr \<Rightarrow> nat \<Rightarrow> (nat \<Rightarrow> real)) \<Rightarrow> (fptr \<Rightarrow> fptr \<Rightarrow> nat \<Rightarrow> (nat \<Rightarrow> real))
     \<Rightarrow> (fptr \<Rightarrow> fptr \<Rightarrow> nat \<Rightarrow> (nat \<Rightarrow> real))
     \<Rightarrow> KRLDistanceHandle option \<Rightarrow> nat option \<Rightarrow> fptr option \<Rightarrow> nat \<Rightarrow> nat \<Rightarrow> outbuf \<Rightarrow> int \<times> outbuf" where
  "ny_with_handle mini_kernel medium_kernel large_kernel kdh dis x dis_size x_size buf =
    (if kdh = None \<or> dis = None \<or> x = None then (INVALPOINTER, buf)
     else
       let ny = kdh_ny (the kdh);
           dimn = kdh_d (the kdh);
           M = kdh_M (the kdh)
       in if dis_size < size_t (M * ny) \<or> x_size < size_t (dimn * M) then (INVALPARAM, buf)
          else if kdh_data_bits (the kdh) = 32 then
            let y = kdh_transposed_codes (the kdh);
                left = ny AND size_t (kdh_blocksize (the kdh) + 2 ^ 64 - 1)
            in if kdh_blocksize (the kdh) = 16 then
                 handle_case 16 mini_kernel (the kdh) left dis_size (the dis) (the x) y buf
               else if kdh_blocksize (the kdh) = 32 then
                 handle_case 32 medium_kernel (the kdh) left dis_size (the dis) (the x) y buf
               else if kdh_blocksize (the kdh) = 64 then
                 handle_case 64 large_kernel (the kdh) left dis_size (the dis) (the x) y buf
               else (SUCCESS, buf)
          else if kdh_data_bits (the kdh) = 16 then (INVALPARAM, buf)
          else (INVALPARAM, buf))"

definition krl_L2sqr_ny_with_handle ::
  "KRLDistanceHandle option \<Rightarrow> nat option \<Rightarrow> fptr option \<Rightarrow> nat \<Rightarrow> nat \<Rightarrow> outbuf \<Rightarrow> int \<times> outbuf" where
  "krl_L2sqr_ny_with_handle =
     ny_with_handle krl_L2sqr_continuous_transpose_mini_kernel
       krl_L2sqr_continuous_transpose_medium_kernel krl_L2sqr_continuous_transpose_large_kernel"

definition krl_inner_product_ny_with_handle ::
  "KRLDistanceHandle option \<Rightarrow> nat option \<Rightarrow> fptr option \<Rightarrow> nat \<Rightarrow> nat \<Rightarrow> outbuf \<Rightarrow> int \<times> outbuf" where
  "krl_inner_product_ny_with_handle =
     ny_with_handle krl_inner_product_continuous_transpose_mini_kernel
       krl_inner_product_continuous_transpose_medium_kernel
       krl_inner_product_continuous_transpose_large_kernel"

section \<open>The kernels with rounded arithmetic\<close>

text \<open>
  The second reading of the arithmetic. A \<^verbatim>\<open>float\<close> operation delivers the exact result
  rounded to a \<^verbatim>\<open>float\<close>; \<open>rnd\<close> is the rounding. Every definition \<open>f_rnd\<close> of this
  section is the definition \<open>f\<close> above, from the same source text, with \<open>rnd\<close> applied
  after each addition, subtraction and multiplication, in the order in which the
  source writes them. Loads, stores, \<^verbatim>\<open>vdupq_n_f32\<close>, the loops and the validation
  are the same. With the identity for \<open>rnd\<close> the two readings coincide.

  \<^item> \<^verbatim>\<open>vmlaq_f32(a, b, c)\<close> is the multiply-accumulate that is not fused: the product
    is rounded, then the sum.
  \<^item> \<^verbatim>\<open>vaddvq_f32\<close> adds the lanes pairwise, \<open>(a0 + a1) + (a2 + a3)\<close>.
  \<^item> \<^verbatim>\<open>res += tmp * tmp\<close> on scalars rounds the product, then the sum.
  \<^item> The kernels are compiled with \<^verbatim>\<open>associative-math\<close>, which lets the compiler add
    in another order; the definitions keep the order of the source.
\<close>

type_synonym rounding = "real \<Rightarrow> real"

named_theorems rnd_exact \<open>a rounded kernel at the identity rounding\<close>

subsection \<open>Rounding to binary32\<close>


fun ulp_search :: "nat \<Rightarrow> real \<Rightarrow> real \<Rightarrow> real" where
  "ulp_search 0 a q = q"
| "ulp_search (Suc n) a q =
     (if 2 ^ 24 * q \<le> a then ulp_search n a (2 * q)
      else if a < 2 ^ 23 * q \<and> 1 / 2 ^ 149 < q then ulp_search n a (q / 2)
      else q)"



subsection \<open>Intrinsics and register steps\<close>

fun vsubq_f32_rnd :: "rounding \<Rightarrow> float32x4_t \<Rightarrow> float32x4_t \<Rightarrow> float32x4_t" where
  "vsubq_f32_rnd rnd (F4 a0 a1 a2 a3) (F4 b0 b1 b2 b3) =
     F4 (rnd (a0 - b0)) (rnd (a1 - b1)) (rnd (a2 - b2)) (rnd (a3 - b3))"

fun vaddq_f32_rnd :: "rounding \<Rightarrow> float32x4_t \<Rightarrow> float32x4_t \<Rightarrow> float32x4_t" where
  "vaddq_f32_rnd rnd (F4 a0 a1 a2 a3) (F4 b0 b1 b2 b3) =
     F4 (rnd (a0 + b0)) (rnd (a1 + b1)) (rnd (a2 + b2)) (rnd (a3 + b3))"

fun vmulq_f32_rnd :: "rounding \<Rightarrow> float32x4_t \<Rightarrow> float32x4_t \<Rightarrow> float32x4_t" where
  "vmulq_f32_rnd rnd (F4 a0 a1 a2 a3) (F4 b0 b1 b2 b3) =
     F4 (rnd (a0 * b0)) (rnd (a1 * b1)) (rnd (a2 * b2)) (rnd (a3 * b3))"

fun vmlaq_f32_rnd :: "rounding \<Rightarrow> float32x4_t \<Rightarrow> float32x4_t \<Rightarrow> float32x4_t \<Rightarrow> float32x4_t" where
  "vmlaq_f32_rnd rnd (F4 a0 a1 a2 a3) (F4 b0 b1 b2 b3) (F4 c0 c1 c2 c3) =
     F4 (rnd (a0 + rnd (b0 * c0))) (rnd (a1 + rnd (b1 * c1)))
        (rnd (a2 + rnd (b2 * c2))) (rnd (a3 + rnd (b3 * c3)))"

fun vaddvq_f32_rnd :: "rounding \<Rightarrow> float32x4_t \<Rightarrow> real" where
  "vaddvq_f32_rnd rnd (F4 a0 a1 a2 a3) = rnd (rnd (a0 + a1) + rnd (a2 + a3))"

definition l2_mul_xy_rnd ::
  "rounding \<Rightarrow> fptr \<Rightarrow> fptr \<Rightarrow> nat \<Rightarrow> float32x4_t" where
  "l2_mul_xy_rnd rnd x y i =
     (let q = vsubq_f32_rnd rnd (vld1q_f32 (ptr_add x i)) (vld1q_f32 (ptr_add y i)) in vmulq_f32_rnd rnd q q)"

definition l2_mla_xy_rnd ::
  "rounding \<Rightarrow> fptr \<Rightarrow> fptr \<Rightarrow> nat \<Rightarrow> float32x4_t \<Rightarrow> float32x4_t" where
  "l2_mla_xy_rnd rnd x y i acc =
     (let q = vsubq_f32_rnd rnd (vld1q_f32 (ptr_add x i)) (vld1q_f32 (ptr_add y i)) in vmlaq_f32_rnd rnd acc q q)"

definition l2_mul_yx_rnd ::
  "rounding \<Rightarrow> fptr \<Rightarrow> fptr \<Rightarrow> nat \<Rightarrow> float32x4_t" where
  "l2_mul_yx_rnd rnd x y i =
     (let b = vsubq_f32_rnd rnd (vld1q_f32 (ptr_add y i)) (vld1q_f32 (ptr_add x i)) in vmulq_f32_rnd rnd b b)"

definition l2_mla_yx_rnd ::
  "rounding \<Rightarrow> fptr \<Rightarrow> fptr \<Rightarrow> nat \<Rightarrow> float32x4_t \<Rightarrow> float32x4_t" where
  "l2_mla_yx_rnd rnd x y i acc =
     (let b = vsubq_f32_rnd rnd (vld1q_f32 (ptr_add y i)) (vld1q_f32 (ptr_add x i)) in vmlaq_f32_rnd rnd acc b b)"

definition ip_mul_xy_rnd ::
  "rounding \<Rightarrow> fptr \<Rightarrow> fptr \<Rightarrow> nat \<Rightarrow> float32x4_t" where
  "ip_mul_xy_rnd rnd x y i = vmulq_f32_rnd rnd (vld1q_f32 (ptr_add x i)) (vld1q_f32 (ptr_add y i))"

definition ip_mla_xy_rnd ::
  "rounding \<Rightarrow> fptr \<Rightarrow> fptr \<Rightarrow> nat \<Rightarrow> float32x4_t \<Rightarrow> float32x4_t" where
  "ip_mla_xy_rnd rnd x y i acc = vmlaq_f32_rnd rnd acc (vld1q_f32 (ptr_add x i)) (vld1q_f32 (ptr_add y i))"

definition ip_mul_yx_rnd ::
  "rounding \<Rightarrow> fptr \<Rightarrow> fptr \<Rightarrow> nat \<Rightarrow> float32x4_t" where
  "ip_mul_yx_rnd rnd x y i = vmulq_f32_rnd rnd (vld1q_f32 (ptr_add y i)) (vld1q_f32 (ptr_add x i))"

definition ip_mla_yx_rnd ::
  "rounding \<Rightarrow> fptr \<Rightarrow> fptr \<Rightarrow> nat \<Rightarrow> float32x4_t \<Rightarrow> float32x4_t" where
  "ip_mla_yx_rnd rnd x y i acc = vmlaq_f32_rnd rnd acc (vld1q_f32 (ptr_add y i)) (vld1q_f32 (ptr_add x i))"

definition l2_scalar_loop_rnd ::
  "rounding \<Rightarrow> fptr \<Rightarrow> fptr \<Rightarrow> nat \<Rightarrow> nat \<Rightarrow> real \<Rightarrow> real" where
  "l2_scalar_loop_rnd rnd x y i d res =
     snd (loop_lt i d 1 (\<lambda>i res. let tmp = rnd (x i - y i) in rnd (res + rnd (tmp * tmp))) res)"

definition ip_scalar_loop_rnd ::
  "rounding \<Rightarrow> fptr \<Rightarrow> fptr \<Rightarrow> nat \<Rightarrow> nat \<Rightarrow> real \<Rightarrow> real" where
  "ip_scalar_loop_rnd rnd x y i d res =
     snd (loop_lt i d 1 (\<lambda>i res. let tmp = rnd (x i * y i) in rnd (res + tmp)) res)"

subsection \<open>Single-pair kernels\<close>

definition krl_L2sqr_res_rnd ::
  "rounding \<Rightarrow> fptr \<Rightarrow> fptr \<Rightarrow> nat \<Rightarrow> real" where
  "krl_L2sqr_res_rnd rnd x y d =
    (let (i, res) =
       (if d \<ge> 16 then
          let d8_0 = l2_mul_xy_rnd rnd x y 0;
              d8_1 = l2_mul_xy_rnd rnd x y 4;
              d8_2 = l2_mul_xy_rnd rnd x y 8;
              d8_3 = l2_mul_xy_rnd rnd x y 12;
              (i, d8_0, d8_1, d8_2, d8_3) =
                loop_le 16 (d - 16) 16
                  (\<lambda>i (d8_0, d8_1, d8_2, d8_3).
                     (l2_mla_xy_rnd rnd x y i d8_0, l2_mla_xy_rnd rnd x y (i + 4) d8_1,
                      l2_mla_xy_rnd rnd x y (i + 8) d8_2, l2_mla_xy_rnd rnd x y (i + 12) d8_3))
                  (d8_0, d8_1, d8_2, d8_3);
              (i, d8_0) = loop_le i (d - 4) 4 (l2_mla_xy_rnd rnd x y) d8_0;
              d8_0 = vaddq_f32_rnd rnd d8_0 d8_1;
              d8_2 = vaddq_f32_rnd rnd d8_2 d8_3;
              d8_0 = vaddq_f32_rnd rnd d8_0 d8_2
          in (i, vaddvq_f32_rnd rnd d8_0)
        else if d \<ge> 4 then
          let d8_0 = l2_mul_xy_rnd rnd x y 0;
              (i, d8_0) = loop_le 4 (d - 4) 4 (l2_mla_xy_rnd rnd x y) d8_0
          in (i, vaddvq_f32_rnd rnd d8_0)
        else (0, 0))
     in l2_scalar_loop_rnd rnd x y i d res)"

definition krl_L2sqr_rnd ::
  "rounding \<Rightarrow> fptr option \<Rightarrow> fptr option \<Rightarrow> nat \<Rightarrow> nat option \<Rightarrow> nat \<Rightarrow> outbuf \<Rightarrow> int \<times> outbuf" where
  "krl_L2sqr_rnd rnd x y d dis dis_size buf =
    (if d < 1 \<or> d > 65535 then (INVALPARAM, buf)
     else if x = None \<or> y = None \<or> dis = None \<or> dis_size < 1 then (INVALPOINTER, buf)
     else (SUCCESS, store_block buf (the dis) 1 (\<lambda>k. krl_L2sqr_res_rnd rnd (the x) (the y) d)))"

definition krl_ipdis_res_rnd ::
  "rounding \<Rightarrow> fptr \<Rightarrow> fptr \<Rightarrow> nat \<Rightarrow> real" where
  "krl_ipdis_res_rnd rnd x y d =
    (let (i, res) =
       (if d \<ge> 16 then
          let d8_0 = ip_mul_xy_rnd rnd x y 0;
              d8_1 = ip_mul_xy_rnd rnd x y 4;
              d8_2 = ip_mul_xy_rnd rnd x y 8;
              d8_3 = ip_mul_xy_rnd rnd x y 12;
              (i, d8_0, d8_1, d8_2, d8_3) =
                loop_le 16 (d - 16) 16
                  (\<lambda>i (d8_0, d8_1, d8_2, d8_3).
                     (ip_mla_xy_rnd rnd x y i d8_0, ip_mla_xy_rnd rnd x y (i + 4) d8_1,
                      ip_mla_xy_rnd rnd x y (i + 8) d8_2, ip_mla_xy_rnd rnd x y (i + 12) d8_3))
                  (d8_0, d8_1, d8_2, d8_3);
              d8_0 = vaddq_f32_rnd rnd d8_0 d8_1;
              d8_2 = vaddq_f32_rnd rnd d8_2 d8_3;
              d8_0 = vaddq_f32_rnd rnd d8_0 d8_2
          in (i, vaddvq_f32_rnd rnd d8_0)
        else (0, 0))
     in ip_scalar_loop_rnd rnd x y i d res)"

definition krl_ipdis_rnd ::
  "rounding \<Rightarrow> fptr option \<Rightarrow> fptr option \<Rightarrow> nat \<Rightarrow> nat option \<Rightarrow> nat \<Rightarrow> outbuf \<Rightarrow> int \<times> outbuf" where
  "krl_ipdis_rnd rnd x y d dis dis_size buf =
    (if d < 1 \<or> d > 65535 then (INVALPARAM, buf)
     else if x = None \<or> y = None \<or> dis = None \<or> dis_size < 1 then (INVALPOINTER, buf)
     else (SUCCESS, store_block buf (the dis) 1 (\<lambda>k. krl_ipdis_res_rnd rnd (the x) (the y) d)))"

subsection \<open>Dense kernels for several base vectors and the dense entry points\<close>

definition l2_regs_mul_rnd ::
  "rounding \<Rightarrow> fptr \<Rightarrow> (nat \<Rightarrow> fptr) \<Rightarrow> nat \<Rightarrow> regs" where
  "l2_regs_mul_rnd rnd x ys i = (\<lambda>k. l2_mul_yx_rnd rnd x (ys k) i)"

definition l2_regs_mla_rnd ::
  "rounding \<Rightarrow> fptr \<Rightarrow> (nat \<Rightarrow> fptr) \<Rightarrow> nat \<Rightarrow> regs \<Rightarrow> regs" where
  "l2_regs_mla_rnd rnd x ys i res = (\<lambda>k. l2_mla_yx_rnd rnd x (ys k) i (res k))"

definition ip_regs_mul_rnd ::
  "rounding \<Rightarrow> fptr \<Rightarrow> (nat \<Rightarrow> fptr) \<Rightarrow> nat \<Rightarrow> regs" where
  "ip_regs_mul_rnd rnd x ys i = (\<lambda>k. ip_mul_yx_rnd rnd x (ys k) i)"

definition ip_regs_mla_rnd ::
  "rounding \<Rightarrow> fptr \<Rightarrow> (nat \<Rightarrow> fptr) \<Rightarrow> nat \<Rightarrow> regs \<Rightarrow> regs" where
  "ip_regs_mla_rnd rnd x ys i res = (\<lambda>k. ip_mla_yx_rnd rnd x (ys k) i (res k))"

definition l2_regs_tail_rnd ::
  "rounding \<Rightarrow> fptr \<Rightarrow> (nat \<Rightarrow> fptr) \<Rightarrow> nat \<Rightarrow> nat \<Rightarrow> (nat \<Rightarrow> real) \<Rightarrow> (nat \<Rightarrow> real)" where
  "l2_regs_tail_rnd rnd x ys i d dis =
     (if i < d then
        let dd = (\<lambda>k. let q = rnd (x i - ys k i) in rnd (q * q));
            (i, dd) =
              loop_lt (i + 1) d 1
                (\<lambda>i dd. (\<lambda>k. let q = rnd (x i - ys k i) in rnd (dd k + rnd (q * q)))) dd
        in (\<lambda>k. rnd (dis k + dd k))
      else dis)"

definition ip_regs_tail_rnd ::
  "rounding \<Rightarrow> fptr \<Rightarrow> (nat \<Rightarrow> fptr) \<Rightarrow> nat \<Rightarrow> nat \<Rightarrow> (nat \<Rightarrow> real) \<Rightarrow> (nat \<Rightarrow> real)" where
  "ip_regs_tail_rnd rnd x ys i d dis =
     (if i < d then
        let dd = (\<lambda>k. rnd (x i * ys k i));
            (i, dd) = loop_lt (i + 1) d 1 (\<lambda>i dd. (\<lambda>k. rnd (dd k + rnd (x i * ys k i)))) dd
        in (\<lambda>k. rnd (dis k + dd k))
      else dis)"

definition L2sqr_regs_single_rnd ::
  "rounding \<Rightarrow> fptr \<Rightarrow> (nat \<Rightarrow> fptr) \<Rightarrow> nat \<Rightarrow> (nat \<Rightarrow> real)" where
  "L2sqr_regs_single_rnd rnd x ys d =
    (let (i, dis) =
       (if d \<ge> 4 then
          let neon_res = l2_regs_mul_rnd rnd x ys 0;
              (i, neon_res) = loop_le 4 (d - 4) 4 (l2_regs_mla_rnd rnd x ys) neon_res
          in (i, (\<lambda>k. vaddvq_f32_rnd rnd (neon_res k)))
        else (0, (\<lambda>k. 0)))
     in l2_regs_tail_rnd rnd x ys i d dis)"

definition L2sqr_batch2_res_rnd ::
  "rounding \<Rightarrow> fptr \<Rightarrow> fptr \<Rightarrow> nat \<Rightarrow> real \<times> real" where
  "L2sqr_batch2_res_rnd rnd x y d =
    (let (i, dis0, dis1) =
       (if d \<ge> 8 then
          let d0_0 = l2_mul_xy_rnd rnd x y 0;
              d0_1 = l2_mul_xy_rnd rnd x y 4;
              d1_0 = l2_mul_xy_rnd rnd x (ptr_add y d) 0;
              d1_1 = l2_mul_xy_rnd rnd x (ptr_add y d) 4;
              (i, d0_0, d0_1, d1_0, d1_1) =
                loop_le 8 (d - 8) 8
                  (\<lambda>i (d0_0, d0_1, d1_0, d1_1).
                     (l2_mla_xy_rnd rnd x y i d0_0, l2_mla_xy_rnd rnd x y (i + 4) d0_1,
                      l2_mla_xy_rnd rnd x (ptr_add y d) i d1_0, l2_mla_xy_rnd rnd x (ptr_add y d) (i + 4) d1_1))
                  (d0_0, d0_1, d1_0, d1_1);
              d0_0 = vaddq_f32_rnd rnd d0_0 d0_1;
              d1_0 = vaddq_f32_rnd rnd d1_0 d1_1
          in (i, vaddvq_f32_rnd rnd d0_0, vaddvq_f32_rnd rnd d1_0)
        else (0, 0, 0))
     in snd (loop_lt i d 1
               (\<lambda>i (dis0, dis1).
                  let tmp0 = rnd (x i - y i); tmp1 = rnd (x i - y (d + i))
                  in (rnd (dis0 + rnd (tmp0 * tmp0)), rnd (dis1 + rnd (tmp1 * tmp1))))
               (dis0, dis1)))"

definition ip_regs_single_rnd ::
  "rounding \<Rightarrow> fptr \<Rightarrow> (nat \<Rightarrow> fptr) \<Rightarrow> nat \<Rightarrow> (nat \<Rightarrow> real)" where
  "ip_regs_single_rnd rnd x ys d =
    (let (i, dis) =
       (if d \<ge> 4 then
          let neon_res = ip_regs_mul_rnd rnd x ys 0;
              (i, neon_res) = loop_le 4 (d - 4) 4 (ip_regs_mla_rnd rnd x ys) neon_res
          in (i, (\<lambda>k. vaddvq_f32_rnd rnd (neon_res k)))
        else (0, (\<lambda>k. 0)))
     in ip_regs_tail_rnd rnd x ys i d dis)"

definition ip_idx_batch2_res_rnd ::
  "rounding \<Rightarrow> fptr \<Rightarrow> fptr \<Rightarrow> fptr \<Rightarrow> nat \<Rightarrow> real \<times> real" where
  "ip_idx_batch2_res_rnd rnd x y0 y1 d =
    (let (i, dis0, dis1) =
       (if d \<ge> 8 then
          let d0_0 = ip_mul_xy_rnd rnd x y0 0;
              d0_1 = ip_mul_xy_rnd rnd x y0 4;
              d1_0 = ip_mul_xy_rnd rnd x y1 0;
              d1_1 = ip_mul_xy_rnd rnd x y1 4;
              (i, d0_0, d0_1, d1_0, d1_1) =
                loop_le 8 (d - 8) 8
                  (\<lambda>i (d0_0, d0_1, d1_0, d1_1).
                     (ip_mla_xy_rnd rnd x y0 i d0_0, ip_mla_xy_rnd rnd x y0 (i + 4) d0_1,
                      ip_mla_xy_rnd rnd x y1 i d1_0, ip_mla_xy_rnd rnd x y1 (i + 4) d1_1))
                  (d0_0, d0_1, d1_0, d1_1);
              d0_0 = vaddq_f32_rnd rnd d0_0 d0_1;
              d1_0 = vaddq_f32_rnd rnd d1_0 d1_1
          in (i, vaddvq_f32_rnd rnd d0_0, vaddvq_f32_rnd rnd d1_0)
        else (0, 0, 0))
     in snd (loop_lt i d 1
               (\<lambda>i (dis0, dis1).
                  let tmp0 = rnd (x i * y0 i); tmp1 = rnd (x i * y1 i)
                  in (rnd (dis0 + tmp0), rnd (dis1 + tmp1)))
               (dis0, dis1)))"

definition ip_batch2_res_rnd ::
  "rounding \<Rightarrow> fptr \<Rightarrow> fptr \<Rightarrow> nat \<Rightarrow> real \<times> real" where
  "ip_batch2_res_rnd rnd x y d = ip_idx_batch2_res_rnd rnd x y (ptr_add y d) d"

definition krl_L2sqr_batch2_rnd ::
  "rounding \<Rightarrow> fptr \<Rightarrow> fptr \<Rightarrow> nat \<Rightarrow> nat \<Rightarrow> outbuf \<Rightarrow> outbuf" where
  "krl_L2sqr_batch2_rnd rnd x y d dis buf = store_block buf dis 2 (pair_vals (L2sqr_batch2_res_rnd rnd x y d))"

definition krl_L2sqr_batch4_rnd ::
  "rounding \<Rightarrow> fptr \<Rightarrow> fptr \<Rightarrow> nat \<Rightarrow> nat \<Rightarrow> outbuf \<Rightarrow> outbuf" where
  "krl_L2sqr_batch4_rnd rnd x y d dis buf = store_block buf dis 4 (L2sqr_regs_single_rnd rnd x (\<lambda>k. ptr_add y (k * d)) d)"

definition krl_L2sqr_batch8_rnd ::
  "rounding \<Rightarrow> fptr \<Rightarrow> fptr \<Rightarrow> nat \<Rightarrow> nat \<Rightarrow> outbuf \<Rightarrow> outbuf" where
  "krl_L2sqr_batch8_rnd rnd x y d dis buf = store_block buf dis 8 (L2sqr_regs_single_rnd rnd x (\<lambda>k. ptr_add y (k * d)) d)"

definition krl_L2sqr_batch16_rnd ::
  "rounding \<Rightarrow> fptr \<Rightarrow> fptr \<Rightarrow> nat \<Rightarrow> nat \<Rightarrow> outbuf \<Rightarrow> outbuf" where
  "krl_L2sqr_batch16_rnd rnd x y d dis buf = store_block buf dis 16 (L2sqr_regs_single_rnd rnd x (\<lambda>k. ptr_add y (k * d)) d)"

definition krl_L2sqr_batch24_rnd ::
  "rounding \<Rightarrow> fptr \<Rightarrow> fptr \<Rightarrow> nat \<Rightarrow> nat \<Rightarrow> outbuf \<Rightarrow> outbuf" where
  "krl_L2sqr_batch24_rnd rnd x y d dis buf = store_block buf dis 24 (L2sqr_regs_single_rnd rnd x (\<lambda>k. ptr_add y (k * d)) d)"

definition krl_inner_product_batch2_rnd ::
  "rounding \<Rightarrow> fptr \<Rightarrow> fptr \<Rightarrow> nat \<Rightarrow> nat \<Rightarrow> outbuf \<Rightarrow> outbuf" where
  "krl_inner_product_batch2_rnd rnd x y d dis buf = store_block buf dis 2 (pair_vals (ip_batch2_res_rnd rnd x y d))"

definition krl_inner_product_batch4_rnd ::
  "rounding \<Rightarrow> fptr \<Rightarrow> fptr \<Rightarrow> nat \<Rightarrow> nat \<Rightarrow> outbuf \<Rightarrow> outbuf" where
  "krl_inner_product_batch4_rnd rnd x y d dis buf = store_block buf dis 4 (ip_regs_single_rnd rnd x (\<lambda>k. ptr_add y (k * d)) d)"

definition krl_inner_product_batch8_rnd ::
  "rounding \<Rightarrow> fptr \<Rightarrow> fptr \<Rightarrow> nat \<Rightarrow> nat \<Rightarrow> outbuf \<Rightarrow> outbuf" where
  "krl_inner_product_batch8_rnd rnd x y d dis buf = store_block buf dis 8 (ip_regs_single_rnd rnd x (\<lambda>k. ptr_add y (k * d)) d)"

definition krl_inner_product_batch16_rnd ::
  "rounding \<Rightarrow> fptr \<Rightarrow> fptr \<Rightarrow> nat \<Rightarrow> nat \<Rightarrow> outbuf \<Rightarrow> outbuf" where
  "krl_inner_product_batch16_rnd rnd x y d dis buf = store_block buf dis 16 (ip_regs_single_rnd rnd x (\<lambda>k. ptr_add y (k * d)) d)"

definition krl_L2sqr_ny_rnd ::
  "rounding \<Rightarrow> nat option \<Rightarrow> fptr option \<Rightarrow> fptr option \<Rightarrow> nat \<Rightarrow> nat \<Rightarrow> nat \<Rightarrow> outbuf \<Rightarrow> int \<times> outbuf" where
  "krl_L2sqr_ny_rnd rnd dis x y ny d dis_size buf =
    (if d < 1 \<or> d > 65535 \<or> ny < 1 \<or> ny > 2 ^ 30 then (INVALPARAM, buf)
     else if x = None \<or> y = None \<or> dis = None \<or> dis_size < ny then (INVALPOINTER, buf)
     else
       let (i, buf) =
             loop_fit 0 ny 24
               (\<lambda>i buf. krl_L2sqr_batch24_rnd rnd (the x) (ptr_add (the y) (i * d)) d (the dis + i) buf) buf;
           (i, buf) =
             (if i + 16 \<le> ny then
                (i + 16, krl_L2sqr_batch16_rnd rnd (the x) (ptr_add (the y) (i * d)) d (the dis + i) buf)
              else if i + 8 \<le> ny then
                (i + 8, krl_L2sqr_batch8_rnd rnd (the x) (ptr_add (the y) (i * d)) d (the dis + i) buf)
              else (i, buf));
           (i, buf) =
             (if ny AND 4 \<noteq> 0 then
                (i + 4, krl_L2sqr_batch4_rnd rnd (the x) (ptr_add (the y) (i * d)) d (the dis + i) buf)
              else (i, buf));
           buf =
             (if ny AND 2 \<noteq> 0 then
                krl_L2sqr_batch2_rnd rnd (the x) (ptr_add (the y) (i * d)) d (the dis + i) buf
              else buf);
           buf =
             (if ny AND 1 \<noteq> 0 then
                snd (krl_L2sqr_rnd rnd x (Some (ptr_add (the y) ((ny - 1) * d))) d (Some (the dis + (ny - 1))) 1 buf)
              else buf)
       in (SUCCESS, buf))"

definition krl_inner_product_ny_rnd ::
  "rounding \<Rightarrow> nat option \<Rightarrow> fptr option \<Rightarrow> fptr option \<Rightarrow> nat \<Rightarrow> nat \<Rightarrow> nat \<Rightarrow> outbuf \<Rightarrow> int \<times> outbuf" where
  "krl_inner_product_ny_rnd rnd dis x y ny d dis_size buf =
    (if d < 1 \<or> d > 65535 \<or> ny < 1 \<or> ny > 2 ^ 30 then (INVALPARAM, buf)
     else if x = None \<or> y = None \<or> dis = None \<or> dis_size < ny then (INVALPOINTER, buf)
     else
       let (i, buf) =
             loop_fit 0 ny 16
               (\<lambda>i buf. krl_inner_product_batch16_rnd rnd (the x) (ptr_add (the y) (i * d)) d (the dis + i) buf) buf;
           (i, buf) =
             (if ny AND 8 \<noteq> 0 then
                (i + 8, krl_inner_product_batch8_rnd rnd (the x) (ptr_add (the y) (i * d)) d (the dis + i) buf)
              else (i, buf));
           (i, buf) =
             (if ny AND 4 \<noteq> 0 then
                (i + 4, krl_inner_product_batch4_rnd rnd (the x) (ptr_add (the y) (i * d)) d (the dis + i) buf)
              else (i, buf));
           buf =
             (if ny AND 2 \<noteq> 0 then
                krl_inner_product_batch2_rnd rnd (the x) (ptr_add (the y) (i * d)) d (the dis + i) buf
              else buf);
           buf =
             (if ny AND 1 \<noteq> 0 then
                snd (krl_ipdis_rnd rnd x (Some (ptr_add (the y) ((ny - 1) * d))) d (Some (the dis + (ny - 1))) 1 buf)
              else buf)
       in (SUCCESS, buf))"

subsection \<open>Transposed-block kernels and the handle entry points\<close>

definition krl_L2sqr_continuous_transpose_large_kernel_rnd ::
  "rounding \<Rightarrow> fptr \<Rightarrow> fptr \<Rightarrow> nat \<Rightarrow> (nat \<Rightarrow> real)" where
  "krl_L2sqr_continuous_transpose_large_kernel_rnd rnd x y d =
    (let single_query = vdupq_n_f32 (x 0);
         neon_res = (\<lambda>r. let neon_base = vsubq_f32_rnd rnd (vld1q_f32 (ptr_add y (4 * r))) single_query
                         in vmulq_f32_rnd rnd neon_base neon_base);
         (i, neon_res) =
           loop_lt 1 d 1
             (\<lambda>i neon_res.
                let single_query = vdupq_n_f32 (x i)
                in (\<lambda>r. let neon_base = vsubq_f32_rnd rnd (vld1q_f32 (ptr_add y (64 * i + 4 * r))) single_query
                        in vmlaq_f32_rnd rnd (neon_res r) neon_base neon_base))
             neon_res
     in regs_floats neon_res)"

definition L2sqr_transpose_pipelined_rnd ::
  "rounding \<Rightarrow> nat \<Rightarrow> fptr \<Rightarrow> fptr \<Rightarrow> nat \<Rightarrow> (nat \<Rightarrow> real)" where
  "L2sqr_transpose_pipelined_rnd rnd B x y d =
    (let single_query = vdupq_n_f32 (x 0);
         neon_base = (\<lambda>r. vld1q_f32 (ptr_add y (4 * r)));
         neon_diff = (\<lambda>r. vsubq_f32_rnd rnd (neon_base r) single_query);
         neon_res =
           (if d = 1 then (\<lambda>r. vmulq_f32_rnd rnd (neon_diff r) (neon_diff r))
            else
              let single_query = vdupq_n_f32 (x 1);
                  neon_base = (\<lambda>r. vld1q_f32 (ptr_add y (B + 4 * r)));
                  neon_res = (\<lambda>r. vmulq_f32_rnd rnd (neon_diff r) (neon_diff r));
                  (i, single_query, neon_base, neon_res) =
                    loop_lt 2 d 1
                      (\<lambda>i (single_query, neon_base, neon_res).
                         let neon_diff = (\<lambda>r. vsubq_f32_rnd rnd (neon_base r) single_query);
                             single_query = vdupq_n_f32 (x i);
                             neon_base = (\<lambda>r. vld1q_f32 (ptr_add y (B * i + 4 * r)));
                             neon_res = (\<lambda>r. vmlaq_f32_rnd rnd (neon_res r) (neon_diff r) (neon_diff r))
                         in (single_query, neon_base, neon_res))
                      (single_query, neon_base, neon_res);
                  neon_diff = (\<lambda>r. vsubq_f32_rnd rnd (neon_base r) single_query)
              in (\<lambda>r. vmlaq_f32_rnd rnd (neon_res r) (neon_diff r) (neon_diff r)))
     in regs_floats neon_res)"

definition krl_L2sqr_continuous_transpose_medium_kernel_rnd ::
  "rounding \<Rightarrow> fptr \<Rightarrow> fptr \<Rightarrow> nat \<Rightarrow> (nat \<Rightarrow> real)" where
  "krl_L2sqr_continuous_transpose_medium_kernel_rnd rnd x y d = L2sqr_transpose_pipelined_rnd rnd 32 x y d"

definition krl_L2sqr_continuous_transpose_mini_kernel_rnd ::
  "rounding \<Rightarrow> fptr \<Rightarrow> fptr \<Rightarrow> nat \<Rightarrow> (nat \<Rightarrow> real)" where
  "krl_L2sqr_continuous_transpose_mini_kernel_rnd rnd x y d = L2sqr_transpose_pipelined_rnd rnd 16 x y d"

definition ip_transpose_rnd ::
  "rounding \<Rightarrow> nat \<Rightarrow> fptr \<Rightarrow> fptr \<Rightarrow> nat \<Rightarrow> (nat \<Rightarrow> real)" where
  "ip_transpose_rnd rnd B x y d =
    (let single_query = vdupq_n_f32 (x 0);
         neon_res = (\<lambda>r. vmulq_f32_rnd rnd (vld1q_f32 (ptr_add y (4 * r))) single_query);
         (i, neon_res) =
           loop_lt 1 d 1
             (\<lambda>i neon_res.
                let single_query = vdupq_n_f32 (x i)
                in (\<lambda>r. vmlaq_f32_rnd rnd (neon_res r) (vld1q_f32 (ptr_add y (B * i + 4 * r))) single_query))
             neon_res
     in regs_floats neon_res)"

definition krl_inner_product_continuous_transpose_large_kernel_rnd ::
  "rounding \<Rightarrow> fptr \<Rightarrow> fptr \<Rightarrow> nat \<Rightarrow> (nat \<Rightarrow> real)" where
  "krl_inner_product_continuous_transpose_large_kernel_rnd rnd x y d = ip_transpose_rnd rnd 64 x y d"

definition krl_inner_product_continuous_transpose_medium_kernel_rnd ::
  "rounding \<Rightarrow> fptr \<Rightarrow> fptr \<Rightarrow> nat \<Rightarrow> (nat \<Rightarrow> real)" where
  "krl_inner_product_continuous_transpose_medium_kernel_rnd rnd x y d = ip_transpose_rnd rnd 32 x y d"

definition krl_inner_product_continuous_transpose_mini_kernel_rnd ::
  "rounding \<Rightarrow> fptr \<Rightarrow> fptr \<Rightarrow> nat \<Rightarrow> (nat \<Rightarrow> real)" where
  "krl_inner_product_continuous_transpose_mini_kernel_rnd rnd x y d = ip_transpose_rnd rnd 16 x y d"

definition krl_L2sqr_ny_with_handle_rnd ::
  "rounding \<Rightarrow> KRLDistanceHandle option \<Rightarrow> nat option \<Rightarrow> fptr option \<Rightarrow> nat \<Rightarrow> nat \<Rightarrow> outbuf \<Rightarrow> int \<times> outbuf" where
  "krl_L2sqr_ny_with_handle_rnd rnd =
     ny_with_handle (krl_L2sqr_continuous_transpose_mini_kernel_rnd rnd)
       (krl_L2sqr_continuous_transpose_medium_kernel_rnd rnd)
       (krl_L2sqr_continuous_transpose_large_kernel_rnd rnd)"

definition krl_inner_product_ny_with_handle_rnd ::
  "rounding \<Rightarrow> KRLDistanceHandle option \<Rightarrow> nat option \<Rightarrow> fptr option \<Rightarrow> nat \<Rightarrow> nat \<Rightarrow> outbuf \<Rightarrow> int \<times> outbuf" where
  "krl_inner_product_ny_with_handle_rnd rnd =
     ny_with_handle (krl_inner_product_continuous_transpose_mini_kernel_rnd rnd)
       (krl_inner_product_continuous_transpose_medium_kernel_rnd rnd)
       (krl_inner_product_continuous_transpose_large_kernel_rnd rnd)"

section \<open>Reference distances\<close>

text \<open>
  The naive scalar references of the specification: the sum of squared component-wise
  differences and the sum of component-wise products.
\<close>

definition L2sqr_ref :: "fptr \<Rightarrow> fptr \<Rightarrow> nat \<Rightarrow> real" where
  "L2sqr_ref x y d = (\<Sum>j<d. (x j - y j) * (x j - y j))"

definition ip_ref :: "fptr \<Rightarrow> fptr \<Rightarrow> nat \<Rightarrow> real" where
  "ip_ref x y d = (\<Sum>j<d. x j * y j)"

text \<open>
  The naive scalar loops of the specification with rounded arithmetic: the terms are
  added from left to right, \<^verbatim>\<open>for (i = 0; i < d; i++) res += x[i] * y[i];\<close>.
\<close>

primrec ip_naive :: "rounding \<Rightarrow> fptr \<Rightarrow> fptr \<Rightarrow> nat \<Rightarrow> real" where
  "ip_naive rnd x y 0 = 0"
| "ip_naive rnd x y (Suc n) = rnd (ip_naive rnd x y n + rnd (x n * y n))"

primrec L2sqr_naive :: "rounding \<Rightarrow> fptr \<Rightarrow> fptr \<Rightarrow> nat \<Rightarrow> real" where
  "L2sqr_naive rnd x y 0 = 0"
| "L2sqr_naive rnd x y (Suc n) =
     rnd (L2sqr_naive rnd x y n + rnd (rnd (x n - y n) * rnd (x n - y n)))"

text \<open>
  What a batch call has to deliver: slot \<open>j\<close> of the output receives the distance
  between the query and base vector \<open>j\<close>. The dense entry points find vector \<open>j\<close>
  at \<^verbatim>\<open>y + j * d\<close>, the by-index ones at \<^verbatim>\<open>y + ids[j] * d\<close>.
\<close>

definition L2sqr_dense :: "fptr \<Rightarrow> fptr \<Rightarrow> nat \<Rightarrow> (nat \<Rightarrow> real)" where
  "L2sqr_dense x y d = (\<lambda>j. L2sqr_ref x (ptr_add y (j * d)) d)"

definition ip_dense :: "fptr \<Rightarrow> fptr \<Rightarrow> nat \<Rightarrow> (nat \<Rightarrow> real)" where
  "ip_dense x y d = (\<lambda>j. ip_ref x (ptr_add y (j * d)) d)"

definition L2sqr_gather :: "fptr \<Rightarrow> (int \<Rightarrow> real) \<Rightarrow> (nat \<Rightarrow> int) \<Rightarrow> nat \<Rightarrow> (nat \<Rightarrow> real)" where
  "L2sqr_gather x y ids d = (\<lambda>j. L2sqr_ref x (idx_ptr y (ids j) d) d)"

definition ip_gather :: "fptr \<Rightarrow> (int \<Rightarrow> real) \<Rightarrow> (nat \<Rightarrow> int) \<Rightarrow> nat \<Rightarrow> (nat \<Rightarrow> real)" where
  "ip_gather x y ids d = (\<lambda>j. ip_ref x (idx_ptr y (ids j) d) d)"

text \<open>
  \<open>written_once buf buf' dis n vals\<close>: from \<open>buf\<close> to \<open>buf'\<close> each of the \<open>n\<close>
  cells \<^verbatim>\<open>dis[0] .. dis[n-1]\<close> has been written exactly once and holds its value, and
  no other cell has been written.
\<close>

definition written_once :: "outbuf \<Rightarrow> outbuf \<Rightarrow> nat \<Rightarrow> nat \<Rightarrow> (nat \<Rightarrow> real) \<Rightarrow> bool" where
  "written_once buf buf' dis n vals =
     (\<forall>a. if dis \<le> a \<and> a < dis + n
          then hits buf' a = hits buf a + 1 \<and> cells buf' a = vals (a - dis)
          else hits buf' a = hits buf a \<and> cells buf' a = cells buf a)"

text \<open>\<open>unwritten buf buf'\<close>: no cell has been written from \<open>buf\<close> to \<open>buf'\<close>.\<close>

definition unwritten :: "outbuf \<Rightarrow> outbuf \<Rightarrow> bool" where
  "unwritten buf buf' = (\<forall>a. hits buf' a = hits buf a \<and> cells buf' a = cells buf a)"



section \<open>Vocabulary of the proofs\<close>

text \<open>The terms of the two sums, and four consecutive terms of a sum.\<close>

definition l2_term :: "fptr \<Rightarrow> fptr \<Rightarrow> nat \<Rightarrow> real" where
  "l2_term x y l = (x l - y l) * (x l - y l)"

definition ip_term :: "fptr \<Rightarrow> fptr \<Rightarrow> nat \<Rightarrow> real" where
  "ip_term x y l = x l * y l"

definition chunk4 :: "(nat \<Rightarrow> real) \<Rightarrow> nat \<Rightarrow> real" where
  "chunk4 f i = f i + f (i + 1) + f (i + 2) + f (i + 3)"

text \<open>
  The invariant of a register file: register \<open>k\<close> holds, summed across its lanes, the
  first \<open>j\<close> terms of the sum of vector \<open>k\<close>; and a step that adds the four terms at
  its offset.
\<close>

definition regs_inv :: "(nat \<Rightarrow> nat \<Rightarrow> real) \<Rightarrow> nat \<Rightarrow> regs \<Rightarrow> bool" where
  "regs_inv f j res = (\<forall>k. vaddvq_f32 (res k) = (\<Sum>l<j. f k l))"

definition regs_step :: "(nat \<Rightarrow> nat \<Rightarrow> real) \<Rightarrow> (nat \<Rightarrow> regs \<Rightarrow> regs) \<Rightarrow> bool" where
  "regs_step f step = (\<forall>j res k. vaddvq_f32 (step j res k) = vaddvq_f32 (res k) + chunk4 (f k) j)"


text \<open>
  What the loop over the blocks of one query delivers in slot \<open>j\<close>: lane \<open>j mod B\<close> of
  the kernel call on the block that holds vector \<open>j\<close>, which starts \<open>(j div B) * B * d\<close>
  floats into the transposed data of the query. \<open>handle_vals\<close> is the same for the
  whole output of a call: slot \<open>a\<close> belongs to query \<open>a div ny\<close> and vector \<open>a mod ny\<close>.
\<close>

definition block_vals ::
  "nat \<Rightarrow> (fptr \<Rightarrow> fptr \<Rightarrow> nat \<Rightarrow> (nat \<Rightarrow> real)) \<Rightarrow> fptr \<Rightarrow> fptr \<Rightarrow> nat \<Rightarrow> (nat \<Rightarrow> real)" where
  "block_vals B kern x y d = (\<lambda>j. kern x (ptr_add y (j div B * B * d)) d (j mod B))"

definition handle_vals ::
  "nat \<Rightarrow> (fptr \<Rightarrow> fptr \<Rightarrow> nat \<Rightarrow> (nat \<Rightarrow> real)) \<Rightarrow> KRLDistanceHandle \<Rightarrow> fptr \<Rightarrow> fptr \<Rightarrow> (nat \<Rightarrow> real)" where
  "handle_vals B kern kdh x y =
     (\<lambda>a. block_vals B kern (ptr_add x (a div kdh_ny kdh * kdh_d kdh))
            (ptr_add y (a div kdh_ny kdh * (kdh_ceil_ny kdh * kdh_d kdh))) (kdh_d kdh)
            (a mod kdh_ny kdh))"

text \<open>Concrete inputs: an array given by its elements, and an output memory never written.\<close>

definition float_array :: "real list \<Rightarrow> fptr" where
  "float_array xs = (\<lambda>j. if j < length xs then xs ! j else 0)"

definition fresh_buf :: outbuf where
  "fresh_buf = \<lparr>cells = (\<lambda>j. 0), hits = (\<lambda>j. 0)\<rparr>"

section \<open>Loop rules and register sums\<close>

lemma loop_le_rule:
  assumes "P i s" and "\<And>j t. P j t \<Longrightarrow> j \<le> hi \<Longrightarrow> P (j + st) (body j t)"
  shows "\<exists>i' s'. loop_le i hi st body s = (i', s') \<and> P i' s'"
  using assms
proof (induction i hi st body s rule: loop_le.induct)
  case (1 i hi st body s)
  show ?case
  proof (cases "i \<le> hi \<and> 0 < st")
    case True
    then have "P (i + st) (body i s)" using 1(2) 1(3) by blast
    from 1(1)[OF True this 1(3)] True show ?thesis by (subst loop_le.simps) simp
  next
    case False
    then show ?thesis using 1(2) by (subst loop_le.simps) auto
  qed
qed

lemma loop_lt_rule:
  assumes "P i s" and "\<And>j t. P j t \<Longrightarrow> j < hi \<Longrightarrow> P (j + st) (body j t)" and "0 < st"
  shows "\<exists>i' s'. loop_lt i hi st body s = (i', s') \<and> P i' s' \<and> hi \<le> i'"
  using assms
proof (induction i hi st body s rule: loop_lt.induct)
  case (1 i hi st body s)
  show ?case
  proof (cases "i < hi \<and> 0 < st")
    case True
    then have "P (i + st) (body i s)" using 1(2) 1(3) by blast
    from 1(1)[OF True this 1(3) 1(4)] True show ?thesis by (subst loop_lt.simps) simp
  next
    case False
    then show ?thesis using 1(2) 1(4) by (subst loop_lt.simps) auto
  qed
qed

lemma sum_chunk4: "(\<Sum>l<i + 4. f l) = (\<Sum>l<i. f l) + chunk4 f i"
proof -
  have "(\<Sum>l<Suc (Suc (Suc (Suc i))). f l) = (\<Sum>l<i. f l) + (f i + f (Suc i) + f (Suc (Suc i)) + f (Suc (Suc (Suc i))))"
    by simp
  moreover have "i + 4 = Suc (Suc (Suc (Suc i)))" "i + 3 = Suc (Suc (Suc i))" "i + 2 = Suc (Suc i)" "i + 1 = Suc i" by simp_all
  ultimately show ?thesis unfolding chunk4_def by metis
qed

lemma sum_chunk4_0: "(\<Sum>l<4. f l) = chunk4 f 0"
  using sum_chunk4[where i=0 and f=f] by simp

lemma vaddvq_vaddq: "vaddvq_f32 (vaddq_f32 a b) = vaddvq_f32 a + vaddvq_f32 b"
  by (cases a; cases b) simp

lemma hsum_l2_mul_xy: "vaddvq_f32 (l2_mul_xy x y i) = chunk4 (l2_term x y) i"
  by (simp add: l2_mul_xy_def vld1q_f32_def ptr_add_def chunk4_def l2_term_def)

lemma hsum_l2_mla_xy: "vaddvq_f32 (l2_mla_xy x y i acc) = vaddvq_f32 acc + chunk4 (l2_term x y) i"
  by (cases acc) (simp add: l2_mla_xy_def vld1q_f32_def ptr_add_def chunk4_def l2_term_def)

lemma hsum_l2_mul_yx: "vaddvq_f32 (l2_mul_yx x y i) = chunk4 (l2_term x y) i"
  by (simp add: l2_mul_yx_def vld1q_f32_def ptr_add_def chunk4_def l2_term_def algebra_simps)

lemma hsum_l2_mla_yx: "vaddvq_f32 (l2_mla_yx x y i acc) = vaddvq_f32 acc + chunk4 (l2_term x y) i"
  by (cases acc) (simp add: l2_mla_yx_def vld1q_f32_def ptr_add_def chunk4_def l2_term_def algebra_simps)

lemma hsum_ip_mul_xy: "vaddvq_f32 (ip_mul_xy x y i) = chunk4 (ip_term x y) i"
  by (simp add: ip_mul_xy_def vld1q_f32_def ptr_add_def chunk4_def ip_term_def)

lemma hsum_ip_mla_xy: "vaddvq_f32 (ip_mla_xy x y i acc) = vaddvq_f32 acc + chunk4 (ip_term x y) i"
  by (cases acc) (simp add: ip_mla_xy_def vld1q_f32_def ptr_add_def chunk4_def ip_term_def)

lemma hsum_ip_mul_yx: "vaddvq_f32 (ip_mul_yx x y i) = chunk4 (ip_term x y) i"
  by (simp add: ip_mul_yx_def vld1q_f32_def ptr_add_def chunk4_def ip_term_def algebra_simps)

lemma hsum_ip_mla_yx: "vaddvq_f32 (ip_mla_yx x y i acc) = vaddvq_f32 acc + chunk4 (ip_term x y) i"
  by (cases acc) (simp add: ip_mla_yx_def vld1q_f32_def ptr_add_def chunk4_def ip_term_def algebra_simps)

lemmas hsum_simps = vaddvq_vaddq hsum_l2_mul_xy hsum_l2_mla_xy hsum_l2_mul_yx hsum_l2_mla_yx
  hsum_ip_mul_xy hsum_ip_mla_xy hsum_ip_mul_yx hsum_ip_mla_yx

text \<open>The single-register loop of four floats a round.\<close>

lemma loop4_xy:
  assumes "4 \<le> d" and "i \<le> d" and "\<And>acc j. vaddvq_f32 (step j acc) = vaddvq_f32 acc + chunk4 f j"
  shows "\<exists>i' acc'. loop_le i (d - 4) 4 step acc = (i', acc') \<and> i' \<le> d
           \<and> vaddvq_f32 acc' + (\<Sum>l<i. f l) = vaddvq_f32 acc + (\<Sum>l<i'. f l)"
proof -
  let ?P = "\<lambda>j a. j \<le> d \<and> vaddvq_f32 a + (\<Sum>l<i. f l) = vaddvq_f32 acc + (\<Sum>l<j. f l)"
  have "\<exists>i' s'. loop_le i (d - 4) 4 step acc = (i', s') \<and> ?P i' s'"
  proof (rule loop_le_rule)
    show "?P i acc" using assms(2) by simp
  next
    fix j t assume "?P j t" "j \<le> d - 4"
    then show "?P (j + 4) (step j t)" using assms(1) by (simp add: assms(3) sum_chunk4)
  qed
  then show ?thesis by blast
qed

lemma scalar_tail:
  assumes "i \<le> d" and "res = (\<Sum>l<i. f l)" and "\<And>j r. step j r = r + f j"
  shows "snd (loop_lt i d 1 step res) = (\<Sum>l<d. f l)"
proof -
  let ?P = "\<lambda>j r. j \<le> d \<and> r = (\<Sum>l<j. f l)"
  have "\<exists>i' s'. loop_lt i d 1 step res = (i', s') \<and> ?P i' s' \<and> d \<le> i'"
    by (rule loop_lt_rule) (use assms in \<open>auto\<close>)
  then obtain i' s' where "loop_lt i d 1 step res = (i', s')" "?P i' s'" "d \<le> i'" by blast
  then show ?thesis by simp
qed

lemma L2sqr_ref_alt: "L2sqr_ref x y d = (\<Sum>l<d. l2_term x y l)"
  by (simp add: L2sqr_ref_def l2_term_def)

lemma ip_ref_alt: "ip_ref x y d = (\<Sum>l<d. ip_term x y l)"
  by (simp add: ip_ref_def ip_term_def)

lemma sum16: "(\<Sum>l<16. f l) = chunk4 f 0 + chunk4 f 4 + chunk4 f 8 + chunk4 f 12"
  using sum_chunk4[where i=0 and f=f] sum_chunk4[where i=4 and f=f] sum_chunk4[where i=8 and f=f] sum_chunk4[where i=12 and f=f] by simp

lemma sum_chunk16:
  "(\<Sum>l<i + 16. f l) = (\<Sum>l<i. f l) + chunk4 f i + chunk4 f (i + 4) + chunk4 f (i + 8) + chunk4 f (i + 12)"
  using sum_chunk4[where i=i and f=f] sum_chunk4[where i="i + 4" and f=f] sum_chunk4[where i="i + 8" and f=f] sum_chunk4[where i="i + 12" and f=f]
  by (simp add: add.assoc)

lemma l2_scalar_loop_eq:
  assumes "i \<le> d" and "res = (\<Sum>l<i. l2_term x y l)"
  shows "l2_scalar_loop x y i d res = L2sqr_ref x y d"
  unfolding L2sqr_ref_alt l2_scalar_loop_def using assms
  by (intro scalar_tail) (auto simp: l2_term_def Let_def)

lemma ip_scalar_loop_eq:
  assumes "i \<le> d" and "res = (\<Sum>l<i. ip_term x y l)"
  shows "ip_scalar_loop x y i d res = ip_ref x y d"
  unfolding ip_ref_alt ip_scalar_loop_def using assms
  by (intro scalar_tail) (auto simp: ip_term_def Let_def)

lemma loop16_xy:
  assumes "16 \<le> d"
    and "\<And>acc j. vaddvq_f32 (step j acc) = vaddvq_f32 acc + chunk4 f j"
    and "vaddvq_f32 a + vaddvq_f32 b + vaddvq_f32 c + vaddvq_f32 e = (\<Sum>l<16. f l)"
  shows "\<exists>i' a' b' c' e'.
           loop_le 16 (d - 16) 16
             (\<lambda>i (d8_0, d8_1, d8_2, d8_3).
                (step i d8_0, step (i + 4) d8_1, step (i + 8) d8_2, step (i + 12) d8_3))
             (a, b, c, e) = (i', a', b', c', e') \<and> i' \<le> d
           \<and> vaddvq_f32 a' + vaddvq_f32 b' + vaddvq_f32 c' + vaddvq_f32 e' = (\<Sum>l<i'. f l)"
proof -
  let ?P = "\<lambda>j (a, b, c, e). j \<le> d \<and> vaddvq_f32 a + vaddvq_f32 b + vaddvq_f32 c + vaddvq_f32 e = (\<Sum>l<j. f l)"
  have "\<exists>i' s'. loop_le 16 (d - 16) 16
             (\<lambda>i (d8_0, d8_1, d8_2, d8_3).
                (step i d8_0, step (i + 4) d8_1, step (i + 8) d8_2, step (i + 12) d8_3))
             (a, b, c, e) = (i', s') \<and> ?P i' s'"
    by (rule loop_le_rule) (use assms in \<open>auto simp: sum_chunk16\<close>)
  then show ?thesis by auto
qed

lemma krl_L2sqr_res_eq: "krl_L2sqr_res x y d = L2sqr_ref x y d"
proof -
  let ?f = "l2_term x y"
  consider "16 \<le> d" | "4 \<le> d" "d < 16" | "d < 4" by linarith
  then show ?thesis
  proof cases
    case 1
    from loop16_xy[of d "l2_mla_xy x y" ?f "l2_mul_xy x y 0" "l2_mul_xy x y 4" "l2_mul_xy x y 8" "l2_mul_xy x y 12"] 1
    obtain i1 a b c e where L1: "loop_le 16 (d - 16) 16
                  (\<lambda>i (d8_0, d8_1, d8_2, d8_3).
                     (l2_mla_xy x y i d8_0, l2_mla_xy x y (i + 4) d8_1,
                      l2_mla_xy x y (i + 8) d8_2, l2_mla_xy x y (i + 12) d8_3))
                  (l2_mul_xy x y 0, l2_mul_xy x y 4, l2_mul_xy x y 8, l2_mul_xy x y 12) = (i1, a, b, c, e)"
      and I1: "i1 \<le> d" "vaddvq_f32 a + vaddvq_f32 b + vaddvq_f32 c + vaddvq_f32 e = (\<Sum>l<i1. ?f l)"
      by (auto simp: hsum_simps sum16)
    from loop4_xy[of d i1 "l2_mla_xy x y" ?f a] 1 I1(1)
    obtain i2 a' where L2: "loop_le i1 (d - 4) 4 (l2_mla_xy x y) a = (i2, a')" and I2: "i2 \<le> d"
      "vaddvq_f32 a' + (\<Sum>l<i1. ?f l) = vaddvq_f32 a + (\<Sum>l<i2. ?f l)"
      by (auto simp: hsum_simps)
    have "vaddvq_f32 a' + vaddvq_f32 b + vaddvq_f32 c + vaddvq_f32 e = (\<Sum>l<i2. ?f l)"
      using I1(2) I2(2) by linarith
    then have "l2_scalar_loop x y i2 d (vaddvq_f32 (vaddq_f32 (vaddq_f32 a' b) (vaddq_f32 c e))) = L2sqr_ref x y d"
      by (intro l2_scalar_loop_eq I2(1)) (simp add: hsum_simps)
    then show ?thesis
      using 1 L1 L2 by (simp add: krl_L2sqr_res_def Let_def)
  next
    case 2
    from loop4_xy[of d 4 "l2_mla_xy x y" ?f "l2_mul_xy x y 0"] 2
    obtain i2 a' where L2: "loop_le 4 (d - 4) 4 (l2_mla_xy x y) (l2_mul_xy x y 0) = (i2, a')" and I2: "i2 \<le> d"
      "vaddvq_f32 a' + (\<Sum>l<4. ?f l) = vaddvq_f32 (l2_mul_xy x y 0) + (\<Sum>l<i2. ?f l)"
      by (auto simp: hsum_simps)
    then have "vaddvq_f32 a' = (\<Sum>l<i2. ?f l)" by (simp add: hsum_simps sum_chunk4_0)
    then have "l2_scalar_loop x y i2 d (vaddvq_f32 a') = L2sqr_ref x y d"
      by (intro l2_scalar_loop_eq I2(1))
    then show ?thesis
      using 2 L2 by (simp add: krl_L2sqr_res_def Let_def)
  next
    case 3
    have "l2_scalar_loop x y 0 d 0 = L2sqr_ref x y d"
      by (intro l2_scalar_loop_eq) simp_all
    then show ?thesis using 3 by (simp add: krl_L2sqr_res_def)
  qed
qed

lemma krl_ipdis_res_eq: "krl_ipdis_res x y d = ip_ref x y d"
proof -
  let ?f = "ip_term x y"
  consider "16 \<le> d" | "d < 16" by linarith
  then show ?thesis
  proof cases
    case 1
    from loop16_xy[of d "ip_mla_xy x y" ?f "ip_mul_xy x y 0" "ip_mul_xy x y 4" "ip_mul_xy x y 8" "ip_mul_xy x y 12"] 1
    obtain i1 a b c e where L1: "loop_le 16 (d - 16) 16
                  (\<lambda>i (d8_0, d8_1, d8_2, d8_3).
                     (ip_mla_xy x y i d8_0, ip_mla_xy x y (i + 4) d8_1,
                      ip_mla_xy x y (i + 8) d8_2, ip_mla_xy x y (i + 12) d8_3))
                  (ip_mul_xy x y 0, ip_mul_xy x y 4, ip_mul_xy x y 8, ip_mul_xy x y 12) = (i1, a, b, c, e)"
      and I1: "i1 \<le> d" "vaddvq_f32 a + vaddvq_f32 b + vaddvq_f32 c + vaddvq_f32 e = (\<Sum>l<i1. ?f l)"
      by (auto simp: hsum_simps sum16)
    then have "ip_scalar_loop x y i1 d (vaddvq_f32 (vaddq_f32 (vaddq_f32 a b) (vaddq_f32 c e))) = ip_ref x y d"
      by (intro ip_scalar_loop_eq I1(1)) (simp add: hsum_simps)
    then show ?thesis
      using 1 L1 by (simp add: krl_ipdis_res_def Let_def)
  next
    case 2
    have "ip_scalar_loop x y 0 d 0 = ip_ref x y d"
      by (intro ip_scalar_loop_eq) simp_all
    then show ?thesis using 2 by (simp add: krl_ipdis_res_def)
  qed
qed


section \<open>The kernels for several vectors compute the reference sums\<close>

lemma regs_step_l2: "regs_step (\<lambda>k. l2_term x (ys k)) (l2_regs_mla x ys)"
  by (simp add: regs_step_def l2_regs_mla_def hsum_simps)

lemma regs_step_ip: "regs_step (\<lambda>k. ip_term x (ys k)) (ip_regs_mla x ys)"
  by (simp add: regs_step_def ip_regs_mla_def hsum_simps)

lemma regs_inv_l2_mul: "regs_inv (\<lambda>k. l2_term x (ys k)) 4 (l2_regs_mul x ys 0)"
  by (simp add: regs_inv_def l2_regs_mul_def hsum_simps sum_chunk4_0)

lemma regs_inv_ip_mul: "regs_inv (\<lambda>k. ip_term x (ys k)) 4 (ip_regs_mul x ys 0)"
  by (simp add: regs_inv_def ip_regs_mul_def hsum_simps sum_chunk4_0)

lemma regs_inv_zero: "regs_inv f 0 (\<lambda>k. vdupq_n_f32 0)"
  by (simp add: regs_inv_def vdupq_n_f32_def)

lemma regs_inv_step:
  "regs_step f step \<Longrightarrow> regs_inv f j res \<Longrightarrow> regs_inv f (j + 4) (step j res)"
  by (simp add: regs_step_def regs_inv_def sum_chunk4)

text \<open>\<^verbatim>\<open>for (; i <= d - 4; i += 4)\<close> on the register file.\<close>

lemma regs_loop_single:
  assumes "regs_step f step" and "4 \<le> d" and "i \<le> d" and "regs_inv f i res"
  shows "\<exists>i' res'. loop_le i (d - 4) 4 step res = (i', res') \<and> i' \<le> d \<and> regs_inv f i' res'"
proof -
  let ?P = "\<lambda>j r. j \<le> d \<and> regs_inv f j r"
  have "\<exists>i' s'. loop_le i (d - 4) 4 step res = (i', s') \<and> ?P i' s'"
    by (rule loop_le_rule) (use assms in \<open>auto intro: regs_inv_step\<close>)
  then show ?thesis by blast
qed

text \<open>A run of whole rounds of four from \<open>off + a\<close> to \<open>off + b\<close>.\<close>

lemma regs_loop_rounds:
  assumes "regs_step f step" and "a \<le> b" and "4 dvd (b - a)" and "regs_inv f (off + a) res"
  shows "\<exists>res'. loop_lt a b 4 (\<lambda>j. step (off + j)) res = (b, res') \<and> regs_inv f (off + b) res'"
proof -
  let ?P = "\<lambda>j r. j \<le> b \<and> 4 dvd (b - j) \<and> regs_inv f (off + j) r"
  have "\<exists>i' s'. loop_lt a b 4 (\<lambda>j. step (off + j)) res = (i', s') \<and> ?P i' s' \<and> b \<le> i'"
  proof (rule loop_lt_rule)
    show "?P a res" using assms by simp
  next
    fix j t assume P: "?P j t" and lt: "j < b"
    then obtain q where q: "b - j = 4 * q" by (auto simp: dvd_def)
    with lt have "q \<noteq> 0" by auto
    with q have le: "j + 4 \<le> b" by (cases q) auto
    have "b - (j + 4) = 4 * (q - 1)" using q le by simp
    then have "4 dvd (b - (j + 4))" by simp
    moreover have "regs_inv f (off + (j + 4)) (step (off + j) t)"
      using regs_inv_step[OF assms(1), of "off + j" t] P by (simp add: add.assoc)
    ultimately show "?P (j + 4) (step (off + j) t)" using le by simp
  qed simp
  then show ?thesis by auto
qed

text \<open>The outer loop of a kernel with \<^verbatim>\<open>multi_round = m\<close>.\<close>

lemma regs_loop_multi:
  assumes "\<And>j r. regs_inv f j r \<Longrightarrow> regs_inv f (j + m) (inner j r)"
    and "0 < m" and "m \<le> d" and "i \<le> d" and "regs_inv f i res"
  shows "\<exists>i' res'. loop_lt i (d - m) m inner res = (i', res') \<and> i' \<le> d \<and> regs_inv f i' res'"
proof -
  let ?P = "\<lambda>j r. j \<le> d \<and> regs_inv f j r"
  have "\<exists>i' s'. loop_lt i (d - m) m inner res = (i', s') \<and> ?P i' s' \<and> d - m \<le> i'"
    by (rule loop_lt_rule) (use assms in \<open>auto\<close>)
  then show ?thesis by blast
qed

lemma regs_tail_loop:
  assumes "i \<le> d" and "\<And>j dd. step j dd = (\<lambda>k. dd k + f k j)" and "\<forall>k. dd k = (\<Sum>l = i0..<i. f k l)" and "i0 \<le> i"
  shows "\<exists>i' dd'. loop_lt i d 1 step dd = (i', dd') \<and> (\<forall>k. dd' k = (\<Sum>l = i0..<d. f k l))"
proof -
  let ?P = "\<lambda>j r. j \<le> d \<and> i0 \<le> j \<and> (\<forall>k. r k = (\<Sum>l = i0..<j. f k l))"
  have "\<exists>i' s'. loop_lt i d 1 step dd = (i', s') \<and> ?P i' s' \<and> d \<le> i'"
    by (rule loop_lt_rule) (use assms in \<open>auto\<close>)
  then obtain i' s' where "loop_lt i d 1 step dd = (i', s')" "?P i' s'" "d \<le> i'" by blast
  moreover from this have "i' = d" by simp
  ultimately show ?thesis by auto
qed

lemma sum_split_at: "i \<le> d \<Longrightarrow> (\<Sum>l<i. f l) + (\<Sum>l = i..<d. f l) = (\<Sum>l<(d::nat). (f l :: real))"
  using sum.atLeastLessThan_concat[of 0 i d f] by (simp add: atLeast0LessThan)

lemma l2_regs_tail_eq:
  assumes "i \<le> d" and "\<forall>k. dis k = (\<Sum>l<i. l2_term x (ys k) l)"
  shows "l2_regs_tail x ys i d dis = (\<lambda>k. L2sqr_ref x (ys k) d)"
proof (cases "i < d")
  case True
  let ?f = "\<lambda>k. l2_term x (ys k)"
  have "\<exists>i' dd'. loop_lt (i + 1) d 1 (\<lambda>i dd. (\<lambda>k. let q = x i - ys k i in dd k + q * q))
          (\<lambda>k. let q = x i - ys k i in q * q) = (i', dd') \<and> (\<forall>k. dd' k = (\<Sum>l = i..<d. ?f k l))"
    by (rule regs_tail_loop) (use True in \<open>auto simp: l2_term_def Let_def\<close>)
  then obtain i' dd' where L: "loop_lt (i + 1) d 1 (\<lambda>i dd. (\<lambda>k. let q = x i - ys k i in dd k + q * q))
          (\<lambda>k. let q = x i - ys k i in q * q) = (i', dd')" and D: "\<forall>k. dd' k = (\<Sum>l = i..<d. ?f k l)"
    by blast
  have "l2_regs_tail x ys i d dis = (\<lambda>k. dis k + dd' k)"
    unfolding l2_regs_tail_def using True L by (simp add: Let_def)
  also have "\<dots> = (\<lambda>k. L2sqr_ref x (ys k) d)"
    using assms D sum_split_at[of i d] by (auto simp: L2sqr_ref_alt)
  finally show ?thesis .
next
  case False
  with assms have "i = d" by simp
  then show ?thesis using assms False by (auto simp: l2_regs_tail_def L2sqr_ref_alt)
qed

lemma ip_regs_tail_eq:
  assumes "i \<le> d" and "\<forall>k. dis k = (\<Sum>l<i. ip_term x (ys k) l)"
  shows "ip_regs_tail x ys i d dis = (\<lambda>k. ip_ref x (ys k) d)"
proof (cases "i < d")
  case True
  let ?f = "\<lambda>k. ip_term x (ys k)"
  have "\<exists>i' dd'. loop_lt (i + 1) d 1 (\<lambda>i dd. (\<lambda>k. dd k + x i * ys k i))
          (\<lambda>k. x i * ys k i) = (i', dd') \<and> (\<forall>k. dd' k = (\<Sum>l = i..<d. ?f k l))"
    by (rule regs_tail_loop) (use True in \<open>auto simp: ip_term_def\<close>)
  then obtain i' dd' where L: "loop_lt (i + 1) d 1 (\<lambda>i dd. (\<lambda>k. dd k + x i * ys k i))
          (\<lambda>k. x i * ys k i) = (i', dd')" and D: "\<forall>k. dd' k = (\<Sum>l = i..<d. ?f k l)"
    by blast
  have "ip_regs_tail x ys i d dis = (\<lambda>k. dis k + dd' k)"
    unfolding ip_regs_tail_def using True L by (simp add: Let_def)
  also have "\<dots> = (\<lambda>k. ip_ref x (ys k) d)"
    using assms D sum_split_at[of i d] by (auto simp: ip_ref_alt)
  finally show ?thesis .
next
  case False
  with assms have "i = d" by simp
  then show ?thesis using assms False by (auto simp: ip_regs_tail_def ip_ref_alt)
qed

lemma L2sqr_regs_single_eq: "L2sqr_regs_single x ys d = (\<lambda>k. L2sqr_ref x (ys k) d)"
proof (cases "4 \<le> d")
  case True
  from regs_loop_single[OF regs_step_l2 True _ regs_inv_l2_mul, of x ys] True
  obtain i' res' where L: "loop_le 4 (d - 4) 4 (l2_regs_mla x ys) (l2_regs_mul x ys 0) = (i', res')"
    and I: "i' \<le> d" "regs_inv (\<lambda>k. l2_term x (ys k)) i' res'" by blast
  have "l2_regs_tail x ys i' d (\<lambda>k. vaddvq_f32 (res' k)) = (\<lambda>k. L2sqr_ref x (ys k) d)"
    by (rule l2_regs_tail_eq) (use I in \<open>auto simp: regs_inv_def\<close>)
  then show ?thesis using True L by (simp add: L2sqr_regs_single_def Let_def)
next
  case False
  have "l2_regs_tail x ys 0 d (\<lambda>k. 0) = (\<lambda>k. L2sqr_ref x (ys k) d)"
    by (rule l2_regs_tail_eq) auto
  then show ?thesis using False by (simp add: L2sqr_regs_single_def)
qed

lemma ip_regs_single_eq: "ip_regs_single x ys d = (\<lambda>k. ip_ref x (ys k) d)"
proof (cases "4 \<le> d")
  case True
  from regs_loop_single[OF regs_step_ip True _ regs_inv_ip_mul, of x ys] True
  obtain i' res' where L: "loop_le 4 (d - 4) 4 (ip_regs_mla x ys) (ip_regs_mul x ys 0) = (i', res')"
    and I: "i' \<le> d" "regs_inv (\<lambda>k. ip_term x (ys k)) i' res'" by blast
  have "ip_regs_tail x ys i' d (\<lambda>k. vaddvq_f32 (res' k)) = (\<lambda>k. ip_ref x (ys k) d)"
    by (rule ip_regs_tail_eq) (use I in \<open>auto simp: regs_inv_def\<close>)
  then show ?thesis using True L by (simp add: ip_regs_single_def Let_def)
next
  case False
  have "ip_regs_tail x ys 0 d (\<lambda>k. 0) = (\<lambda>k. ip_ref x (ys k) d)"
    by (rule ip_regs_tail_eq) auto
  then show ?thesis using False by (simp add: ip_regs_single_def)
qed

lemma L2sqr_regs_prefetch_eq: "L2sqr_regs_prefetch x ys d = (\<lambda>k. L2sqr_ref x (ys k) d)"
proof -
  let ?f = "\<lambda>k. l2_term x (ys k)"
  consider "16 \<le> d" | "4 \<le> d" "d < 16" | "d < 4" by linarith
  then show ?thesis
  proof cases
    case 1
    have inner: "regs_inv ?f (j + 16) (snd (loop_lt 0 16 4 (\<lambda>ja. l2_regs_mla x ys (j + ja)) r))"
      if "regs_inv ?f j r" for j r
      using regs_loop_rounds[OF regs_step_l2, of 0 16 x ys j r] that by auto
    have "\<exists>i' res'. loop_lt 0 (d - 16) 16
        (\<lambda>i neon_res. snd (loop_lt 0 16 4 (\<lambda>j. l2_regs_mla x ys (i + j)) neon_res)) (\<lambda>k. vdupq_n_f32 0) = (i', res')
        \<and> i' \<le> d \<and> regs_inv ?f i' res'"
      by (rule regs_loop_multi) (use 1 inner regs_inv_zero in simp_all)
    then obtain i1 r1 where L1: "loop_lt 0 (d - 16) 16
        (\<lambda>i neon_res. snd (loop_lt 0 16 4 (\<lambda>j. l2_regs_mla x ys (i + j)) neon_res)) (\<lambda>k. vdupq_n_f32 0) = (i1, r1)"
      and I1: "i1 \<le> d" "regs_inv ?f i1 r1" by blast
    have "4 \<le> d" using 1 by simp
    from regs_loop_single[OF regs_step_l2 this I1]
    obtain i2 r2 where L2: "loop_le i1 (d - 4) 4 (l2_regs_mla x ys) r1 = (i2, r2)"
      and I2: "i2 \<le> d" "regs_inv ?f i2 r2" by blast
    have "l2_regs_tail x ys i2 d (\<lambda>k. vaddvq_f32 (r2 k)) = (\<lambda>k. L2sqr_ref x (ys k) d)"
      by (rule l2_regs_tail_eq) (use I2 in \<open>auto simp: regs_inv_def\<close>)
    then show ?thesis using 1 L1 L2 by (simp add: L2sqr_regs_prefetch_def Let_def)
  next
    case 2
    from regs_loop_single[OF regs_step_l2 2(1) _ regs_inv_l2_mul, of x ys] 2
    obtain i' res' where L: "loop_le 4 (d - 4) 4 (l2_regs_mla x ys) (l2_regs_mul x ys 0) = (i', res')"
      and I: "i' \<le> d" "regs_inv ?f i' res'" by blast
    have "l2_regs_tail x ys i' d (\<lambda>k. vaddvq_f32 (res' k)) = (\<lambda>k. L2sqr_ref x (ys k) d)"
      by (rule l2_regs_tail_eq) (use I in \<open>auto simp: regs_inv_def\<close>)
    then show ?thesis using 2 L by (simp add: L2sqr_regs_prefetch_def Let_def)
  next
    case 3
    have "l2_regs_tail x ys 0 d (\<lambda>k. 0) = (\<lambda>k. L2sqr_ref x (ys k) d)"
      by (rule l2_regs_tail_eq) auto
    then show ?thesis using 3 by (simp add: L2sqr_regs_prefetch_def)
  qed
qed

lemma L2sqr_regs_prefetch24_eq: "L2sqr_regs_prefetch24 x ys d = (\<lambda>k. L2sqr_ref x (ys k) d)"
proof -
  let ?f = "\<lambda>k. l2_term x (ys k)"
  consider "16 \<le> d" | "4 \<le> d" "d < 16" | "d < 4" by linarith
  then show ?thesis
  proof cases
    case 1
    from regs_loop_rounds[OF regs_step_l2, of 4 16 x ys 0 "l2_regs_mul x ys 0"] regs_inv_l2_mul[of x ys]
    obtain r0 where L0: "loop_lt 4 16 4 (l2_regs_mla x ys) (l2_regs_mul x ys 0) = (16, r0)"
      and I0: "regs_inv ?f 16 r0" by auto
    have inner: "regs_inv ?f (j + 16) (snd (loop_lt j (j + 16) 4 (l2_regs_mla x ys) r))"
      if "regs_inv ?f j r" for j r
      using regs_loop_rounds[OF regs_step_l2, of j "j + 16" x ys 0 r] that by auto
    have "\<exists>i' res'. loop_lt 16 (d - 16) 16
        (\<lambda>i neon_res. snd (loop_lt i (i + 16) 4 (l2_regs_mla x ys) neon_res)) r0 = (i', res')
        \<and> i' \<le> d \<and> regs_inv ?f i' res'"
      by (rule regs_loop_multi) (use 1 inner I0 in simp_all)
    then obtain i1 r1 where L1: "loop_lt 16 (d - 16) 16
        (\<lambda>i neon_res. snd (loop_lt i (i + 16) 4 (l2_regs_mla x ys) neon_res)) r0 = (i1, r1)"
      and I1: "i1 \<le> d" "regs_inv ?f i1 r1" by blast
    have "4 \<le> d" using 1 by simp
    from regs_loop_single[OF regs_step_l2 this I1]
    obtain i2 r2 where L2: "loop_le i1 (d - 4) 4 (l2_regs_mla x ys) r1 = (i2, r2)"
      and I2: "i2 \<le> d" "regs_inv ?f i2 r2" by blast
    have "l2_regs_tail x ys i2 d (\<lambda>k. vaddvq_f32 (r2 k)) = (\<lambda>k. L2sqr_ref x (ys k) d)"
      by (rule l2_regs_tail_eq) (use I2 in \<open>auto simp: regs_inv_def\<close>)
    then show ?thesis using 1 L0 L1 L2 by (simp add: L2sqr_regs_prefetch24_def Let_def)
  next
    case 2
    from regs_loop_single[OF regs_step_l2 2(1) _ regs_inv_l2_mul, of x ys] 2
    obtain i' res' where L: "loop_le 4 (d - 4) 4 (l2_regs_mla x ys) (l2_regs_mul x ys 0) = (i', res')"
      and I: "i' \<le> d" "regs_inv ?f i' res'" by blast
    have "l2_regs_tail x ys i' d (\<lambda>k. vaddvq_f32 (res' k)) = (\<lambda>k. L2sqr_ref x (ys k) d)"
      by (rule l2_regs_tail_eq) (use I in \<open>auto simp: regs_inv_def\<close>)
    then show ?thesis using 2 L by (simp add: L2sqr_regs_prefetch24_def Let_def)
  next
    case 3
    have "l2_regs_tail x ys 0 d (\<lambda>k. 0) = (\<lambda>k. L2sqr_ref x (ys k) d)"
      by (rule l2_regs_tail_eq) auto
    then show ?thesis using 3 by (simp add: L2sqr_regs_prefetch24_def)
  qed
qed

lemma ip_regs_prefetch16_eq: "ip_regs_prefetch16 x ys d = (\<lambda>k. ip_ref x (ys k) d)"
proof -
  let ?f = "\<lambda>k. ip_term x (ys k)"
  consider "32 \<le> d" | "4 \<le> d" "d < 32" | "d < 4" by linarith
  then show ?thesis
  proof cases
    case 1
    from regs_loop_rounds[OF regs_step_ip, of 4 32 x ys 0 "ip_regs_mul x ys 0"] regs_inv_ip_mul[of x ys]
    obtain r0 where L0: "loop_lt 4 32 4 (ip_regs_mla x ys) (ip_regs_mul x ys 0) = (32, r0)"
      and I0: "regs_inv ?f 32 r0" by auto
    have inner: "regs_inv ?f (j + 32) (snd (loop_lt 0 32 4 (\<lambda>ja. ip_regs_mla x ys (j + ja)) r))"
      if "regs_inv ?f j r" for j r
      using regs_loop_rounds[OF regs_step_ip, of 0 32 x ys j r] that by auto
    have "\<exists>i' res'. loop_lt 32 (d - 32) 32
        (\<lambda>i neon_res. snd (loop_lt 0 32 4 (\<lambda>j. ip_regs_mla x ys (i + j)) neon_res)) r0 = (i', res')
        \<and> i' \<le> d \<and> regs_inv ?f i' res'"
      by (rule regs_loop_multi) (use 1 inner I0 in simp_all)
    then obtain i1 r1 where L1: "loop_lt 32 (d - 32) 32
        (\<lambda>i neon_res. snd (loop_lt 0 32 4 (\<lambda>j. ip_regs_mla x ys (i + j)) neon_res)) r0 = (i1, r1)"
      and I1: "i1 \<le> d" "regs_inv ?f i1 r1" by blast
    have "4 \<le> d" using 1 by simp
    from regs_loop_single[OF regs_step_ip this I1]
    obtain i2 r2 where L2: "loop_le i1 (d - 4) 4 (ip_regs_mla x ys) r1 = (i2, r2)"
      and I2: "i2 \<le> d" "regs_inv ?f i2 r2" by blast
    have "ip_regs_tail x ys i2 d (\<lambda>k. vaddvq_f32 (r2 k)) = (\<lambda>k. ip_ref x (ys k) d)"
      by (rule ip_regs_tail_eq) (use I2 in \<open>auto simp: regs_inv_def\<close>)
    then show ?thesis using 1 L0 L1 L2 by (simp add: ip_regs_prefetch16_def Let_def)
  next
    case 2
    from regs_loop_single[OF regs_step_ip 2(1) _ regs_inv_ip_mul, of x ys] 2
    obtain i' res' where L: "loop_le 4 (d - 4) 4 (ip_regs_mla x ys) (ip_regs_mul x ys 0) = (i', res')"
      and I: "i' \<le> d" "regs_inv ?f i' res'" by blast
    have "ip_regs_tail x ys i' d (\<lambda>k. vaddvq_f32 (res' k)) = (\<lambda>k. ip_ref x (ys k) d)"
      by (rule ip_regs_tail_eq) (use I in \<open>auto simp: regs_inv_def\<close>)
    then show ?thesis using 2 L by (simp add: ip_regs_prefetch16_def Let_def)
  next
    case 3
    have "ip_regs_tail x ys 0 d (\<lambda>k. 0) = (\<lambda>k. ip_ref x (ys k) d)"
      by (rule ip_regs_tail_eq) auto
    then show ?thesis using 3 by (simp add: ip_regs_prefetch16_def)
  qed
qed

lemma sum_chunk8: "(\<Sum>l<i + 8. f l) = (\<Sum>l<i. f l) + chunk4 f i + chunk4 f (i + 4)"
  using sum_chunk4[where i=i and f=f] sum_chunk4[where i="i + 4" and f=f] by (simp add: add.assoc)

lemma sum8: "(\<Sum>l<8. f l) = chunk4 f 0 + chunk4 f 4"
  using sum_chunk8[where i=0 and f=f] by simp

lemma pair_loop8:
  assumes "8 \<le> d"
    and "\<And>acc j. vaddvq_f32 (s0 j acc) = vaddvq_f32 acc + chunk4 f0 j"
    and "\<And>acc j. vaddvq_f32 (s1 j acc) = vaddvq_f32 acc + chunk4 f1 j"
    and "vaddvq_f32 a0 + vaddvq_f32 a1 = (\<Sum>l<8. f0 l)"
    and "vaddvq_f32 b0 + vaddvq_f32 b1 = (\<Sum>l<8. f1 l)"
  shows "\<exists>i' a0' a1' b0' b1'.
           loop_le 8 (d - 8) 8
             (\<lambda>i (d0_0, d0_1, d1_0, d1_1). (s0 i d0_0, s0 (i + 4) d0_1, s1 i d1_0, s1 (i + 4) d1_1))
             (a0, a1, b0, b1) = (i', a0', a1', b0', b1') \<and> i' \<le> d
           \<and> vaddvq_f32 a0' + vaddvq_f32 a1' = (\<Sum>l<i'. f0 l)
           \<and> vaddvq_f32 b0' + vaddvq_f32 b1' = (\<Sum>l<i'. f1 l)"
proof -
  let ?P = "\<lambda>j (a0, a1, b0, b1). j \<le> d \<and> vaddvq_f32 a0 + vaddvq_f32 a1 = (\<Sum>l<j. f0 l)
              \<and> vaddvq_f32 b0 + vaddvq_f32 b1 = (\<Sum>l<j. f1 l)"
  have "\<exists>i' s'. loop_le 8 (d - 8) 8
             (\<lambda>i (d0_0, d0_1, d1_0, d1_1). (s0 i d0_0, s0 (i + 4) d0_1, s1 i d1_0, s1 (i + 4) d1_1))
             (a0, a1, b0, b1) = (i', s') \<and> ?P i' s'"
    by (rule loop_le_rule) (use assms in \<open>auto simp: sum_chunk8\<close>)
  then show ?thesis by auto
qed

lemma pair_loop4:
  assumes "4 \<le> d" and "i \<le> d"
    and "\<And>acc j. vaddvq_f32 (s0 j acc) = vaddvq_f32 acc + chunk4 f0 j"
    and "\<And>acc j. vaddvq_f32 (s1 j acc) = vaddvq_f32 acc + chunk4 f1 j"
    and "vaddvq_f32 a + c0 = (\<Sum>l<i. f0 l)"
    and "vaddvq_f32 b + c1 = (\<Sum>l<i. f1 l)"
  shows "\<exists>i' a' b'.
           loop_le i (d - 4) 4 (\<lambda>i (d0_0, d1_0). (s0 i d0_0, s1 i d1_0)) (a, b) = (i', a', b')
           \<and> i' \<le> d
           \<and> vaddvq_f32 a' + c0 = (\<Sum>l<i'. f0 l)
           \<and> vaddvq_f32 b' + c1 = (\<Sum>l<i'. f1 l)"
proof -
  let ?P = "\<lambda>j (a, b). j \<le> d \<and> vaddvq_f32 a + c0 = (\<Sum>l<j. f0 l) \<and> vaddvq_f32 b + c1 = (\<Sum>l<j. f1 l)"
  have "\<exists>i' s'. loop_le i (d - 4) 4 (\<lambda>i (d0_0, d1_0). (s0 i d0_0, s1 i d1_0)) (a, b) = (i', s') \<and> ?P i' s'"
    by (rule loop_le_rule) (use assms in \<open>auto simp: sum_chunk4\<close>)
  then show ?thesis by auto
qed

lemma pair_tail:
  assumes "i \<le> d" and "a = (\<Sum>l<i. f0 l)" and "b = (\<Sum>l<i. f1 l)"
    and "\<And>j p q. step j (p, q) = (p + f0 j, q + f1 j)"
  shows "snd (loop_lt i d 1 step (a, b)) = ((\<Sum>l<d. f0 l), (\<Sum>l<d. f1 l))"
proof -
  let ?P = "\<lambda>j (p, q). j \<le> d \<and> p = (\<Sum>l<j. f0 l) \<and> q = (\<Sum>l<j. f1 l)"
  have "\<exists>i' s'. loop_lt i d 1 step (a, b) = (i', s') \<and> ?P i' s' \<and> d \<le> i'"
    by (rule loop_lt_rule) (use assms in \<open>auto\<close>)
  then obtain i' s' where "loop_lt i d 1 step (a, b) = (i', s')" "?P i' s'" "d \<le> i'" by blast
  then show ?thesis by auto
qed

lemma l2_pair_tail:
  assumes "i \<le> d" and "a = (\<Sum>l<i. l2_term x y0 l)" and "b = (\<Sum>l<i. l2_term x y1 l)"
  shows "snd (loop_lt i d 1
               (\<lambda>i (dis0, dis1).
                  let tmp0 = x i - y0 i; tmp1 = x i - y1 i
                  in (dis0 + tmp0 * tmp0, dis1 + tmp1 * tmp1))
               (a, b)) = (L2sqr_ref x y0 d, L2sqr_ref x y1 d)"
  unfolding L2sqr_ref_alt
  by (rule pair_tail) (use assms in \<open>auto simp: l2_term_def Let_def\<close>)

lemma ip_pair_tail:
  assumes "i \<le> d" and "a = (\<Sum>l<i. ip_term x y0 l)" and "b = (\<Sum>l<i. ip_term x y1 l)"
  shows "snd (loop_lt i d 1
               (\<lambda>i (dis0, dis1).
                  let tmp0 = x i * y0 i; tmp1 = x i * y1 i
                  in (dis0 + tmp0, dis1 + tmp1))
               (a, b)) = (ip_ref x y0 d, ip_ref x y1 d)"
  unfolding ip_ref_alt
  by (rule pair_tail) (use assms in \<open>auto simp: ip_term_def Let_def\<close>)

lemma L2sqr_idx_batch2_res_eq:
  "L2sqr_idx_batch2_res x y0 y1 d = (L2sqr_ref x y0 d, L2sqr_ref x y1 d)"
proof -
  consider "8 \<le> d" | "4 \<le> d" "d < 8" | "d < 4" by linarith
  then show ?thesis
  proof cases
    case 1
    have "\<exists>i' a0' a1' b0' b1'.
           loop_le 8 (d - 8) 8
             (\<lambda>i (d0_0, d0_1, d1_0, d1_1).
                (l2_mla_xy x y0 i d0_0, l2_mla_xy x y0 (i + 4) d0_1,
                 l2_mla_xy x y1 i d1_0, l2_mla_xy x y1 (i + 4) d1_1))
             (l2_mul_xy x y0 0, l2_mul_xy x y0 4, l2_mul_xy x y1 0, l2_mul_xy x y1 4) = (i', a0', a1', b0', b1') \<and> i' \<le> d
           \<and> vaddvq_f32 a0' + vaddvq_f32 a1' = (\<Sum>l<i'. l2_term x y0 l)
           \<and> vaddvq_f32 b0' + vaddvq_f32 b1' = (\<Sum>l<i'. l2_term x y1 l)"
      by (rule pair_loop8) (use 1 in \<open>simp_all add: hsum_simps sum8\<close>)
    then obtain i1 a0 a1 b0 b1 where L1: "loop_le 8 (d - 8) 8
             (\<lambda>i (d0_0, d0_1, d1_0, d1_1).
                (l2_mla_xy x y0 i d0_0, l2_mla_xy x y0 (i + 4) d0_1,
                 l2_mla_xy x y1 i d1_0, l2_mla_xy x y1 (i + 4) d1_1))
             (l2_mul_xy x y0 0, l2_mul_xy x y0 4, l2_mul_xy x y1 0, l2_mul_xy x y1 4) = (i1, a0, a1, b0, b1)"
      and I1: "i1 \<le> d" "vaddvq_f32 a0 + vaddvq_f32 a1 = (\<Sum>l<i1. l2_term x y0 l)"
        "vaddvq_f32 b0 + vaddvq_f32 b1 = (\<Sum>l<i1. l2_term x y1 l)" by blast
    have "\<exists>i' a' b'.
           loop_le i1 (d - 4) 4 (\<lambda>i (d0_0, d1_0). (l2_mla_xy x y0 i d0_0, l2_mla_xy x y1 i d1_0)) (a0, b0) = (i', a', b')
           \<and> i' \<le> d
           \<and> vaddvq_f32 a' + vaddvq_f32 a1 = (\<Sum>l<i'. l2_term x y0 l)
           \<and> vaddvq_f32 b' + vaddvq_f32 b1 = (\<Sum>l<i'. l2_term x y1 l)"
      by (rule pair_loop4) (use 1 I1 in \<open>simp_all add: hsum_simps\<close>)
    then obtain i2 a' b' where L2: "loop_le i1 (d - 4) 4
             (\<lambda>i (d0_0, d1_0). (l2_mla_xy x y0 i d0_0, l2_mla_xy x y1 i d1_0)) (a0, b0) = (i2, a', b')"
      and I2: "i2 \<le> d" "vaddvq_f32 a' + vaddvq_f32 a1 = (\<Sum>l<i2. l2_term x y0 l)"
        "vaddvq_f32 b' + vaddvq_f32 b1 = (\<Sum>l<i2. l2_term x y1 l)" by blast
    have "snd (loop_lt i2 d 1
               (\<lambda>i (dis0, dis1).
                  let tmp0 = x i - y0 i; tmp1 = x i - y1 i
                  in (dis0 + tmp0 * tmp0, dis1 + tmp1 * tmp1))
               (vaddvq_f32 (vaddq_f32 a' a1), vaddvq_f32 (vaddq_f32 b' b1))) = (L2sqr_ref x y0 d, L2sqr_ref x y1 d)"
      by (rule l2_pair_tail) (use I2 in \<open>simp_all add: hsum_simps\<close>)
    then show ?thesis unfolding L2sqr_idx_batch2_res_def using 1 L1 L2 by (simp add: Let_def)
  next
    case 2
    have L: "loop_le 4 (d - 4) 4 body s = (4, s)" for body :: "nat \<Rightarrow> float32x4_t \<times> float32x4_t \<Rightarrow> float32x4_t \<times> float32x4_t" and s
    proof -
      have "\<not> 4 \<le> d - 4" using 2 by linarith
      then show ?thesis by (subst loop_le.simps) simp
    qed
    have "snd (loop_lt 4 d 1
               (\<lambda>i (dis0, dis1).
                  let tmp0 = x i - y0 i; tmp1 = x i - y1 i
                  in (dis0 + tmp0 * tmp0, dis1 + tmp1 * tmp1))
               (vaddvq_f32 (l2_mul_xy x y0 0), vaddvq_f32 (l2_mul_xy x y1 0))) = (L2sqr_ref x y0 d, L2sqr_ref x y1 d)"
      by (rule l2_pair_tail) (use 2 in \<open>simp_all add: hsum_simps sum_chunk4_0\<close>)
    then show ?thesis unfolding L2sqr_idx_batch2_res_def using 2 by (simp add: Let_def L)
  next
    case 3
    have "snd (loop_lt 0 d 1
               (\<lambda>i (dis0, dis1).
                  let tmp0 = x i - y0 i; tmp1 = x i - y1 i
                  in (dis0 + tmp0 * tmp0, dis1 + tmp1 * tmp1))
               (0, 0)) = (L2sqr_ref x y0 d, L2sqr_ref x y1 d)"
      by (rule l2_pair_tail) simp_all
    then show ?thesis unfolding L2sqr_idx_batch2_res_def using 3 by (simp add: Let_def)
  qed
qed

lemma L2sqr_batch2_res_eq:
  "L2sqr_batch2_res x y d = (L2sqr_ref x y d, L2sqr_ref x (ptr_add y d) d)"
proof (cases "8 \<le> d")
  case True
  have "\<exists>i' a0' a1' b0' b1'.
         loop_le 8 (d - 8) 8
           (\<lambda>i (d0_0, d0_1, d1_0, d1_1).
              (l2_mla_xy x y i d0_0, l2_mla_xy x y (i + 4) d0_1,
               l2_mla_xy x (ptr_add y d) i d1_0, l2_mla_xy x (ptr_add y d) (i + 4) d1_1))
           (l2_mul_xy x y 0, l2_mul_xy x y 4, l2_mul_xy x (ptr_add y d) 0, l2_mul_xy x (ptr_add y d) 4) = (i', a0', a1', b0', b1') \<and> i' \<le> d
         \<and> vaddvq_f32 a0' + vaddvq_f32 a1' = (\<Sum>l<i'. l2_term x y l)
         \<and> vaddvq_f32 b0' + vaddvq_f32 b1' = (\<Sum>l<i'. l2_term x (ptr_add y d) l)"
    by (rule pair_loop8) (use True in \<open>simp_all add: hsum_simps sum8\<close>)
  then obtain i1 a0 a1 b0 b1 where L1: "loop_le 8 (d - 8) 8
           (\<lambda>i (d0_0, d0_1, d1_0, d1_1).
              (l2_mla_xy x y i d0_0, l2_mla_xy x y (i + 4) d0_1,
               l2_mla_xy x (ptr_add y d) i d1_0, l2_mla_xy x (ptr_add y d) (i + 4) d1_1))
           (l2_mul_xy x y 0, l2_mul_xy x y 4, l2_mul_xy x (ptr_add y d) 0, l2_mul_xy x (ptr_add y d) 4) = (i1, a0, a1, b0, b1)"
    and I1: "i1 \<le> d" "vaddvq_f32 a0 + vaddvq_f32 a1 = (\<Sum>l<i1. l2_term x y l)"
      "vaddvq_f32 b0 + vaddvq_f32 b1 = (\<Sum>l<i1. l2_term x (ptr_add y d) l)" by blast
  have "snd (loop_lt i1 d 1
             (\<lambda>i (dis0, dis1).
                let tmp0 = x i - y i; tmp1 = x i - ptr_add y d i
                in (dis0 + tmp0 * tmp0, dis1 + tmp1 * tmp1))
             (vaddvq_f32 (vaddq_f32 a0 a1), vaddvq_f32 (vaddq_f32 b0 b1))) = (L2sqr_ref x y d, L2sqr_ref x (ptr_add y d) d)"
    by (rule l2_pair_tail) (use I1 in \<open>simp_all add: hsum_simps\<close>)
  then show ?thesis unfolding L2sqr_batch2_res_def using True L1 by (simp add: Let_def ptr_add_def)
next
  case False
  have "snd (loop_lt 0 d 1
             (\<lambda>i (dis0, dis1).
                let tmp0 = x i - y i; tmp1 = x i - ptr_add y d i
                in (dis0 + tmp0 * tmp0, dis1 + tmp1 * tmp1))
             (0, 0)) = (L2sqr_ref x y d, L2sqr_ref x (ptr_add y d) d)"
    by (rule l2_pair_tail) simp_all
  then show ?thesis unfolding L2sqr_batch2_res_def using False by (simp add: Let_def ptr_add_def)
qed

lemma ip_idx_batch2_res_eq:
  "ip_idx_batch2_res x y0 y1 d = (ip_ref x y0 d, ip_ref x y1 d)"
proof (cases "8 \<le> d")
  case True
  have "\<exists>i' a0' a1' b0' b1'.
         loop_le 8 (d - 8) 8
           (\<lambda>i (d0_0, d0_1, d1_0, d1_1).
              (ip_mla_xy x y0 i d0_0, ip_mla_xy x y0 (i + 4) d0_1,
               ip_mla_xy x y1 i d1_0, ip_mla_xy x y1 (i + 4) d1_1))
           (ip_mul_xy x y0 0, ip_mul_xy x y0 4, ip_mul_xy x y1 0, ip_mul_xy x y1 4) = (i', a0', a1', b0', b1') \<and> i' \<le> d
         \<and> vaddvq_f32 a0' + vaddvq_f32 a1' = (\<Sum>l<i'. ip_term x y0 l)
         \<and> vaddvq_f32 b0' + vaddvq_f32 b1' = (\<Sum>l<i'. ip_term x y1 l)"
    by (rule pair_loop8) (use True in \<open>simp_all add: hsum_simps sum8\<close>)
  then obtain i1 a0 a1 b0 b1 where L1: "loop_le 8 (d - 8) 8
           (\<lambda>i (d0_0, d0_1, d1_0, d1_1).
              (ip_mla_xy x y0 i d0_0, ip_mla_xy x y0 (i + 4) d0_1,
               ip_mla_xy x y1 i d1_0, ip_mla_xy x y1 (i + 4) d1_1))
           (ip_mul_xy x y0 0, ip_mul_xy x y0 4, ip_mul_xy x y1 0, ip_mul_xy x y1 4) = (i1, a0, a1, b0, b1)"
    and I1: "i1 \<le> d" "vaddvq_f32 a0 + vaddvq_f32 a1 = (\<Sum>l<i1. ip_term x y0 l)"
      "vaddvq_f32 b0 + vaddvq_f32 b1 = (\<Sum>l<i1. ip_term x y1 l)" by blast
  have "snd (loop_lt i1 d 1
             (\<lambda>i (dis0, dis1).
                let tmp0 = x i * y0 i; tmp1 = x i * y1 i
                in (dis0 + tmp0, dis1 + tmp1))
             (vaddvq_f32 (vaddq_f32 a0 a1), vaddvq_f32 (vaddq_f32 b0 b1))) = (ip_ref x y0 d, ip_ref x y1 d)"
    by (rule ip_pair_tail) (use I1 in \<open>simp_all add: hsum_simps\<close>)
  then show ?thesis unfolding ip_idx_batch2_res_def using True L1 by (simp add: Let_def)
next
  case False
  have "snd (loop_lt 0 d 1
             (\<lambda>i (dis0, dis1).
                let tmp0 = x i * y0 i; tmp1 = x i * y1 i
                in (dis0 + tmp0, dis1 + tmp1))
             (0, 0)) = (ip_ref x y0 d, ip_ref x y1 d)"
    by (rule ip_pair_tail) simp_all
  then show ?thesis unfolding ip_idx_batch2_res_def using False by (simp add: Let_def)
qed


section \<open>The batch entry points fill the output slot by slot\<close>

subsection \<open>Bit tests and chunk arithmetic\<close>

lemma nat_and_1: "((n::nat) AND 1 \<noteq> 0) = (n mod 2 = 1)"
  by (simp add: and_one_eq)

lemma nat_and_2: "((n::nat) AND 2 \<noteq> 0) = (2 \<le> n mod 4)"
proof -
  have "(n AND 2 ^ 1 \<noteq> 0) = bit n 1" by (simp only: and_exp_eq_0_iff_not_bit) simp
  also have "\<dots> = odd (n div 2)" by (simp add: bit_iff_odd)
  also have "\<dots> = (2 \<le> n mod 4)" by presburger
  finally show ?thesis by simp
qed

lemma nat_and_4: "((n::nat) AND 4 \<noteq> 0) = (4 \<le> n mod 8)"
proof -
  have "(n AND 2 ^ 2 \<noteq> 0) = bit n 2" by (simp only: and_exp_eq_0_iff_not_bit) simp
  also have "\<dots> = odd (n div 4)" by (simp add: bit_iff_odd)
  also have "\<dots> = (4 \<le> n mod 8)" by presburger
  finally show ?thesis by simp
qed

lemma nat_and_8: "((n::nat) AND 8 \<noteq> 0) = (8 \<le> n mod 16)"
proof -
  have "(n AND 2 ^ 3 \<noteq> 0) = bit n 3" by (simp only: and_exp_eq_0_iff_not_bit) simp
  also have "\<dots> = odd (n div 8)" by (simp add: bit_iff_odd)
  also have "\<dots> = (8 \<le> n mod 16)" by presburger
  finally show ?thesis by simp
qed

lemma bit_step:
  fixes ny na nb mm ml b w :: nat
  assumes "na + mm = ny" and "mm = w * b + ml" and "b < 2" and "ml < w"
    and "nb = (if w \<le> mm then na + w else na)"
  shows "nb + ml = ny"
proof (cases "b = 0")
  case True
  with assms show ?thesis by simp
next
  case False
  with assms(3) have "b = 1" by simp
  with assms show ?thesis by simp
qed

lemma step_and_4:
  fixes ny :: nat
  assumes "n1 + ny mod 8 = ny" and "n2 = (if ny AND 4 \<noteq> 0 then n1 + 4 else n1)"
  shows "n2 + ny mod 4 = ny"
proof (rule bit_step[where w=4 and b="ny div 4 mod 2" and mm="ny mod 8" and na=n1])
  show "ny mod 8 = 4 * (ny div 4 mod 2) + ny mod 4"
    using mod_mult2_eq[of ny 4 2] by simp
qed (use assms[unfolded nat_and_4] in simp_all)

lemma step_and_2:
  fixes ny :: nat
  assumes "n2 + ny mod 4 = ny" and "n3 = (if ny AND 2 \<noteq> 0 then n2 + 2 else n2)"
  shows "n3 + ny mod 2 = ny"
proof (rule bit_step[where w=2 and b="ny div 2 mod 2" and mm="ny mod 4" and na=n2])
  show "ny mod 4 = 2 * (ny div 2 mod 2) + ny mod 2"
    using mod_mult2_eq[of ny 2 2] by simp
qed (use assms[unfolded nat_and_2] in simp_all)

lemma step_and_8:
  fixes ny :: nat
  assumes "n1 = (if ny AND 8 \<noteq> 0 then ny - ny mod 16 + 8 else ny - ny mod 16)"
  shows "n1 + ny mod 8 = ny"
proof (rule bit_step[where w=8 and b="ny div 8 mod 2" and mm="ny mod 16" and na="ny - ny mod 16"])
  show "ny mod 16 = 8 * (ny div 8 mod 2) + ny mod 8"
    using mod_mult2_eq[of ny 8 2] by simp
  show "ny - ny mod 16 + ny mod 16 = ny" by simp
qed (use assms[unfolded nat_and_8] in simp_all)

lemma step_24:
  fixes ny :: nat
  assumes "n1 = (if ny - ny mod 24 + 16 \<le> ny then ny - ny mod 24 + 16
                 else if ny - ny mod 24 + 8 \<le> ny then ny - ny mod 24 + 8 else ny - ny mod 24)"
  shows "n1 + ny mod 8 = ny"
proof -
  define c where "c = ny div 8 mod 3"
  define m8 where "m8 = ny mod 8"
  define n0 where "n0 = ny - ny mod 24"
  have r: "ny mod 24 = 8 * c + m8"
    using mod_mult2_eq[of ny 8 3] by (simp add: c_def m8_def)
  have c: "c < 3" and m: "m8 < 8" by (simp_all add: c_def m8_def)
  have n0: "n0 + (8 * c + m8) = ny" unfolding n0_def r[symmetric] by simp
  have n1: "n1 = (if n0 + 16 \<le> ny then n0 + 16 else if n0 + 8 \<le> ny then n0 + 8 else n0)"
    using assms by (simp add: n0_def)
  consider "c = 0" | "c = 1" | "c = 2" using c by linarith
  then have "n1 + m8 = ny"
  proof cases
    case 1 then show ?thesis using n0 n1 m by simp
  next
    case 2 then show ?thesis using n0 n1 m by simp
  next
    case 3 then show ?thesis using n0 n1 m by simp
  qed
  then show ?thesis by (simp add: m8_def)
qed

lemma last_slot:
  fixes ny :: nat
  assumes "n3 + ny mod 2 = ny"
  shows "ny AND 1 \<noteq> 0 \<Longrightarrow> n3 = ny - 1 \<and> n3 + 1 = ny" and "\<not> ny AND 1 \<noteq> 0 \<Longrightarrow> n3 = ny"
  using assms unfolding nat_and_1 by presburger+

subsection \<open>Stores\<close>

lemma outbuf_eqI:
  fixes b b' :: outbuf
  assumes "\<And>a. cells b a = cells b' a" and "\<And>a. hits b a = hits b' a"
  shows "b = b'"
  by (rule outbuf.equality) (use assms in \<open>auto simp: fun_eq_iff\<close>)

lemma cells_store_block:
  "cells (store_block buf dis w v) a = (if dis \<le> a \<and> a < dis + w then v (a - dis) else cells buf a)"
  by (simp add: store_block_def)

lemma hits_store_block:
  "hits (store_block buf dis w v) a = (if dis \<le> a \<and> a < dis + w then hits buf a + 1 else hits buf a)"
  by (simp add: store_block_def)

lemma store_block_0 [simp]: "store_block buf dis 0 g = buf"
  by (rule outbuf_eqI) (auto simp: cells_store_block hits_store_block)

lemma store_block_append:
  "store_block (store_block buf dis n g) (dis + n) w (\<lambda>k. g (n + k)) = store_block buf dis (n + w) g"
proof (rule outbuf_eqI)
  fix a
  have "n + (a - (dis + n)) = a - dis" if "dis + n \<le> a" using that by simp
  then show "cells (store_block (store_block buf dis n g) (dis + n) w (\<lambda>k. g (n + k))) a
             = cells (store_block buf dis (n + w) g) a"
    by (auto simp: cells_store_block)
  show "hits (store_block (store_block buf dis n g) (dis + n) w (\<lambda>k. g (n + k))) a
             = hits (store_block buf dis (n + w) g) a"
    by (auto simp: hits_store_block)
qed

lemma store_block_cong:
  "(\<And>k. k < w \<Longrightarrow> v k = v' k) \<Longrightarrow> store_block buf dis w v = store_block buf dis w v'"
  by (rule outbuf_eqI) (auto simp: cells_store_block hits_store_block)

lemma store_block_fill:
  assumes "\<And>k. k < w \<Longrightarrow> v k = g (n + k)"
  shows "store_block (store_block buf dis n g) (dis + n) w v = store_block buf dis (n + w) g"
  using store_block_cong[of w v "\<lambda>k. g (n + k)"] assms by (simp add: store_block_append)

lemma ptr_add_add: "ptr_add (ptr_add y a) b = ptr_add y (a + b)"
  by (simp add: ptr_add_def add.assoc)

lemma loop_fit_rule:
  assumes "P i s" and "\<And>j t. P j t \<Longrightarrow> j + w \<le> n \<Longrightarrow> P (j + w) (body j t)" and "0 < w"
  shows "\<exists>i' s'. loop_fit i n w body s = (i', s') \<and> P i' s' \<and> n < i' + w"
  using assms
proof (induction i n w body s rule: loop_fit.induct)
  case (1 i n w body s)
  show ?case
  proof (cases "i + w \<le> n \<and> 0 < w")
    case True
    then have "P (i + w) (body i s)" using 1(2) 1(3) by blast
    from 1(1)[OF True this 1(3) 1(4)] True show ?thesis by (subst loop_fit.simps) simp
  next
    case False
    then show ?thesis using 1(2) 1(4) by (subst loop_fit.simps) auto
  qed
qed

text \<open>The chunked loop fills the slots below the last multiple of the chunk width.\<close>

lemma loop_fit_fill:
  assumes "\<And>i. body i (store_block buf dis i g) = store_block buf dis (i + w) g" and "0 < w"
  shows "loop_fit 0 ny w body buf = (ny - ny mod w, store_block buf dis (ny - ny mod w) g)"
proof -
  let ?P = "\<lambda>j b. j \<le> ny \<and> w dvd j \<and> b = store_block buf dis j g"
  have "\<exists>i' s'. loop_fit 0 ny w body buf = (i', s') \<and> ?P i' s' \<and> ny < i' + w"
    by (rule loop_fit_rule) (use assms in auto)
  then obtain i' s' where L: "loop_fit 0 ny w body buf = (i', s')" and P: "?P i' s'" and E: "ny < i' + w"
    by blast
  from P obtain q where q: "i' = w * q" by (auto simp: dvd_def)
  have "ny div w = q"
    using P E q assms(2) by (intro div_nat_eqI) (simp_all add: mult.commute)
  then have "i' = ny - ny mod w" using q by (simp add: minus_mod_eq_mult_div)
  with L P show ?thesis by simp
qed

subsection \<open>Each kernel call extends the filled prefix\<close>

lemma fill_L2sqr_batch:
  "krl_L2sqr_batch24 x (ptr_add y (i * d)) d (dis + i) (store_block buf dis i (L2sqr_dense x y d))
     = store_block buf dis (i + 24) (L2sqr_dense x y d)"
  "krl_L2sqr_batch16 x (ptr_add y (i * d)) d (dis + i) (store_block buf dis i (L2sqr_dense x y d))
     = store_block buf dis (i + 16) (L2sqr_dense x y d)"
  "krl_L2sqr_batch8 x (ptr_add y (i * d)) d (dis + i) (store_block buf dis i (L2sqr_dense x y d))
     = store_block buf dis (i + 8) (L2sqr_dense x y d)"
  "krl_L2sqr_batch4 x (ptr_add y (i * d)) d (dis + i) (store_block buf dis i (L2sqr_dense x y d))
     = store_block buf dis (i + 4) (L2sqr_dense x y d)"
  unfolding krl_L2sqr_batch24_def krl_L2sqr_batch16_def krl_L2sqr_batch8_def krl_L2sqr_batch4_def
  by (rule store_block_fill; simp add: L2sqr_regs_single_eq L2sqr_dense_def ptr_add_add algebra_simps)+

lemma fill_L2sqr_batch2:
  "krl_L2sqr_batch2 x (ptr_add y (i * d)) d (dis + i) (store_block buf dis i (L2sqr_dense x y d))
     = store_block buf dis (i + 2) (L2sqr_dense x y d)"
  unfolding krl_L2sqr_batch2_def
proof (rule store_block_fill)
  fix k :: nat assume "k < 2"
  then consider "k = 0" | "k = 1" by linarith
  then show "pair_vals (L2sqr_batch2_res x (ptr_add y (i * d)) d) k = L2sqr_dense x y d (i + k)"
    by cases (simp_all add: pair_vals_def L2sqr_batch2_res_eq L2sqr_dense_def ptr_add_add algebra_simps)
qed

lemma fill_krl_L2sqr:
  assumes "1 \<le> d" and "d \<le> 65535"
  shows "snd (krl_L2sqr (Some x) (Some (ptr_add y (i * d))) d (Some (dis + i)) 1
            (store_block buf dis i (L2sqr_dense x y d)))
         = store_block buf dis (i + 1) (L2sqr_dense x y d)"
proof -
  have "store_block (store_block buf dis i (L2sqr_dense x y d)) (dis + i) 1
          (\<lambda>k. krl_L2sqr_res x (ptr_add y (i * d)) d) = store_block buf dis (i + 1) (L2sqr_dense x y d)"
    by (rule store_block_fill) (simp add: krl_L2sqr_res_eq L2sqr_dense_def)
  then show ?thesis using assms by (simp add: krl_L2sqr_def)
qed

lemma krl_L2sqr_ny_eq:
  assumes "1 \<le> d" and "d \<le> 65535" and "1 \<le> ny" and "ny \<le> 2 ^ 30" and "ny \<le> dis_size"
  shows "krl_L2sqr_ny (Some dis) (Some x) (Some y) ny d dis_size buf
         = (SUCCESS, store_block buf dis ny (L2sqr_dense x y d))"
proof -
  let ?g = "L2sqr_dense x y d"
  let ?F = "\<lambda>n. store_block buf dis n ?g"
  define n0 where "n0 = ny - ny mod 24"
  define n1 where "n1 = (if n0 + 16 \<le> ny then n0 + 16 else if n0 + 8 \<le> ny then n0 + 8 else n0)"
  define n2 where "n2 = (if ny AND 4 \<noteq> 0 then n1 + 4 else n1)"
  define n3 where "n3 = (if ny AND 2 \<noteq> 0 then n2 + 2 else n2)"
  have A1: "n1 + ny mod 8 = ny" by (rule step_24) (simp add: n1_def n0_def)
  have A2: "n2 + ny mod 4 = ny" by (rule step_and_4[OF A1]) (simp add: n2_def)
  have A3: "n3 + ny mod 2 = ny" by (rule step_and_2[OF A2]) (simp add: n3_def)
  have L0: "loop_fit 0 ny 24 (\<lambda>i buf. krl_L2sqr_batch24 x (ptr_add y (i * d)) d (dis + i) buf) buf = (n0, ?F n0)"
    unfolding n0_def by (rule loop_fit_fill) (simp_all add: fill_L2sqr_batch)
  have P1: "(if n0 + 16 \<le> ny then (n0 + 16, krl_L2sqr_batch16 x (ptr_add y (n0 * d)) d (dis + n0) (?F n0))
             else if n0 + 8 \<le> ny then (n0 + 8, krl_L2sqr_batch8 x (ptr_add y (n0 * d)) d (dis + n0) (?F n0))
             else (n0, ?F n0)) = (n1, ?F n1)"
    by (simp add: n1_def fill_L2sqr_batch)
  have P2: "(if ny AND 4 \<noteq> 0 then (n1 + 4, krl_L2sqr_batch4 x (ptr_add y (n1 * d)) d (dis + n1) (?F n1))
             else (n1, ?F n1)) = (n2, ?F n2)"
    by (simp add: n2_def fill_L2sqr_batch)
  have P3: "(if ny AND 2 \<noteq> 0 then krl_L2sqr_batch2 x (ptr_add y (n2 * d)) d (dis + n2) (?F n2) else ?F n2) = ?F n3"
    by (simp add: n3_def fill_L2sqr_batch2)
  have P4: "(if ny AND 1 \<noteq> 0
             then snd (krl_L2sqr (Some x) (Some (ptr_add y ((ny - 1) * d))) d (Some (dis + (ny - 1))) 1 (?F n3))
             else ?F n3) = ?F ny"
  proof (cases "ny AND 1 \<noteq> 0")
    case True
    from last_slot(1)[OF A3 True] have "n3 = ny - 1" "n3 + 1 = ny" by simp_all
    then show ?thesis using True fill_krl_L2sqr[OF assms(1,2), of x y n3 dis buf] by simp
  next
    case False
    from last_slot(2)[OF A3 False] show ?thesis using False by simp
  qed
  have V1: "(d < 1 \<or> d > 65535 \<or> ny < 1 \<or> ny > 2 ^ 30) = False" using assms by auto
  have V2: "(Some x = None \<or> Some y = None \<or> Some dis = None \<or> dis_size < ny) = False"
    using assms by auto
  show ?thesis
    by (simp only: krl_L2sqr_ny_def V1 V2 if_False option.sel Let_def L0 prod.case P1 P2 P3 P4)
qed

lemma fill_ip_batch:
  "krl_inner_product_batch16 x (ptr_add y (i * d)) d (dis + i) (store_block buf dis i (ip_dense x y d))
     = store_block buf dis (i + 16) (ip_dense x y d)"
  "krl_inner_product_batch8 x (ptr_add y (i * d)) d (dis + i) (store_block buf dis i (ip_dense x y d))
     = store_block buf dis (i + 8) (ip_dense x y d)"
  "krl_inner_product_batch4 x (ptr_add y (i * d)) d (dis + i) (store_block buf dis i (ip_dense x y d))
     = store_block buf dis (i + 4) (ip_dense x y d)"
  unfolding krl_inner_product_batch16_def krl_inner_product_batch8_def krl_inner_product_batch4_def
  by (rule store_block_fill; simp add: ip_regs_single_eq ip_dense_def ptr_add_add algebra_simps)+

lemma fill_ip_batch2:
  "krl_inner_product_batch2 x (ptr_add y (i * d)) d (dis + i) (store_block buf dis i (ip_dense x y d))
     = store_block buf dis (i + 2) (ip_dense x y d)"
  unfolding krl_inner_product_batch2_def
proof (rule store_block_fill)
  fix k :: nat assume "k < 2"
  then consider "k = 0" | "k = 1" by linarith
  then show "pair_vals (ip_batch2_res x (ptr_add y (i * d)) d) k = ip_dense x y d (i + k)"
    by cases (simp_all add: pair_vals_def ip_batch2_res_def ip_idx_batch2_res_eq ip_dense_def ptr_add_add algebra_simps)
qed

lemma fill_krl_ipdis:
  assumes "1 \<le> d" and "d \<le> 65535"
  shows "snd (krl_ipdis (Some x) (Some (ptr_add y (i * d))) d (Some (dis + i)) 1
            (store_block buf dis i (ip_dense x y d)))
         = store_block buf dis (i + 1) (ip_dense x y d)"
proof -
  have "store_block (store_block buf dis i (ip_dense x y d)) (dis + i) 1
          (\<lambda>k. krl_ipdis_res x (ptr_add y (i * d)) d) = store_block buf dis (i + 1) (ip_dense x y d)"
    by (rule store_block_fill) (simp add: krl_ipdis_res_eq ip_dense_def)
  then show ?thesis using assms by (simp add: krl_ipdis_def)
qed

lemma krl_inner_product_ny_eq:
  assumes "1 \<le> d" and "d \<le> 65535" and "1 \<le> ny" and "ny \<le> 2 ^ 30" and "ny \<le> dis_size"
  shows "krl_inner_product_ny (Some dis) (Some x) (Some y) ny d dis_size buf
         = (SUCCESS, store_block buf dis ny (ip_dense x y d))"
proof -
  let ?g = "ip_dense x y d"
  let ?F = "\<lambda>n. store_block buf dis n ?g"
  define n0 where "n0 = ny - ny mod 16"
  define n1 where "n1 = (if ny AND 8 \<noteq> 0 then n0 + 8 else n0)"
  define n2 where "n2 = (if ny AND 4 \<noteq> 0 then n1 + 4 else n1)"
  define n3 where "n3 = (if ny AND 2 \<noteq> 0 then n2 + 2 else n2)"
  have A1: "n1 + ny mod 8 = ny" by (rule step_and_8) (simp add: n1_def n0_def)
  have A2: "n2 + ny mod 4 = ny" by (rule step_and_4[OF A1]) (simp add: n2_def)
  have A3: "n3 + ny mod 2 = ny" by (rule step_and_2[OF A2]) (simp add: n3_def)
  have L0: "loop_fit 0 ny 16 (\<lambda>i buf. krl_inner_product_batch16 x (ptr_add y (i * d)) d (dis + i) buf) buf = (n0, ?F n0)"
    unfolding n0_def by (rule loop_fit_fill) (simp_all add: fill_ip_batch)
  have P1: "(if ny AND 8 \<noteq> 0 then (n0 + 8, krl_inner_product_batch8 x (ptr_add y (n0 * d)) d (dis + n0) (?F n0))
             else (n0, ?F n0)) = (n1, ?F n1)"
    by (simp add: n1_def fill_ip_batch)
  have P2: "(if ny AND 4 \<noteq> 0 then (n1 + 4, krl_inner_product_batch4 x (ptr_add y (n1 * d)) d (dis + n1) (?F n1))
             else (n1, ?F n1)) = (n2, ?F n2)"
    by (simp add: n2_def fill_ip_batch)
  have P3: "(if ny AND 2 \<noteq> 0 then krl_inner_product_batch2 x (ptr_add y (n2 * d)) d (dis + n2) (?F n2) else ?F n2) = ?F n3"
    by (simp add: n3_def fill_ip_batch2)
  have P4: "(if ny AND 1 \<noteq> 0
             then snd (krl_ipdis (Some x) (Some (ptr_add y ((ny - 1) * d))) d (Some (dis + (ny - 1))) 1 (?F n3))
             else ?F n3) = ?F ny"
  proof (cases "ny AND 1 \<noteq> 0")
    case True
    from last_slot(1)[OF A3 True] have "n3 = ny - 1" "n3 + 1 = ny" by simp_all
    then show ?thesis using True fill_krl_ipdis[OF assms(1,2), of x y n3 dis buf] by simp
  next
    case False
    from last_slot(2)[OF A3 False] show ?thesis using False by simp
  qed
  have V1: "(d < 1 \<or> d > 65535 \<or> ny < 1 \<or> ny > 2 ^ 30) = False" using assms by auto
  have V2: "(Some x = None \<or> Some y = None \<or> Some dis = None \<or> dis_size < ny) = False"
    using assms by auto
  show ?thesis
    by (simp only: krl_inner_product_ny_def V1 V2 if_False option.sel Let_def L0 prod.case P1 P2 P3 P4)
qed

subsection \<open>By index\<close>

lemma fill_L2sqr_idx:
  "krl_L2sqr_idx_prefetch_batch24 x (listy_at y ids d i) d (dis + i) (store_block buf dis i (L2sqr_gather x y ids d))
     = store_block buf dis (i + 24) (L2sqr_gather x y ids d)"
  "krl_L2sqr_idx_prefetch_batch16 x (listy_at y ids d i) d (dis + i) (store_block buf dis i (L2sqr_gather x y ids d))
     = store_block buf dis (i + 16) (L2sqr_gather x y ids d)"
  "krl_L2sqr_idx_prefetch_batch8 x (listy_at y ids d i) d (dis + i) (store_block buf dis i (L2sqr_gather x y ids d))
     = store_block buf dis (i + 8) (L2sqr_gather x y ids d)"
  "krl_L2sqr_idx_batch4 x (listy_at y ids d i) d (dis + i) (store_block buf dis i (L2sqr_gather x y ids d))
     = store_block buf dis (i + 4) (L2sqr_gather x y ids d)"
  unfolding krl_L2sqr_idx_prefetch_batch24_def krl_L2sqr_idx_prefetch_batch16_def
    krl_L2sqr_idx_prefetch_batch8_def krl_L2sqr_idx_batch4_def
  by (rule store_block_fill;
      simp add: L2sqr_regs_single_eq L2sqr_regs_prefetch_eq L2sqr_regs_prefetch24_eq L2sqr_gather_def listy_at_def)+

lemma fill_L2sqr_idx_batch2:
  "krl_L2sqr_idx_batch2 x (idx_ptr y (ids i) d) (idx_ptr y (ids (i + 1)) d) d (dis + i)
       (store_block buf dis i (L2sqr_gather x y ids d))
     = store_block buf dis (i + 2) (L2sqr_gather x y ids d)"
  unfolding krl_L2sqr_idx_batch2_def
proof (rule store_block_fill)
  fix k :: nat assume "k < 2"
  then consider "k = 0" | "k = 1" by linarith
  then show "pair_vals (L2sqr_idx_batch2_res x (idx_ptr y (ids i) d) (idx_ptr y (ids (i + 1)) d) d) k
             = L2sqr_gather x y ids d (i + k)"
    by cases (simp_all add: pair_vals_def L2sqr_idx_batch2_res_eq L2sqr_gather_def)
qed

lemma fill_krl_L2sqr_idx:
  assumes "1 \<le> d" and "d \<le> 65535"
  shows "snd (krl_L2sqr (Some x) (Some (idx_ptr y (ids i) d)) d (Some (dis + i)) 1
            (store_block buf dis i (L2sqr_gather x y ids d)))
         = store_block buf dis (i + 1) (L2sqr_gather x y ids d)"
proof -
  have "store_block (store_block buf dis i (L2sqr_gather x y ids d)) (dis + i) 1
          (\<lambda>k. krl_L2sqr_res x (idx_ptr y (ids i) d) d) = store_block buf dis (i + 1) (L2sqr_gather x y ids d)"
    by (rule store_block_fill) (simp add: krl_L2sqr_res_eq L2sqr_gather_def)
  then show ?thesis using assms by (simp add: krl_L2sqr_def)
qed

lemma krl_L2sqr_by_idx_eq:
  assumes "1 \<le> d" and "d \<le> 65535" and "1 \<le> ny" and "ny \<le> 2 ^ 30" and "ny \<le> dis_size"
  shows "krl_L2sqr_by_idx (Some dis) (Some x) (Some y) (Some ids) d ny dis_size buf
         = (SUCCESS, store_block buf dis ny (L2sqr_gather x y ids d))"
proof -
  let ?g = "L2sqr_gather x y ids d"
  let ?F = "\<lambda>n. store_block buf dis n ?g"
  define n0 where "n0 = ny - ny mod 24"
  define n1 where "n1 = (if n0 + 16 \<le> ny then n0 + 16 else if n0 + 8 \<le> ny then n0 + 8 else n0)"
  define n2 where "n2 = (if ny AND 4 \<noteq> 0 then n1 + 4 else n1)"
  define n3 where "n3 = (if ny AND 2 \<noteq> 0 then n2 + 2 else n2)"
  have A1: "n1 + ny mod 8 = ny" by (rule step_24) (simp add: n1_def n0_def)
  have A2: "n2 + ny mod 4 = ny" by (rule step_and_4[OF A1]) (simp add: n2_def)
  have A3: "n3 + ny mod 2 = ny" by (rule step_and_2[OF A2]) (simp add: n3_def)
  have L0: "loop_fit 0 ny 24 (\<lambda>i buf. krl_L2sqr_idx_prefetch_batch24 x (listy_at y ids d i) d (dis + i) buf) buf = (n0, ?F n0)"
    unfolding n0_def by (rule loop_fit_fill) (simp_all add: fill_L2sqr_idx)
  have P1: "(if n0 + 16 \<le> ny then (n0 + 16, krl_L2sqr_idx_prefetch_batch16 x (listy_at y ids d n0) d (dis + n0) (?F n0))
             else if n0 + 8 \<le> ny then (n0 + 8, krl_L2sqr_idx_prefetch_batch8 x (listy_at y ids d n0) d (dis + n0) (?F n0))
             else (n0, ?F n0)) = (n1, ?F n1)"
    by (simp add: n1_def fill_L2sqr_idx)
  have P2: "(if ny AND 4 \<noteq> 0 then (n1 + 4, krl_L2sqr_idx_batch4 x (listy_at y ids d n1) d (dis + n1) (?F n1))
             else (n1, ?F n1)) = (n2, ?F n2)"
    by (simp add: n2_def fill_L2sqr_idx)
  have P3: "(if ny AND 2 \<noteq> 0
             then (n2 + 2, krl_L2sqr_idx_batch2 x (idx_ptr y (ids n2) d) (idx_ptr y (ids (n2 + 1)) d) d (dis + n2) (?F n2))
             else (n2, ?F n2)) = (n3, ?F n3)"
    using fill_L2sqr_idx_batch2[of x y ids n2 d dis buf] by (simp add: n3_def)
  have P4: "(if ny AND 1 \<noteq> 0
             then snd (krl_L2sqr (Some x) (Some (idx_ptr y (ids n3) d)) d (Some (dis + n3)) 1 (?F n3))
             else ?F n3) = ?F ny"
  proof (cases "ny AND 1 \<noteq> 0")
    case True
    from last_slot(1)[OF A3 True] have "n3 + 1 = ny" by simp
    then show ?thesis using True fill_krl_L2sqr_idx[OF assms(1,2), of x y ids n3 dis buf] by simp
  next
    case False
    from last_slot(2)[OF A3 False] show ?thesis using False by simp
  qed
  have V1: "(d < 1 \<or> d > 65535 \<or> ny < 1 \<or> ny > 2 ^ 30) = False" using assms by auto
  have V2: "(Some x = None \<or> Some y = None \<or> Some ids = None \<or> Some dis = None \<or> dis_size < ny) = False"
    using assms by auto
  show ?thesis
    by (simp only: krl_L2sqr_by_idx_def V1 V2 if_False option.sel Let_def L0 prod.case P1 P2 P3 P4)
qed

lemma fill_ip_idx:
  "krl_inner_product_idx_prefetch_batch16 x (listy_at y ids d i) d (dis + i) (store_block buf dis i (ip_gather x y ids d))
     = store_block buf dis (i + 16) (ip_gather x y ids d)"
  "krl_inner_product_idx_batch8 x (listy_at y ids d i) d (dis + i) (store_block buf dis i (ip_gather x y ids d))
     = store_block buf dis (i + 8) (ip_gather x y ids d)"
  "krl_inner_product_idx_batch4 x (listy_at y ids d i) d (dis + i) (store_block buf dis i (ip_gather x y ids d))
     = store_block buf dis (i + 4) (ip_gather x y ids d)"
  unfolding krl_inner_product_idx_prefetch_batch16_def krl_inner_product_idx_batch8_def
    krl_inner_product_idx_batch4_def
  by (rule store_block_fill;
      simp add: ip_regs_single_eq ip_regs_prefetch16_eq ip_gather_def listy_at_def)+

lemma fill_ip_idx_batch2:
  "krl_inner_product_idx_batch2 x (idx_ptr y (ids i) d) (idx_ptr y (ids (i + 1)) d) d (dis + i)
       (store_block buf dis i (ip_gather x y ids d))
     = store_block buf dis (i + 2) (ip_gather x y ids d)"
  unfolding krl_inner_product_idx_batch2_def
proof (rule store_block_fill)
  fix k :: nat assume "k < 2"
  then consider "k = 0" | "k = 1" by linarith
  then show "pair_vals (ip_idx_batch2_res x (idx_ptr y (ids i) d) (idx_ptr y (ids (i + 1)) d) d) k
             = ip_gather x y ids d (i + k)"
    by cases (simp_all add: pair_vals_def ip_idx_batch2_res_eq ip_gather_def)
qed

lemma fill_krl_ipdis_idx:
  assumes "1 \<le> d" and "d \<le> 65535"
  shows "snd (krl_ipdis (Some x) (Some (idx_ptr y (ids i) d)) d (Some (dis + i)) 1
            (store_block buf dis i (ip_gather x y ids d)))
         = store_block buf dis (i + 1) (ip_gather x y ids d)"
proof -
  have "store_block (store_block buf dis i (ip_gather x y ids d)) (dis + i) 1
          (\<lambda>k. krl_ipdis_res x (idx_ptr y (ids i) d) d) = store_block buf dis (i + 1) (ip_gather x y ids d)"
    by (rule store_block_fill) (simp add: krl_ipdis_res_eq ip_gather_def)
  then show ?thesis using assms by (simp add: krl_ipdis_def)
qed

lemma krl_inner_product_by_idx_eq:
  assumes "1 \<le> d" and "d \<le> 65535" and "1 \<le> ny" and "ny \<le> 2 ^ 30" and "ny \<le> dis_size"
  shows "krl_inner_product_by_idx (Some dis) (Some x) (Some y) (Some ids) d ny dis_size buf
         = (SUCCESS, store_block buf dis ny (ip_gather x y ids d))"
proof -
  let ?g = "ip_gather x y ids d"
  let ?F = "\<lambda>n. store_block buf dis n ?g"
  define n0 where "n0 = ny - ny mod 16"
  define n1 where "n1 = (if ny AND 8 \<noteq> 0 then n0 + 8 else n0)"
  define n2 where "n2 = (if ny AND 4 \<noteq> 0 then n1 + 4 else n1)"
  define n3 where "n3 = (if ny AND 2 \<noteq> 0 then n2 + 2 else n2)"
  have A1: "n1 + ny mod 8 = ny" by (rule step_and_8) (simp add: n1_def n0_def)
  have A2: "n2 + ny mod 4 = ny" by (rule step_and_4[OF A1]) (simp add: n2_def)
  have A3: "n3 + ny mod 2 = ny" by (rule step_and_2[OF A2]) (simp add: n3_def)
  have L0: "loop_fit 0 ny 16 (\<lambda>i buf. krl_inner_product_idx_prefetch_batch16 x (listy_at y ids d i) d (dis + i) buf) buf = (n0, ?F n0)"
    unfolding n0_def by (rule loop_fit_fill) (simp_all add: fill_ip_idx)
  have P1: "(if ny AND 8 \<noteq> 0 then (n0 + 8, krl_inner_product_idx_batch8 x (listy_at y ids d n0) d (dis + n0) (?F n0))
             else (n0, ?F n0)) = (n1, ?F n1)"
    by (simp add: n1_def fill_ip_idx)
  have P2: "(if ny AND 4 \<noteq> 0 then (n1 + 4, krl_inner_product_idx_batch4 x (listy_at y ids d n1) d (dis + n1) (?F n1))
             else (n1, ?F n1)) = (n2, ?F n2)"
    by (simp add: n2_def fill_ip_idx)
  have P3: "(if ny AND 2 \<noteq> 0
             then (n2 + 2, krl_inner_product_idx_batch2 x (idx_ptr y (ids n2) d) (idx_ptr y (ids (n2 + 1)) d) d (dis + n2) (?F n2))
             else (n2, ?F n2)) = (n3, ?F n3)"
    using fill_ip_idx_batch2[of x y ids n2 d dis buf] by (simp add: n3_def)
  have P4: "(if ny AND 1 \<noteq> 0
             then snd (krl_ipdis (Some x) (Some (idx_ptr y (ids n3) d)) d (Some (dis + n3)) 1 (?F n3))
             else ?F n3) = ?F ny"
  proof (cases "ny AND 1 \<noteq> 0")
    case True
    from last_slot(1)[OF A3 True] have "n3 + 1 = ny" by simp
    then show ?thesis using True fill_krl_ipdis_idx[OF assms(1,2), of x y ids n3 dis buf] by simp
  next
    case False
    from last_slot(2)[OF A3 False] show ?thesis using False by simp
  qed
  have V1: "(d < 1 \<or> d > 65535 \<or> ny < 1 \<or> ny > 2 ^ 30) = False" using assms by auto
  have V2: "(Some x = None \<or> Some y = None \<or> Some ids = None \<or> Some dis = None \<or> dis_size < ny) = False"
    using assms by auto
  show ?thesis
    by (simp only: krl_inner_product_by_idx_def V1 V2 if_False option.sel Let_def L0 prod.case P1 P2 P3 P4)
qed

lemma written_once_store_block: "written_once buf (store_block buf dis n vals) dis n vals"
  by (simp add: written_once_def cells_store_block hits_store_block)


lemma unwritten_refl [simp]: "unwritten buf buf"
  by (simp add: unwritten_def)

section \<open>The transposed kernels and the handle path\<close>

subsection \<open>Each lane of a transposed kernel holds the sum of its vector\<close>











subsection \<open>One query of the remainder path\<close>

lemma loop_fit_fill_dvd:
  assumes "\<And>i. w dvd i \<Longrightarrow> body i (store_block buf dis i g) = store_block buf dis (i + w) g" and "0 < w"
  shows "loop_fit 0 ny w body buf = (ny - ny mod w, store_block buf dis (ny - ny mod w) g)"
proof -
  let ?P = "\<lambda>j b. j \<le> ny \<and> w dvd j \<and> b = store_block buf dis j g"
  have "\<exists>i' s'. loop_fit 0 ny w body buf = (i', s') \<and> ?P i' s' \<and> ny < i' + w"
    by (rule loop_fit_rule) (use assms in auto)
  then obtain i' s' where L: "loop_fit 0 ny w body buf = (i', s')" and P: "?P i' s'" and E: "ny < i' + w"
    by blast
  from P obtain q where q: "i' = w * q" by (auto simp: dvd_def)
  have "ny div w = q"
    using P E q assms(2) by (intro div_nat_eqI) (simp_all add: mult.commute)
  then have "i' = ny - ny mod w" using q by (simp add: minus_mod_eq_mult_div)
  with L P show ?thesis by simp
qed

lemma block_vals_at:
  assumes "B dvd i" and "k < B"
  shows "block_vals B kern x y d (i + k) = kern x (ptr_add y (i * d)) d k"
proof -
  from assms obtain q where q: "i = B * q" by (auto simp: dvd_def)
  have "(i + k) div B = q" using assms(2) q by simp
  moreover have "(i + k) mod B = k" using assms(2) q by simp
  ultimately show ?thesis by (simp add: block_vals_def q mult.commute)
qed

lemma handle_blocks_fill:
  assumes "0 < B"
  shows "loop_fit 0 ny B (\<lambda>i buf. store_block buf (dis + i) B (kern x (ptr_add y (i * d)) d)) buf
         = (ny - ny mod B, store_block buf dis (ny - ny mod B) (block_vals B kern x y d))"
proof (rule loop_fit_fill_dvd)
  fix i assume "B dvd i"
  then show "store_block (store_block buf dis i (block_vals B kern x y d)) (dis + i) B
               (kern x (ptr_add y (i * d)) d)
             = store_block buf dis (i + B) (block_vals B kern x y d)"
    by (intro store_block_fill) (simp add: block_vals_at)
qed (rule assms)

lemma size_t_id: "n < 2 ^ 64 \<Longrightarrow> size_t n = n"
  unfolding size_t_def by (rule mod_less)

lemma size_t_sub:
  assumes "a \<le> b" and "b < 2 ^ 64"
  shows "size_t (b + 2 ^ 64 - size_t a) = b - a"
proof -
  have "a < 2 ^ 64" using assms by (rule le_less_trans)
  then have "size_t a = a" by (rule size_t_id)
  moreover have "b + 2 ^ 64 - a = (b - a) + 2 ^ 64"
    using assms(1) by (rule Nat.add_diff_assoc2[symmetric])
  moreover have "b - a < 2 ^ 64" using assms(2) by (rule less_imp_diff_less)
  ultimately show ?thesis unfolding size_t_def by (simp only: mod_add_self2 mod_less)
qed


text \<open>The remainder path of one query, with the loop over the full blocks resolved.\<close>

lemma handle_query_left_eq:
  assumes "0 < B" and "left * sizeof_float < 2 ^ 64"
  shows "handle_query_left B kern ny d left dis_size m dis x y buf
         = (let i = ny - ny mod B;
                buf1 = store_block buf dis i (block_vals B kern x y d);
                remaining = size_t (dis_size + 2 ^ 64 - size_t (m * ny + i))
            in if remaining < left \<or> size_t (remaining * sizeof_float) < left * sizeof_float
               then (UNSAFEMEM, buf1)
               else (SUCCESS, store_block buf1 (dis + i) left (kern x (ptr_add y (i * d)) d)))"
proof -
  define i where "i = ny - ny mod B"
  define buf1 where "buf1 = store_block buf dis i (block_vals B kern x y d)"
  define remaining where "remaining = size_t (dis_size + 2 ^ 64 - size_t (m * ny + i))"
  define tmp where "tmp = kern x (ptr_add y (i * d)) d"
  define dsz where "dsz = size_t (remaining * sizeof_float)"
  have L: "loop_fit 0 ny B (\<lambda>i buf. store_block buf (dis + i) B (kern x (ptr_add y (i * d)) d)) buf
           = (i, buf1)"
    unfolding i_def buf1_def by (rule handle_blocks_fill[OF assms(1)])
  have sl: "size_t (left * sizeof_float) = left * sizeof_float"
    using assms(2) by (rule size_t_id)
  have dv: "left * sizeof_float div sizeof_float = left" by (simp add: sizeof_float_def)
  have C: "CheckAndMemcpy buf1 (Some (dis + i)) dsz (Some tmp) (left * sizeof_float)
           = (if dsz < left * sizeof_float then (- 1, buf1)
              else (0, store_block buf1 (dis + i) left tmp))"
    by (simp add: CheckAndMemcpy_def dv)
  have "handle_query_left B kern ny d left dis_size m dis x y buf
        = (if remaining < left then (UNSAFEMEM, buf1)
           else (case CheckAndMemcpy buf1 (Some (dis + i)) dsz (Some tmp) (left * sizeof_float) of
                   (ret, buf) \<Rightarrow> if ret \<noteq> 0 then (UNSAFEMEM, buf) else (SUCCESS, buf)))"
    by (simp only: handle_query_left_def L Let_def prod.case remaining_def tmp_def dsz_def sl)
  also have "\<dots> = (if remaining < left \<or> dsz < left * sizeof_float then (UNSAFEMEM, buf1)
                    else (SUCCESS, store_block buf1 (dis + i) left tmp))"
    unfolding C by simp
  finally show ?thesis
    by (simp only: Let_def i_def buf1_def remaining_def tmp_def dsz_def)
qed

lemma handle_query_left_ok:
  assumes "0 < B" and "B \<le> 64" and "left = ny mod B" and "0 < left"
    and "m * ny + ny \<le> dis_size" and "dis_size * sizeof_float < 2 ^ 64"
  shows "handle_query_left B kern ny d left dis_size m dis x y buf
         = (SUCCESS, store_block buf dis ny (block_vals B kern x y d))"
proof -
  define i where "i = ny - ny mod B"
  have l: "left < B" using assms(1,3) by simp
  have "left * sizeof_float < 256" using l assms(2) by (simp add: sizeof_float_def)
  moreover have "(256::nat) \<le> 2 ^ 64" by simp
  ultimately have l64: "left * sizeof_float < 2 ^ 64" by (rule less_le_trans)
  have ny: "i + left = ny" using assms(3) by (simp add: i_def)
  have le: "m * ny + i \<le> dis_size" using assms(5) by (simp add: i_def)
  have "dis_size \<le> dis_size * sizeof_float" by (simp add: sizeof_float_def)
  then have ds: "dis_size < 2 ^ 64" using assms(6) by (rule le_less_trans)
  have rem: "size_t (dis_size + 2 ^ 64 - size_t (m * ny + i)) = dis_size - (m * ny + i)"
    using le ds by (rule size_t_sub)
  have r1: "\<not> dis_size - (m * ny + i) < left" using assms(5) ny by linarith
  have "(dis_size - (m * ny + i)) * sizeof_float \<le> dis_size * sizeof_float" by simp
  then have "(dis_size - (m * ny + i)) * sizeof_float < 2 ^ 64"
    using assms(6) by (rule le_less_trans)
  then have r2: "size_t ((dis_size - (m * ny + i)) * sizeof_float) = (dis_size - (m * ny + i)) * sizeof_float"
    by (rule size_t_id)
  have r3: "\<not> (dis_size - (m * ny + i)) * sizeof_float < left * sizeof_float"
    using r1 by (simp add: sizeof_float_def)
  have dvd: "B dvd i" by (simp add: i_def minus_mod_eq_mult_div)
  have fill: "store_block (store_block buf dis i (block_vals B kern x y d)) (dis + i) left
                (kern x (ptr_add y (i * d)) d)
              = store_block buf dis (i + left) (block_vals B kern x y d)"
  proof (rule store_block_fill)
    fix k assume "k < left"
    then have "k < B" using l by simp
    from block_vals_at[OF dvd this] show "kern x (ptr_add y (i * d)) d k = block_vals B kern x y d (i + k)"
      by simp
  qed
  have "handle_query_left B kern ny d left dis_size m dis x y buf
        = (SUCCESS, store_block (store_block buf dis i (block_vals B kern x y d)) (dis + i) left
                (kern x (ptr_add y (i * d)) d))"
    unfolding handle_query_left_eq[OF assms(1) l64] Let_def i_def[symmetric] rem r2
    using r1 r3 by (simp only: if_False simp_thms)
  then show ?thesis by (simp only: fill ny)
qed

subsection \<open>The loop over the queries\<close>

lemma store_block_join:
  assumes "\<And>a. a < n \<Longrightarrow> g a = h a" and "\<And>k. k < w \<Longrightarrow> v k = h (n + k)"
  shows "store_block (store_block buf dis n g) (dis + n) w v = store_block buf dis (n + w) h"
proof -
  have "store_block buf dis n g = store_block buf dis n h" using assms(1) by (rule store_block_cong)
  then show ?thesis using store_block_fill[of w v h n buf dis] assms(2) by simp
qed

lemma ptr_add_0: "ptr_add x 0 = x"
  by (simp add: ptr_add_def)

lemma handle_vals_first:
  assumes "a < kdh_ny kdh"
  shows "handle_vals B kern kdh x y a = block_vals B kern x y (kdh_d kdh) a"
  using assms by (simp add: handle_vals_def ptr_add_0)

lemma handle_vals_next:
  assumes "0 < kdh_ny kdh"
  shows "handle_vals B kern kdh x y (kdh_ny kdh + k)
         = handle_vals B kern kdh (ptr_add x (kdh_d kdh)) (ptr_add y (kdh_ceil_ny kdh * kdh_d kdh)) k"
proof -
  have "(kdh_ny kdh + k) div kdh_ny kdh = Suc (k div kdh_ny kdh)" using assms by simp
  moreover have "(kdh_ny kdh + k) mod kdh_ny kdh = k mod kdh_ny kdh" by simp
  ultimately show ?thesis by (simp add: handle_vals_def ptr_add_add)
qed

text \<open>
  With room for all \<open>M * ny\<close> results and byte counts that fit \<^verbatim>\<open>size_t\<close>, the loop over
  the queries succeeds and fills the slots from the current one on.
\<close>

lemma handle_left_loop_ok:
  assumes "0 < B" and "B \<le> 64" and "left = kdh_ny kdh mod B" and "0 < left"
    and "kdh_M kdh * kdh_ny kdh \<le> dis_size" and "dis_size * sizeof_float < 2 ^ 64"
    and "m \<le> kdh_M kdh"
  shows "handle_left_loop B kern kdh left dis_size m dis x y buf
         = (SUCCESS, store_block buf dis ((kdh_M kdh - m) * kdh_ny kdh) (handle_vals B kern kdh x y))"
  using assms
proof (induction B kern kdh left dis_size m dis x y buf rule: handle_left_loop.induct)
  case (1 B kern kdh left dis_size m dis x y buf)
  show ?case
  proof (cases "m < kdh_M kdh")
    case False
    then have "kdh_M kdh - m = 0" by simp
    then show ?thesis using False by (subst handle_left_loop.simps) simp
  next
    case True
    define ny where "ny = kdh_ny kdh"
    define buf1 where "buf1 = store_block buf dis ny (block_vals B kern x y (kdh_d kdh))"
    have ny0: "0 < ny" using "1.prems"(3,4) by (cases "ny = 0") (simp_all add: ny_def)
    have "Suc m * ny \<le> kdh_M kdh * ny" using True by (intro mult_le_mono1) simp
    then have room: "m * ny + ny \<le> dis_size" using "1.prems"(5) by (simp add: ny_def)
    have Q: "handle_query_left B kern (kdh_ny kdh) (kdh_d kdh) left dis_size m dis x y buf = (SUCCESS, buf1)"
      unfolding buf1_def ny_def
      using "1.prems"(1,2,3,4) room[unfolded ny_def] "1.prems"(6) by (rule handle_query_left_ok)
    have m1: "m + 1 \<le> kdh_M kdh" using True by simp
    have IH: "handle_left_loop B kern kdh left dis_size (m + 1) (dis + kdh_ny kdh)
                (ptr_add x (kdh_d kdh)) (ptr_add y (kdh_ceil_ny kdh * kdh_d kdh)) buf1
              = (SUCCESS, store_block buf1 (dis + kdh_ny kdh) ((kdh_M kdh - (m + 1)) * kdh_ny kdh)
                   (handle_vals B kern kdh (ptr_add x (kdh_d kdh)) (ptr_add y (kdh_ceil_ny kdh * kdh_d kdh))))"
    proof (rule "1.IH"[OF True Q[symmetric] _ "1.prems"(1,2,3,4,5,6) m1])
      show "\<not> SUCCESS \<noteq> SUCCESS" by simp
    qed
    have J: "store_block buf1 (dis + ny) ((kdh_M kdh - (m + 1)) * ny)
               (handle_vals B kern kdh (ptr_add x (kdh_d kdh)) (ptr_add y (kdh_ceil_ny kdh * kdh_d kdh)))
             = store_block buf dis (ny + (kdh_M kdh - (m + 1)) * ny) (handle_vals B kern kdh x y)"
      unfolding buf1_def
    proof (rule store_block_join)
      fix a assume "a < ny"
      then show "block_vals B kern x y (kdh_d kdh) a = handle_vals B kern kdh x y a"
        by (simp add: handle_vals_first ny_def)
    next
      fix k
      show "handle_vals B kern kdh (ptr_add x (kdh_d kdh)) (ptr_add y (kdh_ceil_ny kdh * kdh_d kdh)) k
            = handle_vals B kern kdh x y (ny + k)"
        using ny0 by (simp add: handle_vals_next ny_def)
    qed
    have "ny + (kdh_M kdh - (m + 1)) * ny = (kdh_M kdh - m) * ny"
    proof -
      have "kdh_M kdh - m = Suc (kdh_M kdh - (m + 1))" using True by simp
      then show ?thesis by simp
    qed
    with J have J': "store_block buf1 (dis + kdh_ny kdh) ((kdh_M kdh - (m + 1)) * kdh_ny kdh)
               (handle_vals B kern kdh (ptr_add x (kdh_d kdh)) (ptr_add y (kdh_ceil_ny kdh * kdh_d kdh)))
             = store_block buf dis ((kdh_M kdh - m) * kdh_ny kdh) (handle_vals B kern kdh x y)"
      by (simp add: ny_def)
    show ?thesis
      by (subst handle_left_loop.simps) (simp only: True if_True Q prod.case simp_thms if_False IH J')
  qed
qed

lemma nat_and_15: "(n::nat) AND 15 = n mod 16"
proof -
  have "n AND mask 4 = n mod 2 ^ 4" by (simp flip: take_bit_eq_mask add: take_bit_eq_mod)
  moreover have "mask 4 = (15::nat)" by (simp add: mask_eq_exp_minus_1)
  ultimately show ?thesis by simp
qed

lemma nat_and_31: "(n::nat) AND 31 = n mod 32"
proof -
  have "n AND mask 5 = n mod 2 ^ 5" by (simp flip: take_bit_eq_mask add: take_bit_eq_mod)
  moreover have "mask 5 = (31::nat)" by (simp add: mask_eq_exp_minus_1)
  ultimately show ?thesis by simp
qed

lemma nat_and_63: "(n::nat) AND 63 = n mod 64"
proof -
  have "n AND mask 6 = n mod 2 ^ 6" by (simp flip: take_bit_eq_mask add: take_bit_eq_mod)
  moreover have "mask 6 = (63::nat)" by (simp add: mask_eq_exp_minus_1)
  ultimately show ?thesis by simp
qed

lemma blocksize_mask:
  "size_t (16 + 2 ^ 64 - 1) = 15" "size_t (32 + 2 ^ 64 - 1) = 31" "size_t (64 + 2 ^ 64 - 1) = 63"
  by (simp_all add: size_t_def)

text \<open>Past the validation, a call goes to the case of its block size with \<open>left = ny mod B\<close>.\<close>

lemma ny_with_handle_case:
  assumes "kdh_data_bits kdh = 32"
    and "kdh_blocksize kdh = B"
    and "B = 16 \<and> kern = mini \<or> B = 32 \<and> kern = medium \<or> B = 64 \<and> kern = large"
    and "size_t (kdh_M kdh * kdh_ny kdh) \<le> dis_size"
    and "size_t (kdh_d kdh * kdh_M kdh) \<le> x_size"
  shows "ny_with_handle mini medium large (Some kdh) (Some dis) (Some x) dis_size x_size buf
         = handle_case B kern kdh (kdh_ny kdh mod B) dis_size dis x (kdh_transposed_codes kdh) buf"
proof -
  have V: "(dis_size < size_t (kdh_M kdh * kdh_ny kdh) \<or> x_size < size_t (kdh_d kdh * kdh_M kdh)) = False"
    using assms(4,5) by (simp add: not_less)
  from assms(3) show ?thesis
    by (elim disjE conjE)
       (simp_all only: ny_with_handle_def V assms(1) assms(2)[symmetric] option.sel Let_def
          blocksize_mask nat_and_15 nat_and_31 nat_and_63 simp_thms if_True if_False option.simps
          num.simps numeral_eq_iff refl)
qed

text \<open>With those sizes every call on a supported block size succeeds.\<close>

lemma ny_with_handle_ok:
  assumes "kdh_data_bits kdh = 32" and "kdh_blocksize kdh \<in> {16, 32, 64}"
    and "kdh_M kdh * kdh_ny kdh \<le> dis_size" and "dis_size * sizeof_float < 2 ^ 64"
    and "size_t (kdh_d kdh * kdh_M kdh) \<le> x_size"
  shows "fst (ny_with_handle mini medium large (Some kdh) (Some dis) (Some x) dis_size x_size buf) = SUCCESS"
proof -
  define B where "B = kdh_blocksize kdh"
  from assms(2) obtain kern where
    k: "B = 16 \<and> kern = mini \<or> B = 32 \<and> kern = medium \<or> B = 64 \<and> kern = large"
    unfolding B_def by auto
  then have B: "0 < B" "B \<le> 64" by auto
  have "dis_size \<le> dis_size * sizeof_float" by (simp add: sizeof_float_def)
  with assms(3) have "kdh_M kdh * kdh_ny kdh \<le> dis_size * sizeof_float" by (rule le_trans)
  then have "kdh_M kdh * kdh_ny kdh < 2 ^ 64" using assms(4) by (rule le_less_trans)
  then have "size_t (kdh_M kdh * kdh_ny kdh) = kdh_M kdh * kdh_ny kdh" by (rule size_t_id)
  then have v: "size_t (kdh_M kdh * kdh_ny kdh) \<le> dis_size" using assms(3) by simp
  have E: "ny_with_handle mini medium large (Some kdh) (Some dis) (Some x) dis_size x_size buf
           = handle_case B kern kdh (kdh_ny kdh mod B) dis_size dis x (kdh_transposed_codes kdh) buf"
    using assms(1) B_def[symmetric] k v assms(5) by (rule ny_with_handle_case)
  show ?thesis
  proof (cases "kdh_ny kdh mod B = 0")
    case True
    then show ?thesis unfolding E by (simp add: handle_case_def)
  next
    case False
    then have "0 < kdh_ny kdh mod B" by simp
    from handle_left_loop_ok[OF B refl this assms(3,4), of 0 kern dis x "kdh_transposed_codes kdh" buf]
    show ?thesis unfolding E using False by (simp add: handle_case_def)
  qed
qed

subsection \<open>The handle path on the block-transposed layout\<close>








section \<open>Rounded and exact arithmetic\<close>

text \<open>With the identity for the rounding, a kernel with rounded arithmetic is the kernel.\<close>

lemma vsubq_f32_rnd_exact [simp, rnd_exact]: "vsubq_f32_rnd (\<lambda>v. v) = vsubq_f32"
proof (intro ext)
  fix a b show "vsubq_f32_rnd (\<lambda>v. v) a b = vsubq_f32 a b" by (cases a; cases b) simp
qed

lemma vaddq_f32_rnd_exact [simp, rnd_exact]: "vaddq_f32_rnd (\<lambda>v. v) = vaddq_f32"
proof (intro ext)
  fix a b show "vaddq_f32_rnd (\<lambda>v. v) a b = vaddq_f32 a b" by (cases a; cases b) simp
qed

lemma vmulq_f32_rnd_exact [simp, rnd_exact]: "vmulq_f32_rnd (\<lambda>v. v) = vmulq_f32"
proof (intro ext)
  fix a b show "vmulq_f32_rnd (\<lambda>v. v) a b = vmulq_f32 a b" by (cases a; cases b) simp
qed

lemma vmlaq_f32_rnd_exact [simp, rnd_exact]: "vmlaq_f32_rnd (\<lambda>v. v) = vmlaq_f32"
proof (intro ext)
  fix a b c show "vmlaq_f32_rnd (\<lambda>v. v) a b c = vmlaq_f32 a b c" by (cases a; cases b; cases c) simp
qed

lemma vaddvq_f32_rnd_exact [simp, rnd_exact]: "vaddvq_f32_rnd (\<lambda>v. v) = vaddvq_f32"
proof (intro ext)
  fix a show "vaddvq_f32_rnd (\<lambda>v. v) a = vaddvq_f32 a" by (cases a) simp
qed

lemma l2_mul_xy_rnd_exact [simp, rnd_exact]: "l2_mul_xy_rnd (\<lambda>v. v) = l2_mul_xy"
  by (intro ext) (simp only: l2_mul_xy_rnd_def l2_mul_xy_def rnd_exact)

lemma l2_mla_xy_rnd_exact [simp, rnd_exact]: "l2_mla_xy_rnd (\<lambda>v. v) = l2_mla_xy"
  by (intro ext) (simp only: l2_mla_xy_rnd_def l2_mla_xy_def rnd_exact)

lemma l2_mul_yx_rnd_exact [simp, rnd_exact]: "l2_mul_yx_rnd (\<lambda>v. v) = l2_mul_yx"
  by (intro ext) (simp only: l2_mul_yx_rnd_def l2_mul_yx_def rnd_exact)

lemma l2_mla_yx_rnd_exact [simp, rnd_exact]: "l2_mla_yx_rnd (\<lambda>v. v) = l2_mla_yx"
  by (intro ext) (simp only: l2_mla_yx_rnd_def l2_mla_yx_def rnd_exact)

lemma ip_mul_xy_rnd_exact [simp, rnd_exact]: "ip_mul_xy_rnd (\<lambda>v. v) = ip_mul_xy"
  by (intro ext) (simp only: ip_mul_xy_rnd_def ip_mul_xy_def rnd_exact)

lemma ip_mla_xy_rnd_exact [simp, rnd_exact]: "ip_mla_xy_rnd (\<lambda>v. v) = ip_mla_xy"
  by (intro ext) (simp only: ip_mla_xy_rnd_def ip_mla_xy_def rnd_exact)

lemma ip_mul_yx_rnd_exact [simp, rnd_exact]: "ip_mul_yx_rnd (\<lambda>v. v) = ip_mul_yx"
  by (intro ext) (simp only: ip_mul_yx_rnd_def ip_mul_yx_def rnd_exact)

lemma ip_mla_yx_rnd_exact [simp, rnd_exact]: "ip_mla_yx_rnd (\<lambda>v. v) = ip_mla_yx"
  by (intro ext) (simp only: ip_mla_yx_rnd_def ip_mla_yx_def rnd_exact)

lemma l2_scalar_loop_rnd_exact [simp, rnd_exact]: "l2_scalar_loop_rnd (\<lambda>v. v) = l2_scalar_loop"
  by (intro ext) (simp only: l2_scalar_loop_rnd_def l2_scalar_loop_def rnd_exact)

lemma ip_scalar_loop_rnd_exact [simp, rnd_exact]: "ip_scalar_loop_rnd (\<lambda>v. v) = ip_scalar_loop"
  by (intro ext) (simp only: ip_scalar_loop_rnd_def ip_scalar_loop_def rnd_exact)

lemma krl_L2sqr_res_rnd_exact [simp, rnd_exact]: "krl_L2sqr_res_rnd (\<lambda>v. v) = krl_L2sqr_res"
  by (intro ext) (simp only: krl_L2sqr_res_rnd_def krl_L2sqr_res_def rnd_exact)

lemma krl_L2sqr_rnd_exact [simp, rnd_exact]: "krl_L2sqr_rnd (\<lambda>v. v) = krl_L2sqr"
  by (intro ext) (simp only: krl_L2sqr_rnd_def krl_L2sqr_def rnd_exact)

lemma krl_ipdis_res_rnd_exact [simp, rnd_exact]: "krl_ipdis_res_rnd (\<lambda>v. v) = krl_ipdis_res"
  by (intro ext) (simp only: krl_ipdis_res_rnd_def krl_ipdis_res_def rnd_exact)

lemma krl_ipdis_rnd_exact [simp, rnd_exact]: "krl_ipdis_rnd (\<lambda>v. v) = krl_ipdis"
  by (intro ext) (simp only: krl_ipdis_rnd_def krl_ipdis_def rnd_exact)

lemma l2_regs_mul_rnd_exact [simp, rnd_exact]: "l2_regs_mul_rnd (\<lambda>v. v) = l2_regs_mul"
  by (intro ext) (simp only: l2_regs_mul_rnd_def l2_regs_mul_def rnd_exact)

lemma l2_regs_mla_rnd_exact [simp, rnd_exact]: "l2_regs_mla_rnd (\<lambda>v. v) = l2_regs_mla"
  by (intro ext) (simp only: l2_regs_mla_rnd_def l2_regs_mla_def rnd_exact)

lemma ip_regs_mul_rnd_exact [simp, rnd_exact]: "ip_regs_mul_rnd (\<lambda>v. v) = ip_regs_mul"
  by (intro ext) (simp only: ip_regs_mul_rnd_def ip_regs_mul_def rnd_exact)

lemma ip_regs_mla_rnd_exact [simp, rnd_exact]: "ip_regs_mla_rnd (\<lambda>v. v) = ip_regs_mla"
  by (intro ext) (simp only: ip_regs_mla_rnd_def ip_regs_mla_def rnd_exact)

lemma l2_regs_tail_rnd_exact [simp, rnd_exact]: "l2_regs_tail_rnd (\<lambda>v. v) = l2_regs_tail"
  by (intro ext) (simp only: l2_regs_tail_rnd_def l2_regs_tail_def rnd_exact)

lemma ip_regs_tail_rnd_exact [simp, rnd_exact]: "ip_regs_tail_rnd (\<lambda>v. v) = ip_regs_tail"
  by (intro ext) (simp only: ip_regs_tail_rnd_def ip_regs_tail_def rnd_exact)

lemma L2sqr_regs_single_rnd_exact [simp, rnd_exact]: "L2sqr_regs_single_rnd (\<lambda>v. v) = L2sqr_regs_single"
  by (intro ext) (simp only: L2sqr_regs_single_rnd_def L2sqr_regs_single_def rnd_exact)

lemma L2sqr_batch2_res_rnd_exact [simp, rnd_exact]: "L2sqr_batch2_res_rnd (\<lambda>v. v) = L2sqr_batch2_res"
  by (intro ext) (simp only: L2sqr_batch2_res_rnd_def L2sqr_batch2_res_def rnd_exact)

lemma ip_regs_single_rnd_exact [simp, rnd_exact]: "ip_regs_single_rnd (\<lambda>v. v) = ip_regs_single"
  by (intro ext) (simp only: ip_regs_single_rnd_def ip_regs_single_def rnd_exact)

lemma ip_idx_batch2_res_rnd_exact [simp, rnd_exact]: "ip_idx_batch2_res_rnd (\<lambda>v. v) = ip_idx_batch2_res"
  by (intro ext) (simp only: ip_idx_batch2_res_rnd_def ip_idx_batch2_res_def rnd_exact)

lemma ip_batch2_res_rnd_exact [simp, rnd_exact]: "ip_batch2_res_rnd (\<lambda>v. v) = ip_batch2_res"
  by (intro ext) (simp only: ip_batch2_res_rnd_def ip_batch2_res_def rnd_exact)

lemma krl_L2sqr_batch2_rnd_exact [simp, rnd_exact]: "krl_L2sqr_batch2_rnd (\<lambda>v. v) = krl_L2sqr_batch2"
  by (intro ext) (simp only: krl_L2sqr_batch2_rnd_def krl_L2sqr_batch2_def rnd_exact)

lemma krl_L2sqr_batch4_rnd_exact [simp, rnd_exact]: "krl_L2sqr_batch4_rnd (\<lambda>v. v) = krl_L2sqr_batch4"
  by (intro ext) (simp only: krl_L2sqr_batch4_rnd_def krl_L2sqr_batch4_def rnd_exact)

lemma krl_L2sqr_batch8_rnd_exact [simp, rnd_exact]: "krl_L2sqr_batch8_rnd (\<lambda>v. v) = krl_L2sqr_batch8"
  by (intro ext) (simp only: krl_L2sqr_batch8_rnd_def krl_L2sqr_batch8_def rnd_exact)

lemma krl_L2sqr_batch16_rnd_exact [simp, rnd_exact]: "krl_L2sqr_batch16_rnd (\<lambda>v. v) = krl_L2sqr_batch16"
  by (intro ext) (simp only: krl_L2sqr_batch16_rnd_def krl_L2sqr_batch16_def rnd_exact)

lemma krl_L2sqr_batch24_rnd_exact [simp, rnd_exact]: "krl_L2sqr_batch24_rnd (\<lambda>v. v) = krl_L2sqr_batch24"
  by (intro ext) (simp only: krl_L2sqr_batch24_rnd_def krl_L2sqr_batch24_def rnd_exact)

lemma krl_inner_product_batch2_rnd_exact [simp, rnd_exact]: "krl_inner_product_batch2_rnd (\<lambda>v. v) = krl_inner_product_batch2"
  by (intro ext) (simp only: krl_inner_product_batch2_rnd_def krl_inner_product_batch2_def rnd_exact)

lemma krl_inner_product_batch4_rnd_exact [simp, rnd_exact]: "krl_inner_product_batch4_rnd (\<lambda>v. v) = krl_inner_product_batch4"
  by (intro ext) (simp only: krl_inner_product_batch4_rnd_def krl_inner_product_batch4_def rnd_exact)

lemma krl_inner_product_batch8_rnd_exact [simp, rnd_exact]: "krl_inner_product_batch8_rnd (\<lambda>v. v) = krl_inner_product_batch8"
  by (intro ext) (simp only: krl_inner_product_batch8_rnd_def krl_inner_product_batch8_def rnd_exact)

lemma krl_inner_product_batch16_rnd_exact [simp, rnd_exact]: "krl_inner_product_batch16_rnd (\<lambda>v. v) = krl_inner_product_batch16"
  by (intro ext) (simp only: krl_inner_product_batch16_rnd_def krl_inner_product_batch16_def rnd_exact)

lemma krl_L2sqr_ny_rnd_exact [simp, rnd_exact]: "krl_L2sqr_ny_rnd (\<lambda>v. v) = krl_L2sqr_ny"
  by (intro ext) (simp only: krl_L2sqr_ny_rnd_def krl_L2sqr_ny_def rnd_exact)

lemma krl_inner_product_ny_rnd_exact [simp, rnd_exact]: "krl_inner_product_ny_rnd (\<lambda>v. v) = krl_inner_product_ny"
  by (intro ext) (simp only: krl_inner_product_ny_rnd_def krl_inner_product_ny_def rnd_exact)

lemma krl_L2sqr_continuous_transpose_large_kernel_rnd_exact [simp, rnd_exact]: "krl_L2sqr_continuous_transpose_large_kernel_rnd (\<lambda>v. v) = krl_L2sqr_continuous_transpose_large_kernel"
  by (intro ext) (simp only: krl_L2sqr_continuous_transpose_large_kernel_rnd_def krl_L2sqr_continuous_transpose_large_kernel_def rnd_exact)

lemma L2sqr_transpose_pipelined_rnd_exact [simp, rnd_exact]: "L2sqr_transpose_pipelined_rnd (\<lambda>v. v) = L2sqr_transpose_pipelined"
  by (intro ext) (simp only: L2sqr_transpose_pipelined_rnd_def L2sqr_transpose_pipelined_def rnd_exact)

lemma krl_L2sqr_continuous_transpose_medium_kernel_rnd_exact [simp, rnd_exact]: "krl_L2sqr_continuous_transpose_medium_kernel_rnd (\<lambda>v. v) = krl_L2sqr_continuous_transpose_medium_kernel"
  by (intro ext) (simp only: krl_L2sqr_continuous_transpose_medium_kernel_rnd_def krl_L2sqr_continuous_transpose_medium_kernel_def rnd_exact)

lemma krl_L2sqr_continuous_transpose_mini_kernel_rnd_exact [simp, rnd_exact]: "krl_L2sqr_continuous_transpose_mini_kernel_rnd (\<lambda>v. v) = krl_L2sqr_continuous_transpose_mini_kernel"
  by (intro ext) (simp only: krl_L2sqr_continuous_transpose_mini_kernel_rnd_def krl_L2sqr_continuous_transpose_mini_kernel_def rnd_exact)

lemma ip_transpose_rnd_exact [simp, rnd_exact]: "ip_transpose_rnd (\<lambda>v. v) = ip_transpose"
  by (intro ext) (simp only: ip_transpose_rnd_def ip_transpose_def rnd_exact)

lemma krl_inner_product_continuous_transpose_large_kernel_rnd_exact [simp, rnd_exact]: "krl_inner_product_continuous_transpose_large_kernel_rnd (\<lambda>v. v) = krl_inner_product_continuous_transpose_large_kernel"
  by (intro ext) (simp only: krl_inner_product_continuous_transpose_large_kernel_rnd_def krl_inner_product_continuous_transpose_large_kernel_def rnd_exact)

lemma krl_inner_product_continuous_transpose_medium_kernel_rnd_exact [simp, rnd_exact]: "krl_inner_product_continuous_transpose_medium_kernel_rnd (\<lambda>v. v) = krl_inner_product_continuous_transpose_medium_kernel"
  by (intro ext) (simp only: krl_inner_product_continuous_transpose_medium_kernel_rnd_def krl_inner_product_continuous_transpose_medium_kernel_def rnd_exact)

lemma krl_inner_product_continuous_transpose_mini_kernel_rnd_exact [simp, rnd_exact]: "krl_inner_product_continuous_transpose_mini_kernel_rnd (\<lambda>v. v) = krl_inner_product_continuous_transpose_mini_kernel"
  by (intro ext) (simp only: krl_inner_product_continuous_transpose_mini_kernel_rnd_def krl_inner_product_continuous_transpose_mini_kernel_def rnd_exact)

lemma krl_L2sqr_ny_with_handle_rnd_exact [simp, rnd_exact]: "krl_L2sqr_ny_with_handle_rnd (\<lambda>v. v) = krl_L2sqr_ny_with_handle"
  by (intro ext) (simp only: krl_L2sqr_ny_with_handle_rnd_def krl_L2sqr_ny_with_handle_def rnd_exact)

lemma krl_inner_product_ny_with_handle_rnd_exact [simp, rnd_exact]: "krl_inner_product_ny_with_handle_rnd (\<lambda>v. v) = krl_inner_product_ny_with_handle"
  by (intro ext) (simp only: krl_inner_product_ny_with_handle_rnd_def krl_inner_product_ny_with_handle_def rnd_exact)

text \<open>The naive loops in exact arithmetic are the reference sums.\<close>

lemma ip_naive_exact: "ip_naive (\<lambda>v. v) x y d = ip_ref x y d"
  by (induction d) (simp_all add: ip_ref_def)

lemma L2sqr_naive_exact: "L2sqr_naive (\<lambda>v. v) x y d = L2sqr_ref x y d"
  by (induction d) (simp_all add: L2sqr_ref_def)





text \<open>Evaluation of the rounding and of the naive loop on numerals.\<close>

lemma ulp_search_numeral [simp]:
  "ulp_search (numeral k) a q =
     (if 2 ^ 24 * q \<le> a then ulp_search (pred_numeral k) a (2 * q)
      else if a < 2 ^ 23 * q \<and> 1 / 2 ^ 149 < q then ulp_search (pred_numeral k) a (q / 2)
      else q)"
  by (simp add: numeral_eq_Suc)

lemma ip_naive_numeral [simp]:
  "ip_naive rnd x y (numeral k)
   = rnd (ip_naive rnd x y (pred_numeral k) + rnd (x (pred_numeral k) * y (pred_numeral k)))"
  by (simp add: numeral_eq_Suc)

lemma L2sqr_naive_numeral [simp]:
  "L2sqr_naive rnd x y (numeral k)
   = rnd (L2sqr_naive rnd x y (pred_numeral k)
          + rnd (rnd (x (pred_numeral k) - y (pred_numeral k)) * rnd (x (pred_numeral k) - y (pred_numeral k))))"
  by (simp add: numeral_eq_Suc)


section \<open>Where no size wraps\<close>

text \<open>
  The capacity checks of the entry points do what they are written for as long as the
  \<^verbatim>\<open>size_t\<close> products and differences they compute do not wrap. A call with too small
  an output buffer is rejected and writes nothing.
\<close>

lemma undersized_buffer_rejected:
  "(dis_size < ny \<longrightarrow>
       snd (krl_L2sqr_ny dis x y ny d dis_size buf) = buf
     \<and> fst (krl_L2sqr_ny dis x y ny d dis_size buf) \<in> {INVALPOINTER, INVALPARAM}
     \<and> snd (krl_inner_product_ny dis x y ny d dis_size buf) = buf
     \<and> fst (krl_inner_product_ny dis x y ny d dis_size buf) \<in> {INVALPOINTER, INVALPARAM}
     \<and> snd (krl_L2sqr_by_idx dis x yi ids d ny dis_size buf) = buf
     \<and> fst (krl_L2sqr_by_idx dis x yi ids d ny dis_size buf) \<in> {INVALPOINTER, INVALPARAM}
     \<and> snd (krl_inner_product_by_idx dis x yi ids d ny dis_size buf) = buf
     \<and> fst (krl_inner_product_by_idx dis x yi ids d ny dis_size buf) \<in> {INVALPOINTER, INVALPARAM})
 \<and> (dis_size < kdh_M kdh * kdh_ny kdh \<and> kdh_M kdh * kdh_ny kdh < 2 ^ 64 \<longrightarrow>
       snd (krl_L2sqr_ny_with_handle (Some kdh) dis x dis_size x_size buf) = buf
     \<and> fst (krl_L2sqr_ny_with_handle (Some kdh) dis x dis_size x_size buf) \<in> {INVALPOINTER, INVALPARAM}
     \<and> snd (krl_inner_product_ny_with_handle (Some kdh) dis x dis_size x_size buf) = buf
     \<and> fst (krl_inner_product_ny_with_handle (Some kdh) dis x dis_size x_size buf) \<in> {INVALPOINTER, INVALPARAM})"
  by (auto simp: krl_L2sqr_ny_def krl_inner_product_ny_def
      krl_L2sqr_by_idx_def krl_inner_product_by_idx_def krl_L2sqr_ny_with_handle_def
      krl_inner_product_ny_with_handle_def ny_with_handle_def size_t_def Let_def)

text \<open>
  One query of the remainder path, \<open>left = ny mod B\<close> not zero: the status is
  \<^verbatim>\<open>UNSAFEMEM\<close> when the remaining capacity that the code computes is below \<open>left\<close>,
  and then only the slots of the full blocks have been written; with \<^verbatim>\<open>SUCCESS\<close> the
  \<open>ny\<close> slots of the query have each been written once, the tail holding the first
  \<open>left\<close> elements of the scratch buffer.
\<close>

lemma remainder_path_scratch_then_bounded_copy:
  assumes "B \<in> {16, 32, 64}" and "left = ny mod B" and "left \<noteq> 0"
  shows "(let i = ny - left;
              scratch = kern x (ptr_add y (i * d)) d;
              remaining = size_t (dis_size + 2 ^ 64 - size_t (m * ny + i));
              r = handle_query_left B kern ny d left dis_size m dis x y buf
          in (remaining < left \<longrightarrow> fst r = UNSAFEMEM)
           \<and> (left \<le> remaining \<and> remaining * sizeof_float < 2 ^ 64 \<longrightarrow> fst r = SUCCESS)
           \<and> (fst r = UNSAFEMEM \<or> fst r = SUCCESS)
           \<and> (fst r = UNSAFEMEM \<longrightarrow> written_once buf (snd r) dis i (block_vals B kern x y d))
           \<and> (fst r = SUCCESS \<longrightarrow>
                written_once buf (snd r) dis ny
                  (\<lambda>j. if j < i then block_vals B kern x y d j else scratch (j - i))))"
proof -
  define i where "i = ny - left"
  define scratch where "scratch = kern x (ptr_add y (i * d)) d"
  define remaining where "remaining = size_t (dis_size + 2 ^ 64 - size_t (m * ny + i))"
  define buf1 where "buf1 = store_block buf dis i (block_vals B kern x y d)"
  define r where "r = handle_query_left B kern ny d left dis_size m dis x y buf"
  have B: "0 < B" "B \<le> 64" using assms(1) by auto
  have l: "left < B" using B(1) assms(2) by simp
  have "left * sizeof_float < 256" using l B(2) by (simp add: sizeof_float_def)
  moreover have "(256::nat) \<le> 2 ^ 64" by simp
  ultimately have l64: "left * sizeof_float < 2 ^ 64" by (rule less_le_trans)
  have ny: "i + left = ny" using assms(2) by (simp add: i_def)
  have r: "r = (if remaining < left \<or> size_t (remaining * sizeof_float) < left * sizeof_float
                then (UNSAFEMEM, buf1)
                else (SUCCESS, store_block buf1 (dis + i) left scratch))"
    unfolding r_def handle_query_left_eq[OF B(1) l64] Let_def
    by (simp only: i_def assms(2) scratch_def remaining_def buf1_def)
  have ne: "UNSAFEMEM \<noteq> SUCCESS" by (simp add: UNSAFEMEM_def SUCCESS_def)
  have fill: "store_block buf1 (dis + i) left scratch
              = store_block buf dis ny (\<lambda>j. if j < i then block_vals B kern x y d j else scratch (j - i))"
    unfolding buf1_def ny[symmetric] by (rule store_block_join) simp_all
  have c1: "remaining < left \<longrightarrow> fst r = UNSAFEMEM" by (simp add: r)
  have c2: "left \<le> remaining \<and> remaining * sizeof_float < 2 ^ 64 \<longrightarrow> fst r = SUCCESS"
  proof (intro impI, elim conjE)
    assume a: "left \<le> remaining" and b: "remaining * sizeof_float < 2 ^ 64"
    have "size_t (remaining * sizeof_float) = remaining * sizeof_float" using b by (rule size_t_id)
    moreover have "\<not> remaining * sizeof_float < left * sizeof_float" using a by (simp add: sizeof_float_def)
    moreover have "\<not> remaining < left" using a by simp
    ultimately show "fst r = SUCCESS" by (simp only: r simp_thms if_False fst_conv)
  qed
  have c3: "fst r = UNSAFEMEM \<or> fst r = SUCCESS" by (simp add: r)
  have c4: "fst r = UNSAFEMEM \<longrightarrow> written_once buf (snd r) dis i (block_vals B kern x y d)"
    using ne by (auto simp: r buf1_def written_once_store_block)
  have c5: "fst r = SUCCESS \<longrightarrow>
              written_once buf (snd r) dis ny
                (\<lambda>j. if j < i then block_vals B kern x y d j else scratch (j - i))"
    using ne by (auto simp: r fill written_once_store_block)
  from c1 c2 c3 c4 c5 show ?thesis
    by (simp only: Let_def i_def[symmetric] scratch_def[symmetric] remaining_def[symmetric] r_def[symmetric] simp_thms)
qed

text \<open>
  With \<open>M * ny \<le> dis_size\<close> and a capacity whose byte count fits \<^verbatim>\<open>size_t\<close>, both handle
  entry points return \<^verbatim>\<open>SUCCESS\<close>.
\<close>

lemma handle_succeeds_when_byte_counts_fit:
  assumes "kdh_data_bits kdh = 32" and "kdh_blocksize kdh \<in> {16, 32, 64}"
    and "kdh_M kdh * kdh_ny kdh \<le> dis_size" and "dis_size * sizeof_float < 2 ^ 64"
    and "size_t (kdh_d kdh * kdh_M kdh) \<le> x_size"
  shows "fst (krl_L2sqr_ny_with_handle (Some kdh) (Some dis) (Some x) dis_size x_size buf) = SUCCESS
         \<and> fst (krl_inner_product_ny_with_handle (Some kdh) (Some dis) (Some x) dis_size x_size buf) = SUCCESS"
  unfolding krl_L2sqr_ny_with_handle_def krl_inner_product_ny_with_handle_def
  using assms by (intro conjI ny_with_handle_ok)



section \<open>The claims\<close>

text \<open>
  C1. For every dimension \<open>d\<close> from 1 to 65535, every \<open>ny\<close> from 1 to \<open>2^30\<close>,
  non-null pointers and \<open>dis_size \<ge> ny\<close>, the four batch entry points
  \<^verbatim>\<open>krl_L2sqr_ny\<close>, \<^verbatim>\<open>krl_inner_product_ny\<close>, \<^verbatim>\<open>krl_L2sqr_by_idx\<close> and
  \<^verbatim>\<open>krl_inner_product_by_idx\<close> return \<open>SUCCESS\<close> and write each of the slots
  \<^verbatim>\<open>dis[0] .. dis[ny-1]\<close> exactly once and no other cell of the output memory, slot
  \<open>i\<close> receiving the distance for base vector \<open>i\<close> (the vector \<^verbatim>\<open>ids[i]\<close> for the
  by-index entry points). A write is the store of a slot by one kernel call: the
  kernel calls of a batch call cover \<open>0 .. ny-1\<close> without overlap and without gap.
  The witness is the example \<open>d = 1\<close>, \<open>ny = 3\<close>, \<open>x = [5]\<close>, \<open>y = [0, 5, 10]\<close>:
  \<^verbatim>\<open>krl_L2sqr_ny\<close> leaves \<open>[25, 0, 25]\<close>, each slot written once, the cell after
  them never.
\<close>

theorem batch_entry_points_write_each_slot_once:
  assumes "1 \<le> d" and "d \<le> 65535" and "1 \<le> ny" and "ny \<le> 2 ^ 30" and "ny \<le> dis_size"
  shows "fst (krl_L2sqr_ny (Some dis) (Some x) (Some y) ny d dis_size buf) = SUCCESS
       \<and> written_once buf (snd (krl_L2sqr_ny (Some dis) (Some x) (Some y) ny d dis_size buf)) dis ny
            (L2sqr_dense x y d)
       \<and> fst (krl_inner_product_ny (Some dis) (Some x) (Some y) ny d dis_size buf) = SUCCESS
       \<and> written_once buf (snd (krl_inner_product_ny (Some dis) (Some x) (Some y) ny d dis_size buf)) dis ny
            (ip_dense x y d)
       \<and> fst (krl_L2sqr_by_idx (Some dis) (Some x) (Some yi) (Some ids) d ny dis_size buf) = SUCCESS
       \<and> written_once buf (snd (krl_L2sqr_by_idx (Some dis) (Some x) (Some yi) (Some ids) d ny dis_size buf))
            dis ny (L2sqr_gather x yi ids d)
       \<and> fst (krl_inner_product_by_idx (Some dis) (Some x) (Some yi) (Some ids) d ny dis_size buf) = SUCCESS
       \<and> written_once buf
            (snd (krl_inner_product_by_idx (Some dis) (Some x) (Some yi) (Some ids) d ny dis_size buf))
            dis ny (ip_gather x yi ids d)"
  using assms
  by (simp add: krl_L2sqr_ny_eq krl_inner_product_ny_eq krl_L2sqr_by_idx_eq krl_inner_product_by_idx_eq
      written_once_store_block)

theorem batch_entry_points_write_each_slot_once_witness:
  "(1::nat) \<le> 1 \<and> (1::nat) \<le> 65535 \<and> (1::nat) \<le> 3 \<and> (3::nat) \<le> 2 ^ 30 \<and> (3::nat) \<le> 3
   \<and> fst (krl_L2sqr_ny (Some 0) (Some (float_array [5])) (Some (float_array [0, 5, 10])) 3 1 3 fresh_buf) = SUCCESS
   \<and> map (cells (snd (krl_L2sqr_ny (Some 0) (Some (float_array [5])) (Some (float_array [0, 5, 10])) 3 1 3 fresh_buf)))
        [0, 1, 2] = [25, 0, 25]
   \<and> map (hits (snd (krl_L2sqr_ny (Some 0) (Some (float_array [5])) (Some (float_array [0, 5, 10])) 3 1 3 fresh_buf)))
        [0, 1, 2, 3] = [1, 1, 1, 0]"
proof -
  let ?B = "snd (krl_L2sqr_ny (Some 0) (Some (float_array [5])) (Some (float_array [0, 5, 10])) 3 1 3 fresh_buf)"
  from batch_entry_points_write_each_slot_once[of 1 3 3 0 "float_array [5]" "float_array [0, 5, 10]" fresh_buf
      "\<lambda>a. 0" "\<lambda>j. 0"]
  have S: "fst (krl_L2sqr_ny (Some 0) (Some (float_array [5])) (Some (float_array [0, 5, 10])) 3 1 3 fresh_buf) = SUCCESS"
    and W: "written_once fresh_buf ?B 0 3 (L2sqr_dense (float_array [5]) (float_array [0, 5, 10]) 1)"
    by simp_all
  have g: "L2sqr_dense (float_array [5]) (float_array [0, 5, 10]) 1 0 = 25"
    "L2sqr_dense (float_array [5]) (float_array [0, 5, 10]) 1 1 = 0"
    "L2sqr_dense (float_array [5]) (float_array [0, 5, 10]) 1 2 = 25"
    by (simp_all add: L2sqr_dense_def L2sqr_ref_def float_array_def ptr_add_def)
  from W[unfolded written_once_def, THEN spec, of 0] W[unfolded written_once_def, THEN spec, of 1]
    W[unfolded written_once_def, THEN spec, of 2] W[unfolded written_once_def, THEN spec, of 3] g S
  show ?thesis by (simp add: fresh_buf_def)
qed









text \<open>
  C5, as stated, fails for the handle entry points. The claim reads: for every entry
  point, a call with \<open>d = 0\<close>, \<open>d = 65536\<close> or \<open>ny = 0\<close> returns \<open>INVALPARAM\<close>, a
  call with a null required pointer returns \<open>INVALPOINTER\<close>, and every such call
  leaves the output buffer unmodified. \<^verbatim>\<open>krl_L2sqr_ny_with_handle\<close> and
  \<^verbatim>\<open>krl_inner_product_ny_with_handle\<close> take \<open>d\<close> and \<open>ny\<close> from the handle and check
  neither: with a handle whose \<open>d\<close> is 0 the call returns \<open>SUCCESS\<close> and writes the
  output.
\<close>

theorem handle_entry_accepts_zero_dimension:
  "fst (krl_L2sqr_ny_with_handle
          (Some \<lparr>kdh_metric_type = 1, kdh_data_bits = 32, kdh_M = 1, kdh_blocksize = 16, kdh_d = 0,
             kdh_ny = 16, kdh_ceil_ny = 16, kdh_transposed_codes = float_array []\<rparr>)
          (Some 0) (Some (float_array [])) 16 0 fresh_buf) = SUCCESS
   \<and> hits (snd (krl_L2sqr_ny_with_handle
          (Some \<lparr>kdh_metric_type = 1, kdh_data_bits = 32, kdh_M = 1, kdh_blocksize = 16, kdh_d = 0,
             kdh_ny = 16, kdh_ceil_ny = 16, kdh_transposed_codes = float_array []\<rparr>)
          (Some 0) (Some (float_array [])) 16 0 fresh_buf)) 0 = 1"
  by (simp add: krl_L2sqr_ny_with_handle_def ny_with_handle_def Let_def size_t_def handle_case_def
      handle_full_loop_def loop_lt.simps hits_store_block fresh_buf_def SUCCESS_def)

text \<open>
  C5, amended. For the entry points that take \<open>d\<close> as an argument
  (\<^verbatim>\<open>krl_L2sqr\<close>, \<^verbatim>\<open>krl_ipdis\<close> and the four batch entry points), a call with
  \<open>d = 0\<close> or \<open>d = 65536\<close>, or with \<open>ny = 0\<close> where there is an \<open>ny\<close>, returns
  \<open>INVALPARAM\<close>; a call with \<open>d\<close> and \<open>ny\<close> in range and a null required pointer
  returns \<open>INVALPOINTER\<close>; the handle entry points return \<open>INVALPOINTER\<close> for a null
  handle, output or query pointer. Each of these calls returns the output memory it
  was given.
\<close>

theorem validation_short_circuit:
  "(d = 0 \<or> d = 65536 \<longrightarrow>
       krl_L2sqr x y d dis dis_size buf = (INVALPARAM, buf)
     \<and> krl_ipdis x y d dis dis_size buf = (INVALPARAM, buf))
 \<and> (d = 0 \<or> d = 65536 \<or> ny = 0 \<longrightarrow>
       krl_L2sqr_ny dis x y ny d dis_size buf = (INVALPARAM, buf)
     \<and> krl_inner_product_ny dis x y ny d dis_size buf = (INVALPARAM, buf)
     \<and> krl_L2sqr_by_idx dis x yi ids d ny dis_size buf = (INVALPARAM, buf)
     \<and> krl_inner_product_by_idx dis x yi ids d ny dis_size buf = (INVALPARAM, buf))
 \<and> (1 \<le> d \<and> d \<le> 65535 \<and> (x = None \<or> y = None \<or> dis = None) \<longrightarrow>
       krl_L2sqr x y d dis dis_size buf = (INVALPOINTER, buf)
     \<and> krl_ipdis x y d dis dis_size buf = (INVALPOINTER, buf))
 \<and> (1 \<le> d \<and> d \<le> 65535 \<and> 1 \<le> ny \<and> ny \<le> 2 ^ 30 \<and> (x = None \<or> y = None \<or> dis = None) \<longrightarrow>
       krl_L2sqr_ny dis x y ny d dis_size buf = (INVALPOINTER, buf)
     \<and> krl_inner_product_ny dis x y ny d dis_size buf = (INVALPOINTER, buf))
 \<and> (1 \<le> d \<and> d \<le> 65535 \<and> 1 \<le> ny \<and> ny \<le> 2 ^ 30
        \<and> (x = None \<or> yi = None \<or> ids = None \<or> dis = None) \<longrightarrow>
       krl_L2sqr_by_idx dis x yi ids d ny dis_size buf = (INVALPOINTER, buf)
     \<and> krl_inner_product_by_idx dis x yi ids d ny dis_size buf = (INVALPOINTER, buf))
 \<and> (kdh = None \<or> dis = None \<or> x = None \<longrightarrow>
       krl_L2sqr_ny_with_handle kdh dis x dis_size x_size buf = (INVALPOINTER, buf)
     \<and> krl_inner_product_ny_with_handle kdh dis x dis_size x_size buf = (INVALPOINTER, buf))"
  by (auto simp: krl_L2sqr_def krl_ipdis_def krl_L2sqr_ny_def krl_inner_product_ny_def
      krl_L2sqr_by_idx_def krl_inner_product_by_idx_def krl_L2sqr_ny_with_handle_def
      krl_inner_product_ny_with_handle_def ny_with_handle_def)

theorem validation_short_circuit_witness:
  "krl_L2sqr (Some (float_array [5])) (Some (float_array [0])) 0 (Some 0) 1 fresh_buf = (INVALPARAM, fresh_buf)
   \<and> krl_L2sqr_ny (Some 0) (Some (float_array [5])) (Some (float_array [0, 5, 10])) 3 65536 3 fresh_buf
       = (INVALPARAM, fresh_buf)
   \<and> krl_inner_product_by_idx (Some 0) (Some (float_array [5])) (Some (\<lambda>a. 0)) (Some int) 1 0 3 fresh_buf
       = (INVALPARAM, fresh_buf)
   \<and> krl_ipdis None (Some (float_array [0])) 1 (Some 0) 1 fresh_buf = (INVALPOINTER, fresh_buf)
   \<and> krl_L2sqr_ny None (Some (float_array [5])) (Some (float_array [0, 5, 10])) 3 1 3 fresh_buf
       = (INVALPOINTER, fresh_buf)
   \<and> krl_L2sqr_by_idx (Some 0) (Some (float_array [5])) (Some (\<lambda>a. 0)) None 1 3 3 fresh_buf
       = (INVALPOINTER, fresh_buf)
   \<and> krl_L2sqr_ny_with_handle None (Some 0) (Some (float_array [5])) 3 1 fresh_buf = (INVALPOINTER, fresh_buf)"
proof -
  note a = validation_short_circuit[of 0 "Some (float_array [5])" "Some (float_array [0])" "Some 0" 1 fresh_buf
      3 "Some (\<lambda>a. 0)" "Some int" None 1]
  note b = validation_short_circuit[of 65536 "Some (float_array [5])" "Some (float_array [0, 5, 10])" "Some 0" 3
      fresh_buf 3 "Some (\<lambda>a. 0)" "Some int" None 1]
  note c = validation_short_circuit[of 1 "Some (float_array [5])" "Some (float_array [0, 5, 10])" "Some 0" 3
      fresh_buf 0 "Some (\<lambda>a. 0)" "Some int" None 1]
  note e = validation_short_circuit[of 1 None "Some (float_array [0])" "Some 0" 1 fresh_buf
      3 "Some (\<lambda>a. 0)" "Some int" None 1]
  note f = validation_short_circuit[of 1 "Some (float_array [5])" "Some (float_array [0, 5, 10])" None 3
      fresh_buf 3 "Some (\<lambda>a. 0)" "Some int" None 1]
  note g = validation_short_circuit[of 1 "Some (float_array [5])" "Some (float_array [0, 5, 10])" "Some 0" 3
      fresh_buf 3 "Some (\<lambda>a. 0)" None None 1]
  from a b c e f g show ?thesis by simp
qed

text \<open>
  C6. The claim reads: every dense or by-index call with \<open>dis_size < ny\<close> and every
  handle call with \<open>dis_size < M * ny\<close> returns \<open>INVALPOINTER\<close> or \<open>INVALPARAM\<close> and
  writes nothing. The entry points test exactly this before anything else, and where
  the product \<open>M * ny\<close> is below \<open>2^64\<close> the call is rejected
  (\<open>undersized_buffer_rejected\<close>). The handle entry points compute the product in
  \<^verbatim>\<open>size_t\<close> without a guard, and the test is defeated when it wraps: with
  \<open>M = 2^63\<close> and \<open>ny = 18\<close> the product is 0 in 64 bits, a buffer of 16 slots passes
  \<^verbatim>\<open>dis_size < M * ny\<close>, the first block of 16 results is written and the call
  returns \<open>UNSAFEMEM\<close>.
\<close>

theorem handle_overflow_bypasses_capacity_check:
  "(16::nat) < 2 ^ 63 * 18
   \<and> fst (krl_L2sqr_ny_with_handle
          (Some \<lparr>kdh_metric_type = 1, kdh_data_bits = 32, kdh_M = 2 ^ 63, kdh_blocksize = 16, kdh_d = 2,
             kdh_ny = 18, kdh_ceil_ny = 32, kdh_transposed_codes = float_array []\<rparr>)
          (Some 0) (Some (float_array [])) 16 0 fresh_buf) = UNSAFEMEM
   \<and> hits (snd (krl_L2sqr_ny_with_handle
          (Some \<lparr>kdh_metric_type = 1, kdh_data_bits = 32, kdh_M = 2 ^ 63, kdh_blocksize = 16, kdh_d = 2,
             kdh_ny = 18, kdh_ceil_ny = 32, kdh_transposed_codes = float_array []\<rparr>)
          (Some 0) (Some (float_array [])) 16 0 fresh_buf)) 0 = 1"
  by (simp add: krl_L2sqr_ny_with_handle_def ny_with_handle_def Let_def size_t_def handle_case_def
      handle_left_loop.simps handle_query_left_def loop_fit.simps hits_store_block fresh_buf_def
      SUCCESS_def UNSAFEMEM_def)

text \<open>
  C7. For every handle whose \<^verbatim>\<open>data_bits\<close> is not 32 (16 and 8 among them),
  \<^verbatim>\<open>krl_L2sqr_ny_with_handle\<close> and \<^verbatim>\<open>krl_inner_product_ny_with_handle\<close> write nothing,
  and with non-null output and query pointers they return \<open>INVALPARAM\<close> (a null one
  is reported first, as \<open>INVALPOINTER\<close>).
\<close>

theorem handle_rejects_unsupported_data_bits:
  assumes "kdh_data_bits kdh \<noteq> 32"
  shows "unwritten buf (snd (krl_L2sqr_ny_with_handle (Some kdh) dis x dis_size x_size buf))
       \<and> unwritten buf (snd (krl_inner_product_ny_with_handle (Some kdh) dis x dis_size x_size buf))
       \<and> (dis \<noteq> None \<and> x \<noteq> None \<longrightarrow>
            fst (krl_L2sqr_ny_with_handle (Some kdh) dis x dis_size x_size buf) = INVALPARAM
          \<and> fst (krl_inner_product_ny_with_handle (Some kdh) dis x dis_size x_size buf) = INVALPARAM)"
  using assms
  by (simp add: krl_L2sqr_ny_with_handle_def krl_inner_product_ny_with_handle_def ny_with_handle_def Let_def)

theorem handle_rejects_unsupported_data_bits_witness:
  "kdh_data_bits \<lparr>kdh_metric_type = 1, kdh_data_bits = 16, kdh_M = 1, kdh_blocksize = 16, kdh_d = 1,
      kdh_ny = 16, kdh_ceil_ny = 16, kdh_transposed_codes = float_array []\<rparr> \<noteq> 32
   \<and> unwritten fresh_buf (snd (krl_L2sqr_ny_with_handle
        (Some \<lparr>kdh_metric_type = 1, kdh_data_bits = 16, kdh_M = 1, kdh_blocksize = 16, kdh_d = 1,
           kdh_ny = 16, kdh_ceil_ny = 16, kdh_transposed_codes = float_array []\<rparr>)
        (Some 0) (Some (float_array [])) 16 1 fresh_buf))
   \<and> fst (krl_L2sqr_ny_with_handle
        (Some \<lparr>kdh_metric_type = 1, kdh_data_bits = 16, kdh_M = 1, kdh_blocksize = 16, kdh_d = 1,
           kdh_ny = 16, kdh_ceil_ny = 16, kdh_transposed_codes = float_array []\<rparr>)
        (Some 0) (Some (float_array [])) 16 1 fresh_buf) = INVALPARAM"
  using handle_rejects_unsupported_data_bits[of
      "\<lparr>kdh_metric_type = 1, kdh_data_bits = 16, kdh_M = 1, kdh_blocksize = 16, kdh_d = 1,
         kdh_ny = 16, kdh_ceil_ny = 16, kdh_transposed_codes = float_array []\<rparr>"
      fresh_buf "Some 0" "Some (float_array [])" 16 1]
  by simp

text \<open>
  C8. The claim reads: for every query with \<open>ny mod B\<close> not zero the engine computes
  one more full block into the scratch buffer and copies only its first
  \<open>left = ny mod B\<close> elements into the tail of the output, and it returns
  \<^verbatim>\<open>UNSAFEMEM\<close>, the tail untouched, whenever fewer than \<open>left\<close> output slots remain.
  The code does so as long as the offset \<open>m * ny + i\<close> of the tail is within
  \<open>dis_size\<close> (\<open>remainder_path_scratch_then_bounded_copy\<close>). The remaining capacity is
  the \<^verbatim>\<open>size_t\<close> difference \<^verbatim>\<open>dis_size - (m * ny + i)\<close>, which wraps when the offset is
  beyond \<open>dis_size\<close>, and the entry validation lets such a call through when its
  product \<open>M * ny\<close> wraps. With \<open>M = 2^63\<close>, \<open>ny = 18\<close>, block size 16 and a buffer of
  18 slots the validation passes and the call runs the loop over the queries; at
  query 1 the tail is at offset 34, no slot remains, the difference wraps to
  \<open>2^64 - 16\<close>, both checks pass, the status of the query is \<open>SUCCESS\<close> and the slots
  18 to 35 have been written, 34 and 35 by the copy from the scratch buffer.
\<close>

theorem remainder_copy_past_capacity:
  "size_t (2 ^ 63 * 18) \<le> 18
   \<and> krl_L2sqr_ny_with_handle
        (Some \<lparr>kdh_metric_type = 1, kdh_data_bits = 32, kdh_M = 2 ^ 63, kdh_blocksize = 16, kdh_d = 1,
           kdh_ny = 18, kdh_ceil_ny = 32, kdh_transposed_codes = float_array []\<rparr>)
        (Some 0) (Some (float_array [])) 18 (2 ^ 63) fresh_buf
     = handle_left_loop 16 krl_L2sqr_continuous_transpose_mini_kernel
         \<lparr>kdh_metric_type = 1, kdh_data_bits = 32, kdh_M = 2 ^ 63, kdh_blocksize = 16, kdh_d = 1,
           kdh_ny = 18, kdh_ceil_ny = 32, kdh_transposed_codes = float_array []\<rparr>
         2 18 1 18 (ptr_add (float_array []) 1) (ptr_add (float_array []) 32)
         (snd (handle_query_left 16 krl_L2sqr_continuous_transpose_mini_kernel 18 1 2 18 0 0
                 (float_array []) (float_array []) fresh_buf))
   \<and> (18::nat) < 1 * 18 + 16 + 2
   \<and> fst (handle_query_left 16 krl_L2sqr_continuous_transpose_mini_kernel 18 1 2 18 1 18
            (ptr_add (float_array []) 1) (ptr_add (float_array []) 32)
            (snd (handle_query_left 16 krl_L2sqr_continuous_transpose_mini_kernel 18 1 2 18 0 0
                    (float_array []) (float_array []) fresh_buf))) = SUCCESS
   \<and> map (hits (snd (handle_query_left 16 krl_L2sqr_continuous_transpose_mini_kernel 18 1 2 18 1 18
            (ptr_add (float_array []) 1) (ptr_add (float_array []) 32)
            (snd (handle_query_left 16 krl_L2sqr_continuous_transpose_mini_kernel 18 1 2 18 0 0
                    (float_array []) (float_array []) fresh_buf))))) [33, 34, 35, 36]
     = [1, 1, 1, 0]"
proof -
  let ?K = "\<lparr>kdh_metric_type = 1, kdh_data_bits = 32, kdh_M = 2 ^ 63, kdh_blocksize = 16, kdh_d = 1,
           kdh_ny = 18, kdh_ceil_ny = 32, kdh_transposed_codes = float_array []\<rparr>"
  let ?k = krl_L2sqr_continuous_transpose_mini_kernel
  let ?q0 = "handle_query_left 16 ?k 18 1 2 18 0 0 (float_array []) (float_array []) fresh_buf"
  let ?q1 = "handle_query_left 16 ?k 18 1 2 18 1 18 (ptr_add (float_array []) 1)
               (ptr_add (float_array []) 32) (snd ?q0)"
  have v: "size_t (2 ^ 63 * 18) \<le> 18" by (simp add: size_t_def)
  have f0: "fst ?q0 = SUCCESS"
    by (simp add: handle_query_left_def loop_fit.simps Let_def size_t_def CheckAndMemcpy_def
        sizeof_float_def SUCCESS_def UNSAFEMEM_def)
  have e: "krl_L2sqr_ny_with_handle (Some ?K) (Some 0) (Some (float_array [])) 18 (2 ^ 63) fresh_buf
           = handle_left_loop 16 ?k ?K 2 18 0 0 (float_array []) (float_array []) fresh_buf"
    by (simp add: krl_L2sqr_ny_with_handle_def ny_with_handle_def Let_def size_t_def handle_case_def
        nat_and_15)
  have s: "handle_left_loop 16 ?k ?K 2 18 0 0 (float_array []) (float_array []) fresh_buf
           = handle_left_loop 16 ?k ?K 2 18 1 18 (ptr_add (float_array []) 1)
               (ptr_add (float_array []) 32) (snd ?q0)"
    by (subst handle_left_loop.simps) (use f0 in \<open>simp add: split_beta\<close>)
  have f1: "fst ?q1 = SUCCESS"
    by (simp add: handle_query_left_def loop_fit.simps Let_def size_t_def CheckAndMemcpy_def
        sizeof_float_def SUCCESS_def UNSAFEMEM_def)
  have h1: "map (hits (snd ?q1)) [33, 34, 35, 36] = [1, 1, 1, 0]"
    by (simp add: handle_query_left_def loop_fit.simps Let_def size_t_def CheckAndMemcpy_def
        sizeof_float_def SUCCESS_def UNSAFEMEM_def hits_store_block fresh_buf_def)
  from v e s f1 h1 show ?thesis by simp
qed

text \<open>
  C9. The claim reads: for a handle with block size 16, 32 or 64 and 32-bit data, a
  call that passes the entry validation \<open>dis_size \<ge> M * ny\<close> never returns
  \<^verbatim>\<open>UNSAFEMEM\<close>, the remaining capacity being at least \<open>left\<close> at every query. This
  holds where nothing wraps (\<open>handle_succeeds_when_byte_counts_fit\<close>). The validation
  compares \<open>dis_size\<close> with the \<^verbatim>\<open>size_t\<close> product \<open>M * ny\<close>: with \<open>M = 2^63\<close>,
  \<open>ny = 18\<close> and a buffer of 16 slots the call passes it, at query 0 and tail offset
  16 the remaining capacity is 0, less than \<open>left = 2\<close>, and the call returns
  \<^verbatim>\<open>UNSAFEMEM\<close>. The bounded copy compares byte counts, and
  \<^verbatim>\<open>remaining_dis_size * sizeof(float)\<close> is a \<^verbatim>\<open>size_t\<close> product as well: with one
  query, 17 vectors and a declared capacity of \<open>2^62 + 16\<close> the remaining capacity at
  the tail is \<open>2^62\<close>, its byte count wraps to 0, the copy of 4 bytes is refused and the
  call returns \<^verbatim>\<open>UNSAFEMEM\<close>.
\<close>

theorem handle_unsafemem_after_validation:
  "size_t (2 ^ 63 * 18) \<le> 16
   \<and> size_t (16 + 2 ^ 64 - size_t (0 * 18 + 16)) < 18 mod 16
   \<and> fst (krl_inner_product_ny_with_handle
          (Some \<lparr>kdh_metric_type = 0, kdh_data_bits = 32, kdh_M = 2 ^ 63, kdh_blocksize = 16, kdh_d = 1,
             kdh_ny = 18, kdh_ceil_ny = 32, kdh_transposed_codes = float_array []\<rparr>)
          (Some 0) (Some (float_array [])) 16 (2 ^ 63) fresh_buf) = UNSAFEMEM
   \<and> (1::nat) * 17 \<le> 2 ^ 62 + 16
   \<and> fst (krl_L2sqr_ny_with_handle
          (Some \<lparr>kdh_metric_type = 1, kdh_data_bits = 32, kdh_M = 1, kdh_blocksize = 16, kdh_d = 1,
             kdh_ny = 17, kdh_ceil_ny = 32, kdh_transposed_codes = float_array []\<rparr>)
          (Some 0) (Some (float_array [])) (2 ^ 62 + 16) 1 fresh_buf) = UNSAFEMEM"
  by (simp add: krl_L2sqr_ny_with_handle_def krl_inner_product_ny_with_handle_def ny_with_handle_def
      Let_def size_t_def handle_case_def
      handle_left_loop.simps handle_query_left_def loop_fit.simps CheckAndMemcpy_def sizeof_float_def
      SUCCESS_def UNSAFEMEM_def)

text \<open>
  C10. For every handle with \<^verbatim>\<open>data_bits = 32\<close> whose \<^verbatim>\<open>blocksize\<close> is none of 16, 32
  and 64, given non-null pointers, \<open>dis_size \<ge> M * ny\<close> and \<open>x_size \<ge> d * M\<close> (both
  sizes being \<^verbatim>\<open>size_t\<close> values), the two handle entry points return \<open>SUCCESS\<close> and
  the output memory they were given: the switch has no default case.
\<close>

theorem handle_unknown_blocksize_succeeds_without_writes:
  assumes "kdh_data_bits kdh = 32"
    and "kdh_blocksize kdh \<noteq> 16" and "kdh_blocksize kdh \<noteq> 32" and "kdh_blocksize kdh \<noteq> 64"
    and "kdh_M kdh * kdh_ny kdh \<le> dis_size" and "dis_size < 2 ^ 64"
    and "kdh_d kdh * kdh_M kdh \<le> x_size" and "x_size < 2 ^ 64"
  shows "krl_L2sqr_ny_with_handle (Some kdh) (Some dis) (Some x) dis_size x_size buf = (SUCCESS, buf)
       \<and> krl_inner_product_ny_with_handle (Some kdh) (Some dis) (Some x) dis_size x_size buf = (SUCCESS, buf)"
proof -
  have "size_t (kdh_M kdh * kdh_ny kdh) \<le> dis_size" "size_t (kdh_d kdh * kdh_M kdh) \<le> x_size"
    using assms(5-8) by (simp_all add: size_t_def)
  then show ?thesis
    using assms(1-4)
    by (simp add: krl_L2sqr_ny_with_handle_def krl_inner_product_ny_with_handle_def ny_with_handle_def
        Let_def not_less[symmetric])
qed

theorem handle_unknown_blocksize_succeeds_without_writes_witness:
  "(32::nat) = 32 \<and> (8::nat) \<noteq> 16 \<and> (8::nat) \<noteq> 32 \<and> (8::nat) \<noteq> 64
   \<and> (1::nat) * 8 \<le> 8 \<and> (8::nat) < 2 ^ 64 \<and> (1::nat) * 1 \<le> 1 \<and> (1::nat) < 2 ^ 64
   \<and> krl_L2sqr_ny_with_handle
      (Some \<lparr>kdh_metric_type = 1, kdh_data_bits = 32, kdh_M = 1, kdh_blocksize = 8, kdh_d = 1,
         kdh_ny = 8, kdh_ceil_ny = 8, kdh_transposed_codes = float_array []\<rparr>)
      (Some 0) (Some (float_array [])) 8 1 fresh_buf = (SUCCESS, fresh_buf)
   \<and> krl_inner_product_ny_with_handle
      (Some \<lparr>kdh_metric_type = 1, kdh_data_bits = 32, kdh_M = 1, kdh_blocksize = 8, kdh_d = 1,
         kdh_ny = 8, kdh_ceil_ny = 8, kdh_transposed_codes = float_array []\<rparr>)
      (Some 0) (Some (float_array [])) 8 1 fresh_buf = (SUCCESS, fresh_buf)"
  using handle_unknown_blocksize_succeeds_without_writes[of
      "\<lparr>kdh_metric_type = 1, kdh_data_bits = 32, kdh_M = 1, kdh_blocksize = 8, kdh_d = 1,
         kdh_ny = 8, kdh_ceil_ny = 8, kdh_transposed_codes = float_array []\<rparr>" 8 1 0 "float_array []" fresh_buf]
  by simp

end
